(* ===== verification/Prelude.thy ===== *)
theory Prelude
  imports Complex_Main "HOL-Library.AList"
begin

unbundle bit_operations_syntax

text \<open>
  The shared vocabulary of the development: the exceptions the code raises and catches, actions
  (state passing with exceptions, the shape of every driver coroutine), Hoare-style triples for
  them, the Python conversions the code relies on (slicing, indexing, \<open>int(x)\<close>), and the lemmas
  on 16-bit register pairs.  Wall and monotonic clocks are exact numbers (\<open>int\<close> and
  \<open>real\<close>): floating-point rounding is not modelled.
\<close>

named_theorems act_simps \<open>unfolding rules for actions\<close>
named_theorems hoare \<open>triple rules for actions\<close>

section \<open>Exceptions\<close>

text \<open>
  What the libraries outside the repository may raise is kept apart from what the code raises
  itself: no library can raise the driver's own \<open>HwWatchdogNotArmedError\<close>.  The Python hierarchy
  is in \<open>is_OSError\<close> and the like: \<open>ConnectionError\<close>, \<open>TimeoutError\<close> and
  \<open>FileNotFoundError\<close> are subclasses of \<open>OSError\<close>; \<open>JSONDecodeError\<close> and \<open>ConfigError\<close>
  of \<open>ValueError\<close>; \<open>OverflowError\<close> and \<open>AttributeError\<close> of neither.
\<close>

datatype lib_exc = LibTimeout | LibModbus | LibConnection | LibOS | LibOther nat

datatype exc =
    Lib lib_exc
  | OSError
  | ConnectionError
  | FileNotFoundError
  | ValueError
  | JSONDecodeError
  | UnicodeDecodeError
  | RecursionError
  | ConfigError
  | TypeError
  | IndexError
  | AttributeError
  | OverflowError
  | RuntimeError
  | TimeoutError
  | KeyError
  | HwWatchdogNotArmedError

fun is_OSError :: "exc \<Rightarrow> bool" where
  "is_OSError (Lib LibTimeout) = True"
| "is_OSError (Lib LibConnection) = True"
| "is_OSError (Lib LibOS) = True"
| "is_OSError OSError = True"
| "is_OSError ConnectionError = True"
| "is_OSError FileNotFoundError = True"
| "is_OSError TimeoutError = True"
| "is_OSError _ = False"

fun is_ValueError :: "exc \<Rightarrow> bool" where
  "is_ValueError ValueError = True"
| "is_ValueError JSONDecodeError = True"
| "is_ValueError UnicodeDecodeError = True"
| "is_ValueError ConfigError = True"
| "is_ValueError _ = False"

section \<open>Actions\<close>

type_synonym ('s, 'a) act = "'s \<Rightarrow> (exc + 'a) \<times> 's"

definition ret :: "'a \<Rightarrow> ('s, 'a) act" where
  [act_simps]: "ret x = (\<lambda>s. (Inr x, s))"

definition raise :: "exc \<Rightarrow> ('s, 'a) act" where
  [act_simps]: "raise e = (\<lambda>s. (Inl e, s))"

definition andthen :: "('s, 'a) act \<Rightarrow> ('a \<Rightarrow> ('s, 'b) act) \<Rightarrow> ('s, 'b) act" where
  [act_simps]: "andthen m f = (\<lambda>s. case m s of (Inl e, s') \<Rightarrow> (Inl e, s') | (Inr x, s') \<Rightarrow> f x s')"

definition catching :: "('s, 'a) act \<Rightarrow> (exc \<Rightarrow> ('s, 'a) act) \<Rightarrow> ('s, 'a) act" where
  [act_simps]: "catching m h = (\<lambda>s. case m s of (Inl e, s') \<Rightarrow> h e s' | (Inr x, s') \<Rightarrow> (Inr x, s'))"

definition gets :: "('s \<Rightarrow> 'a) \<Rightarrow> ('s, 'a) act" where
  [act_simps]: "gets f = (\<lambda>s. (Inr (f s), s))"

definition modify :: "('s \<Rightarrow> 's) \<Rightarrow> ('s, unit) act" where
  [act_simps]: "modify f = (\<lambda>s. (Inr (), f s))"

definition lift_result :: "exc + 'a \<Rightarrow> ('s, 'a) act" where
  [act_simps]: "lift_result r = (\<lambda>s. (r, s))"

lemma andthen_ret [simp]: "andthen (ret x) f = f x"
  by (simp add: act_simps)

lemma andthen_raise [simp]: "andthen (raise e) f = raise e"
  by (simp add: act_simps)

lemma andthen_assoc: "andthen (andthen m f) g = andthen m (\<lambda>x. andthen (f x) g)"
  by (rule ext) (simp add: act_simps split: prod.split sum.split)

text \<open>
  A triple: from a state with \<open>P\<close>, a normal return satisfies \<open>Q\<close> and a raise satisfies \<open>E\<close>.
\<close>

definition triple :: "('s \<Rightarrow> bool) \<Rightarrow> ('s, 'a) act \<Rightarrow> ('a \<Rightarrow> 's \<Rightarrow> bool) \<Rightarrow> (exc \<Rightarrow> 's \<Rightarrow> bool) \<Rightarrow> bool" where
  "triple P m Q E \<longleftrightarrow>
     (\<forall>s. P s \<longrightarrow> (case m s of (Inl e, s') \<Rightarrow> E e s' | (Inr x, s') \<Rightarrow> Q x s'))"

lemma tripleI:
  assumes "\<And>s x s'. P s \<Longrightarrow> m s = (Inr x, s') \<Longrightarrow> Q x s'"
    and "\<And>s e s'. P s \<Longrightarrow> m s = (Inl e, s') \<Longrightarrow> E e s'"
  shows "triple P m Q E"
  using assms unfolding triple_def by (auto split: prod.split sum.split)

lemma triple_returnD: "triple P m Q E \<Longrightarrow> P s \<Longrightarrow> m s = (Inr x, s') \<Longrightarrow> Q x s'"
  unfolding triple_def by fastforce

lemma triple_raiseD: "triple P m Q E \<Longrightarrow> P s \<Longrightarrow> m s = (Inl e, s') \<Longrightarrow> E e s'"
  unfolding triple_def by fastforce

lemma act_cases:
  fixes m :: "('s, 'a) act"
  obtains (returned) x s' where "m s = (Inr x, s')" | (raised) e s' where "m s = (Inl e, s')"
  by (cases "m s"; cases "fst (m s)") auto

text \<open>Either way the final state satisfies a common postcondition.\<close>

lemma triple_snd:
  assumes "triple P m (\<lambda>_. R) (\<lambda>_. R)" and "P s"
  shows "R (snd (m s))"
  using assms by (cases m s rule: act_cases) (auto dest: triple_returnD triple_raiseD)

lemma triple_weaken:
  assumes t: "triple P m Q E" and Q: "\<And>x s. Q x s \<Longrightarrow> Q' x s" and E: "\<And>e s. E e s \<Longrightarrow> E' e s"
  shows "triple P m Q' E'"
proof (rule tripleI)
  fix s x s' assume "P s" "m s = (Inr x, s')"
  with t have "Q x s'" by (rule triple_returnD)
  then show "Q' x s'" by (rule Q)
next
  fix s e s' assume "P s" "m s = (Inl e, s')"
  with t have "E e s'" by (rule triple_raiseD)
  then show "E' e s'" by (rule E)
qed

lemma triple_pre:
  assumes t: "triple P m Q E" and P: "\<And>s. P' s \<Longrightarrow> P s"
  shows "triple P' m Q E"
proof (rule tripleI)
  fix s x s' assume "P' s" and "m s = (Inr x, s')"
  then show "Q x s'" using t P triple_returnD by metis
next
  fix s e s' assume "P' s" and "m s = (Inl e, s')"
  then show "E e s'" using t P triple_raiseD by metis
qed

lemma andthen_returnE:
  assumes "andthen m f s = (Inr y, t)"
  obtains x s' where "m s = (Inr x, s')" and "f x s' = (Inr y, t)"
  using assms by (cases m s rule: act_cases) (auto simp: andthen_def)

lemma andthen_raiseE:
  assumes "andthen m f s = (Inl e, t)"
  obtains (first) "m s = (Inl e, t)"
    | (second) x s' where "m s = (Inr x, s')" and "f x s' = (Inl e, t)"
  using assms by (cases m s rule: act_cases) (auto simp: andthen_def)

lemma triple_andthen [hoare]:
  assumes m: "triple P m R E" and f: "\<And>x. triple (R x) (f x) Q E"
  shows "triple P (andthen m f) Q E"
  by (rule tripleI)
    (auto elim!: andthen_returnE andthen_raiseE
       intro: triple_returnD [OF f triple_returnD [OF m]]
         triple_raiseD [OF f triple_returnD [OF m]] triple_raiseD [OF m])

lemma catching_cases:
  assumes "catching m h s = (r, t)"
  obtains (returned) x where "m s = (Inr x, t)" and "r = Inr x"
    | (handled) e s' where "m s = (Inl e, s')" and "h e s' = (r, t)"
  using assms by (cases m s rule: act_cases) (auto simp: catching_def)

lemma triple_catching [hoare]:
  assumes m: "triple P m Q R" and h: "\<And>e. triple (R e) (h e) Q E"
  shows "triple P (catching m h) Q E"
  by (rule tripleI)
    (auto elim!: catching_cases
       intro: triple_returnD [OF h triple_raiseD [OF m]]
         triple_raiseD [OF h triple_raiseD [OF m]] triple_returnD [OF m])

lemma triple_ret [hoare]: "triple (Q x) (ret x) Q E"
  by (simp add: triple_def ret_def)

lemma triple_raise [hoare]: "triple (E e) (raise e) Q E"
  by (simp add: triple_def raise_def)

lemma triple_gets [hoare]: "triple (\<lambda>s. Q (f s) s) (gets f) Q E"
  by (simp add: triple_def gets_def)

lemma triple_modify [hoare]: "triple (\<lambda>s. Q () (f s)) (modify f) Q E"
  by (simp add: triple_def modify_def)

lemma triple_lift_result [hoare]:
  "triple (\<lambda>s. case r of Inl e \<Rightarrow> E e s | Inr x \<Rightarrow> Q x s) (lift_result r) Q E"
  by (simp add: triple_def lift_result_def split: sum.split)

lemma triple_if [hoare]:
  "(b \<Longrightarrow> triple P m Q E) \<Longrightarrow> (\<not> b \<Longrightarrow> triple P m' Q E) \<Longrightarrow> triple P (if b then m else m') Q E"
  by simp

text \<open>An invariant of an action: kept whether it returns or raises.\<close>

definition keeps :: "('s \<Rightarrow> bool) \<Rightarrow> ('s, 'a) act \<Rightarrow> bool" where
  "keeps P m \<longleftrightarrow> triple P m (\<lambda>_. P) (\<lambda>_. P)"

lemma keepsI:
  assumes "\<And>s. P s \<Longrightarrow> P (snd (m s))"
  shows "keeps P m"
  unfolding keeps_def by (rule tripleI) (use assms in force)+

lemma keepsD: "keeps P m \<Longrightarrow> P s \<Longrightarrow> P (snd (m s))"
  unfolding keeps_def by (rule triple_snd)

lemma keeps_andthen [hoare]: "keeps P m \<Longrightarrow> (\<And>x. keeps P (f x)) \<Longrightarrow> keeps P (andthen m f)"
  unfolding keeps_def by (rule triple_andthen)

lemma keeps_catching [hoare]: "keeps P m \<Longrightarrow> (\<And>e. keeps P (h e)) \<Longrightarrow> keeps P (catching m h)"
  unfolding keeps_def by (rule triple_catching)

lemma keeps_pure [hoare]:
  "keeps P (ret x)" "keeps P (raise e)" "keeps P (gets f)" "keeps P (lift_result r)"
  by (auto simp: keeps_def triple_def act_simps split: sum.split)

lemma keeps_modify [hoare]: "(\<And>s. P s \<Longrightarrow> P (f s)) \<Longrightarrow> keeps P (modify f)"
  by (auto simp: keeps_def triple_def act_simps)

lemma keeps_if [hoare]:
  "(b \<Longrightarrow> keeps P m) \<Longrightarrow> (\<not> b \<Longrightarrow> keeps P m') \<Longrightarrow> keeps P (if b then m else m')"
  by simp

lemma keeps_cases [hoare]:
  "keeps P m \<Longrightarrow> (\<And>x. keeps P (f x)) \<Longrightarrow> keeps P (case opt of None \<Rightarrow> m | Some x \<Rightarrow> f x)"
  "(\<And>x y. keeps P (g x y)) \<Longrightarrow> keeps P (case pr of (x, y) \<Rightarrow> g x y)"
  "(\<And>x. keeps P (h x)) \<Longrightarrow> (\<And>x. keeps P (k x)) \<Longrightarrow> keeps P (case sm of Inl x \<Rightarrow> h x | Inr x \<Rightarrow> k x)"
  by (simp_all split: option.split prod.split sum.split)

text \<open>The exceptions an action can raise.\<close>

definition raises_only :: "(exc \<Rightarrow> bool) \<Rightarrow> ('s, 'a) act \<Rightarrow> bool" where
  "raises_only R m \<longleftrightarrow> triple (\<lambda>_. True) m (\<lambda>_ _. True) (\<lambda>e _. R e)"

lemma raises_onlyI:
  assumes "\<And>s e s'. m s = (Inl e, s') \<Longrightarrow> R e"
  shows "raises_only R m"
  unfolding raises_only_def by (rule tripleI) (use assms in auto)

lemma raises_onlyD: "raises_only R m \<Longrightarrow> m s = (Inl e, s') \<Longrightarrow> R e"
  by (simp add: raises_only_def triple_def) (metis (mono_tags, lifting) case_prod_conv sum.simps(5))

lemma raises_only_fst: "raises_only R m \<Longrightarrow> fst (m s) = Inl e \<Longrightarrow> R e"
  by (metis raises_onlyD prod.collapse)

lemma raises_weaken: "raises_only R m \<Longrightarrow> (\<And>e. R e \<Longrightarrow> R' e) \<Longrightarrow> raises_only R' m"
  by (metis raises_onlyD raises_onlyI)

lemma raises_andthen [hoare]:
  assumes "raises_only R m" and "\<And>x. raises_only R (f x)"
  shows "raises_only R (andthen m f)"
  by (rule raises_onlyI) (use assms in \<open>auto elim!: andthen_raiseE dest: raises_onlyD\<close>)

lemma raises_catching:
  assumes "raises_only R m" and "\<And>e. R e \<Longrightarrow> raises_only R' (h e)"
  shows "raises_only R' (catching m h)"
  by (rule raises_onlyI) (use assms in \<open>auto elim!: catching_cases dest: raises_onlyD\<close>)

lemma raises_catching_all:
  assumes "\<And>e. raises_only R (h e)"
  shows "raises_only R (catching m h)"
  by (rule raises_onlyI) (use assms in \<open>auto elim!: catching_cases dest: raises_onlyD\<close>)

lemma raises_pure [hoare]:
  "raises_only R (ret x)" "raises_only R (gets f)" "raises_only R (modify g)"
  by (auto simp: raises_only_def triple_def act_simps)

lemma raises_raise [hoare]: "R e \<Longrightarrow> raises_only R (raise e)"
  by (auto simp: raises_only_def triple_def act_simps)

lemma raises_lift_result [hoare]:
  "(\<And>e. r = Inl e \<Longrightarrow> R e) \<Longrightarrow> raises_only R (lift_result r)"
  by (auto simp: raises_only_def triple_def act_simps split: sum.split)

lemma raises_if [hoare]:
  "(b \<Longrightarrow> raises_only R m) \<Longrightarrow> (\<not> b \<Longrightarrow> raises_only R m') \<Longrightarrow> raises_only R (if b then m else m')"
  by simp

lemma raises_cases [hoare]:
  "raises_only R m \<Longrightarrow> (\<And>x. raises_only R (f x)) \<Longrightarrow>
     raises_only R (case opt of None \<Rightarrow> m | Some x \<Rightarrow> f x)"
  "(\<And>x y. raises_only R (g x y)) \<Longrightarrow> raises_only R (case pr of (x, y) \<Rightarrow> g x y)"
  "(\<And>x. raises_only R (h x)) \<Longrightarrow> (\<And>x. raises_only R (k x)) \<Longrightarrow>
     raises_only R (case sm of Inl x \<Rightarrow> h x | Inr x \<Rightarrow> k x)"
  by (simp_all split: option.split prod.split sum.split)

section \<open>Python values\<close>

text \<open>\<open>xs[i]\<close> for a non-negative index: \<open>IndexError\<close> past the end.\<close>

definition py_index :: "'a list \<Rightarrow> nat \<Rightarrow> exc + 'a" where
  "py_index xs i = (if i < length xs then Inr (xs ! i) else Inl IndexError)"

text \<open>\<open>xs[:n]\<close>: a negative bound counts from the end.\<close>

definition py_take :: "int \<Rightarrow> 'a list \<Rightarrow> 'a list" where
  "py_take n xs = take (nat (if n < 0 then int (length xs) + n else n)) xs"

lemma py_take_nat [simp]: "py_take (int n) xs = take n xs"
  by (simp add: py_take_def)

text \<open>\<open>int(x)\<close> of a finite float truncates towards zero.\<close>

definition py_trunc :: "real \<Rightarrow> int" where
  "py_trunc x = (if 0 \<le> x then \<lfloor>x\<rfloor> else - \<lfloor>- x\<rfloor>)"

lemma py_trunc_nonneg: "0 \<le> x \<Longrightarrow> 0 \<le> py_trunc x"
  by (simp add: py_trunc_def)

lemma py_trunc_mono: "x \<le> y \<Longrightarrow> py_trunc x \<le> py_trunc y"
  unfolding py_trunc_def by (auto simp: floor_mono intro: order_trans [of _ 0])

text \<open>\<open>str.isspace\<close> and \<open>str.strip\<close> on ASCII text.\<close>

definition is_space :: "char \<Rightarrow> bool" where
  "is_space c \<longleftrightarrow> (of_char c :: nat) \<in> {9, 10, 11, 12, 13, 28, 29, 30, 31, 32}"

definition strip :: "string \<Rightarrow> string" where
  "strip s = rev (dropWhile is_space (rev (dropWhile is_space s)))"

section \<open>Register pairs\<close>

text \<open>The high and low 16-bit words of a Python integer, and a reader's recombination.\<close>

definition hi_word :: "int \<Rightarrow> int" where
  "hi_word x = drop_bit 16 x AND 0xFFFF"

definition lo_word :: "int \<Rightarrow> int" where
  "lo_word x = x AND 0xFFFF"

definition pair_u32 :: "int \<Rightarrow> int \<Rightarrow> int" where
  "pair_u32 hi lo = push_bit 16 hi OR lo"

lemma and_0xFFFF: "(x :: int) AND 0xFFFF = x mod 65536"
proof -
  have "x AND mask 16 = x mod 2 ^ 16"
    by (simp only: take_bit_eq_mask [symmetric] take_bit_eq_mod)
  moreover have "mask 16 = (0xFFFF :: int)" by (simp add: mask_eq_exp_minus_1)
  ultimately show ?thesis by simp
qed

lemma hi_word_eq: "hi_word x = x div 65536 mod 65536"
  by (simp add: hi_word_def and_0xFFFF drop_bit_eq_div)

lemma lo_word_eq: "lo_word x = x mod 65536"
  by (simp add: lo_word_def and_0xFFFF)

lemma word_ranges [simp]:
  "0 \<le> hi_word x" "hi_word x < 65536" "0 \<le> lo_word x" "lo_word x < 65536"
  by (simp_all add: hi_word_eq lo_word_eq)

lemma pair_u32_eq:
  assumes "0 \<le> lo" "lo < 65536"
  shows "pair_u32 hi lo = hi * 65536 + lo"
proof -
  have lo: "take_bit 16 lo = lo" using assms by (simp add: take_bit_eq_mod)
  have "push_bit 16 hi AND take_bit 16 lo = 0"
    by (rule bit_eqI) (auto simp: bit_simps)
  then have "push_bit 16 hi AND lo = 0"
    unfolding lo .
  moreover have "(push_bit 16 hi AND lo) + (push_bit 16 hi OR lo) = push_bit 16 hi + lo"
    by (rule plus_and_or)
  ultimately have "push_bit 16 hi OR lo = push_bit 16 hi + lo"
    by simp
  then show ?thesis by (simp add: pair_u32_def push_bit_eq_mult)
qed

lemma pair_u32_words: "pair_u32 (hi_word x) (lo_word x) = x mod 2 ^ 32"
proof -
  have "pair_u32 (hi_word x) (lo_word x) = x div 65536 mod 65536 * 65536 + x mod 65536"
    by (simp add: pair_u32_eq hi_word_eq lo_word_eq)
  also have "\<dots> = x mod (65536 * 65536)"
    using zmod_zmult2_eq [of 65536 x 65536] by simp
  finally show ?thesis by simp
qed

end
