(* ===== verification/Persistence.thy ===== *)
theory Persistence
  imports Prelude
begin

text \<open>
  \<open>src/src/atspi/persistence.py\<close>: the persisted counters, the JSON document they are stored as,
  and \<open>StateFile\<close> with its write-temp, fsync, rename, fsync-directory protocol.  The file system is
  modelled as POSIX describes it: directory entries point to inodes, \<open>fsync\<close> of a file makes its
  contents durable, \<open>fsync\<close> of the directory makes its entries durable, and after a power loss an
  entry may be any of those it had since the last directory fsync, with arbitrary contents if the
  inode was not synced.  JSON text is modelled by the value it parses to (\<open>Doc\<close>), and bytes \<open>json.load\<close>
  rejects by the exception it rejects them with (\<open>Garbage\<close>); strings are ASCII.  What keeps a process from the
  file -- a failing \<open>stat\<close>, a failing read -- is an argument (\<open>access\<close>).
\<close>

section \<open>JSON values and Python's int()\<close>

datatype pyfloat = Finite real | Infinite bool | NotANumber

datatype json =
    JNull
  | JBool bool
  | JInt int
  | JFloat pyfloat
  | JStr string
  | JArr "json list"
  | JObj "(string \<times> json) list"

definition is_digit :: "char \<Rightarrow> bool" where
  "is_digit c \<longleftrightarrow> 48 \<le> (of_char c :: nat) \<and> (of_char c :: nat) \<le> 57"

definition digit_value :: "char \<Rightarrow> int" where
  "digit_value c = int (of_char c) - 48"

text \<open>Decimal digits, single underscores allowed between two of them.\<close>

fun parse_digits :: "int \<Rightarrow> string \<Rightarrow> int option" where
  "parse_digits acc [] = Some acc"
| "parse_digits acc (c # cs) =
     (if is_digit c then parse_digits (acc * 10 + digit_value c) cs
      else if c = CHR ''_'' \<and> cs \<noteq> [] \<and> is_digit (hd cs) then parse_digits acc cs
      else None)"

definition parse_unsigned :: "string \<Rightarrow> int option" where
  "parse_unsigned s =
     (if s = [] \<or> \<not> is_digit (hd s) \<or> 4300 < length (filter is_digit s) then None
      else parse_digits 0 s)"

text \<open>\<open>int(s)\<close> of a string.\<close>

definition py_int_of_string :: "string \<Rightarrow> exc + int" where
  "py_int_of_string s =
     (case (case strip s of
              [] \<Rightarrow> None
            | c # cs \<Rightarrow> (if c = CHR ''-'' then map_option uminus (parse_unsigned cs)
                       else if c = CHR ''+'' then parse_unsigned cs
                       else parse_unsigned (c # cs)))
      of None \<Rightarrow> Inl ValueError | Some n \<Rightarrow> Inr n)"

text \<open>\<open>int(x)\<close> of a JSON value: the exceptions are those CPython raises.\<close>

fun py_int :: "json \<Rightarrow> exc + int" where
  "py_int (JInt n) = Inr n"
| "py_int (JBool b) = Inr (if b then 1 else 0)"
| "py_int (JFloat (Finite x)) = Inr (py_trunc x)"
| "py_int (JFloat NotANumber) = Inl ValueError"
| "py_int (JFloat (Infinite _)) = Inl OverflowError"
| "py_int (JStr s) = py_int_of_string s"
| "py_int JNull = Inl TypeError"
| "py_int (JArr _) = Inl TypeError"
| "py_int (JObj _) = Inl TypeError"

fun py_ints :: "json list \<Rightarrow> exc + int list" where
  "py_ints [] = Inr []"
| "py_ints (j # js) =
     (case py_int j of Inl e \<Rightarrow> Inl e
      | Inr n \<Rightarrow> (case py_ints js of Inl e \<Rightarrow> Inl e | Inr ns \<Rightarrow> Inr (n # ns)))"

fun truthy :: "json \<Rightarrow> bool" where
  "truthy JNull = False"
| "truthy (JBool b) = b"
| "truthy (JInt n) = (n \<noteq> 0)"
| "truthy (JFloat (Finite x)) = (x \<noteq> 0)"
| "truthy (JFloat _) = True"
| "truthy (JStr s) = (s \<noteq> [])"
| "truthy (JArr xs) = (xs \<noteq> [])"
| "truthy (JObj kvs) = (kvs \<noteq> [])"

lemma py_ints_JInt [simp]: "py_ints (map JInt ns) = Inr ns"
  by (induction ns) simp_all

section \<open>PersistedState\<close>

record PersistedState =
  ps_transfer_count_lifetime :: int
  ps_last_transfer_to_gen_ts :: int
  ps_last_retransfer_to_util_ts :: int
  ps_recent_transfer_wallclocks :: "int list"

definition zero_state :: PersistedState where
  "zero_state = \<lparr>ps_transfer_count_lifetime = 0, ps_last_transfer_to_gen_ts = 0,
     ps_last_retransfer_to_util_ts = 0, ps_recent_transfer_wallclocks = []\<rparr>"

text \<open>\<open>asdict(state)\<close>, as \<open>json.dump\<close> writes it.\<close>

definition asdict_state :: "PersistedState \<Rightarrow> json" where
  "asdict_state p = JObj
     [(''transfer_count_lifetime'', JInt (ps_transfer_count_lifetime p)),
      (''last_transfer_to_gen_ts'', JInt (ps_last_transfer_to_gen_ts p)),
      (''last_retransfer_to_util_ts'', JInt (ps_last_retransfer_to_util_ts p)),
      (''recent_transfer_wallclocks'', JArr (map JInt (ps_recent_transfer_wallclocks p)))]"

definition get_default :: "(string \<times> json) list \<Rightarrow> string \<Rightarrow> json \<Rightarrow> json" where
  "get_default kvs k d = (case map_of kvs k of None \<Rightarrow> d | Some v \<Rightarrow> v)"

text \<open>
  The body of the \<open>try\<close> block of \<open>StateFile.load\<close>, once the document is parsed.  \<open>data.get\<close> on a
  document whose root is not an object is an \<open>AttributeError\<close>.
\<close>

fun decode_state :: "json \<Rightarrow> exc + PersistedState" where
  "decode_state (JObj kvs) =
     (let raw = get_default kvs ''recent_transfer_wallclocks'' JNull;
          raw_wallclocks = (if truthy raw then raw else JArr []);
          elems = (case raw_wallclocks of JArr xs \<Rightarrow> xs | _ \<Rightarrow> [])
      in case py_ints elems of Inl e \<Rightarrow> Inl e | Inr recent \<Rightarrow>
         (case py_int (get_default kvs ''transfer_count_lifetime'' (JInt 0)) of Inl e \<Rightarrow> Inl e
          | Inr lifetime \<Rightarrow>
         (case py_int (get_default kvs ''last_transfer_to_gen_ts'' (JInt 0)) of Inl e \<Rightarrow> Inl e
          | Inr to_gen \<Rightarrow>
         (case py_int (get_default kvs ''last_retransfer_to_util_ts'' (JInt 0)) of Inl e \<Rightarrow> Inl e
          | Inr to_util \<Rightarrow>
            Inr \<lparr>ps_transfer_count_lifetime = lifetime, ps_last_transfer_to_gen_ts = to_gen,
                 ps_last_retransfer_to_util_ts = to_util,
                 ps_recent_transfer_wallclocks = recent\<rparr>))))"
| "decode_state _ = Inl AttributeError"

lemma decode_asdict [simp]: "decode_state (asdict_state p) = Inr p"
  by (cases "ps_recent_transfer_wallclocks p")
    (simp_all add: asdict_state_def get_default_def Let_def)

text \<open>The exceptions \<open>load\<close> turns into zeros; any other one escapes.\<close>

definition load_catches :: "exc \<Rightarrow> bool" where
  "load_catches e \<longleftrightarrow> is_OSError e \<or> is_ValueError e \<or> e = TypeError"

section \<open>The file system\<close>

text \<open>
  Why \<open>json.load\<close> fails on a file it can read: bytes that are not JSON, bytes that are not UTF-8, nesting beyond the interpreter's
  recursion limit, an integer of more digits than \<open>int\<close> converts.
\<close>

datatype unparsable = Bad_Syntax | Bad_Encoding | Too_Deep | Too_Long_Int

fun parse_error :: "unparsable \<Rightarrow> exc" where
  "parse_error Bad_Syntax = JSONDecodeError"
| "parse_error Bad_Encoding = UnicodeDecodeError"
| "parse_error Too_Deep = RecursionError"
| "parse_error Too_Long_Int = ValueError"

datatype content = Doc json | Garbage unparsable

record inode =
  i_data :: content
  i_synced :: bool

text \<open>
  \<open>entry\<close> is the directory as running processes see it; \<open>on_disk\<close> lists, for a name, the entries
  a power loss may leave behind (all it had since the last directory fsync).
\<close>

record fs =
  inodes :: "nat \<Rightarrow> inode"
  next_inode :: nat
  entry :: "string \<Rightarrow> nat option"
  on_disk :: "string \<Rightarrow> nat option list"

definition set_entry :: "string \<Rightarrow> nat option \<Rightarrow> fs \<Rightarrow> fs" where
  "set_entry n i s = s\<lparr>entry := (entry s)(n := i), on_disk := (on_disk s)(n := i # on_disk s n)\<rparr>"

definition create_file :: "string \<Rightarrow> fs \<Rightarrow> fs" where
  "create_file n s = set_entry n (Some (next_inode s))
     (s\<lparr>inodes := (inodes s)(next_inode s := \<lparr>i_data = Garbage Bad_Syntax, i_synced = False\<rparr>),
       next_inode := Suc (next_inode s)\<rparr>)"

definition write_file :: "string \<Rightarrow> content \<Rightarrow> fs \<Rightarrow> fs" where
  "write_file n c s = (case entry s n of None \<Rightarrow> s
     | Some i \<Rightarrow> s\<lparr>inodes := (inodes s)(i := \<lparr>i_data = c, i_synced = False\<rparr>)\<rparr>)"

definition fsync_file :: "string \<Rightarrow> fs \<Rightarrow> fs" where
  "fsync_file n s = (case entry s n of None \<Rightarrow> s
     | Some i \<Rightarrow> s\<lparr>inodes := (inodes s)(i := (inodes s i)\<lparr>i_synced := True\<rparr>)\<rparr>)"

definition rename_file :: "string \<Rightarrow> string \<Rightarrow> fs \<Rightarrow> fs" where
  "rename_file n m s = set_entry n None (set_entry m (entry s n) s)"

definition fsync_dir :: "fs \<Rightarrow> fs" where
  "fsync_dir s = s\<lparr>on_disk := (\<lambda>n. [entry s n])\<rparr>"

definition unlink_file :: "string \<Rightarrow> fs \<Rightarrow> fs" where
  "unlink_file n s = set_entry n None s"

text \<open>What a process reads, and whether \<open>c\<close> (\<open>None\<close>: no file) may be what a power loss leaves.\<close>

definition contents :: "string \<Rightarrow> fs \<Rightarrow> content option" where
  "contents n s = map_option (\<lambda>i. i_data (inodes s i)) (entry s n)"

definition crash_leaves :: "string \<Rightarrow> fs \<Rightarrow> content option \<Rightarrow> bool" where
  "crash_leaves n s c \<longleftrightarrow>
     (\<exists>e \<in> set (on_disk s n).
        (case e of None \<Rightarrow> c = None
         | Some i \<Rightarrow> (if i_synced (inodes s i) then c = Some (i_data (inodes s i)) else c \<noteq> None)))"

section \<open>StateFile.save\<close>

text \<open>
  One constructor per system call of \<open>save\<close>.  A call either succeeds or raises \<open>OSError\<close>, as
  \<open>sv_fails\<close> says; \<open>sv_seen\<close> records the file system after every call, so a theorem can speak of
  a power loss at any moment of the save.
\<close>

datatype save_step =
  Mkdir | Mkstemp | WriteTemp | FsyncTemp | Replace | OpenDir | FsyncDir | CloseDir | UnlinkTemp

record save_env =
  sv_fs :: fs
  sv_seen :: "fs list"
  sv_fails :: "save_step \<Rightarrow> bool"

definition fs_step :: "(fs \<Rightarrow> fs) \<Rightarrow> save_env \<Rightarrow> save_env" where
  "fs_step h s = s\<lparr>sv_fs := h (sv_fs s), sv_seen := sv_seen s @ [h (sv_fs s)]\<rparr>"

text \<open>A system call: effect \<open>f\<close> when it succeeds, \<open>g\<close> when it fails half-way.\<close>

definition syscall :: "save_step \<Rightarrow> (fs \<Rightarrow> fs) \<Rightarrow> (fs \<Rightarrow> fs) \<Rightarrow> (save_env, unit) act" where
  "syscall st f g = (\<lambda>s. if sv_fails s st then (Inl OSError, fs_step g s) else (Inr (), fs_step f s))"

definition ignoring_OSError :: "('s, unit) act \<Rightarrow> ('s, unit) act" where
  "ignoring_OSError m = catching m (\<lambda>e. if is_OSError e then ret () else raise e)"

definition temp_name :: "string \<Rightarrow> string \<Rightarrow> string" where
  "temp_name target rnd = target @ ''.'' @ rnd @ ''.tmp''"

lemma temp_name_neq [simp]: "temp_name target rnd \<noteq> target"
  by (simp add: temp_name_def)

text \<open>The directory fsync after the rename: failures to open or to sync are accepted.\<close>

definition sync_parent_dir :: "(save_env, unit) act" where
  "sync_parent_dir =
     andthen (catching (andthen (syscall OpenDir id id) (\<lambda>_. ret True))
        (\<lambda>e. if is_OSError e then ret False else raise e)) (\<lambda>opened.
     if \<not> opened then ret ()
     else andthen (ignoring_OSError (syscall FsyncDir fsync_dir id)) (\<lambda>_.
          syscall CloseDir id id))"

definition state_file_save :: "string \<Rightarrow> string \<Rightarrow> PersistedState \<Rightarrow> (save_env, unit) act" where
  "state_file_save target rnd p =
     (let tmp = temp_name target rnd in
      andthen (syscall Mkdir id id) (\<lambda>_.
      andthen (syscall Mkstemp (create_file tmp) id) (\<lambda>_.
      catching
        (andthen (syscall WriteTemp (write_file tmp (Doc (asdict_state p))) (write_file tmp (Garbage Bad_Syntax))) (\<lambda>_.
         andthen (syscall FsyncTemp (fsync_file tmp) id) (\<lambda>_.
         andthen (syscall Replace (rename_file tmp target) id) (\<lambda>_.
         sync_parent_dir))))
        (\<lambda>e. andthen (ignoring_OSError (syscall UnlinkTemp (unlink_file tmp) id)) (\<lambda>_. raise e)))))"

section \<open>StateFile.load\<close>

text \<open>
  What stands between a process and a file: nothing, a \<open>stat\<close> failing with one of the errors \<open>Path.exists\<close> takes for
  absence (\<open>ENOENT\<close>, \<open>ENOTDIR\<close>, \<open>EBADF\<close>, \<open>ELOOP\<close>), a \<open>stat\<close> failing with any other, which it raises, or an \<open>open\<close> or a read
  that fails.
\<close>

datatype access = Accessible | Stat_Ignored | Stat_Fails | Read_Fails

definition path_exists :: "access \<Rightarrow> content option \<Rightarrow> exc + bool" where
  "path_exists acc found =
     (case acc of
        Stat_Fails \<Rightarrow> Inl OSError
      | Stat_Ignored \<Rightarrow> Inr False
      | _ \<Rightarrow> Inr (found \<noteq> None))"

definition read_document :: "access \<Rightarrow> content option \<Rightarrow> exc + json" where
  "read_document acc found =
     (if acc \<noteq> Accessible then Inl OSError
      else case found of
        None \<Rightarrow> Inl FileNotFoundError
      | Some (Garbage g) \<Rightarrow> Inl (parse_error g)
      | Some (Doc j) \<Rightarrow> Inr j)"

definition state_file_load :: "string \<Rightarrow> access \<Rightarrow> fs \<Rightarrow> exc + PersistedState" where
  "state_file_load target acc s =
     (case path_exists acc (contents target s) of
        Inl e \<Rightarrow> Inl e
      | Inr there \<Rightarrow>
          if \<not> there then Inr zero_state
          else case (case read_document acc (contents target s) of Inl e \<Rightarrow> Inl e | Inr j \<Rightarrow> decode_state j) of
             Inl e \<Rightarrow> (if load_catches e then Inr zero_state else Inl e)
           | Inr p \<Rightarrow> Inr p)"

section \<open>Crash atomicity\<close>

text \<open>
  \<open>durable_in target A s\<close>: every entry a power loss may leave for \<open>target\<close> is absent with \<open>None \<in> A\<close>,
  or points to a synced inode whose contents are in \<open>A\<close>.
\<close>

definition durable_in :: "string \<Rightarrow> content option set \<Rightarrow> fs \<Rightarrow> bool" where
  "durable_in target A s \<longleftrightarrow> entry s target \<in> set (on_disk s target) \<and>
     (\<forall>e \<in> set (on_disk s target). case e of None \<Rightarrow> None \<in> A
        | Some i \<Rightarrow> i < next_inode s \<and> i_synced (inodes s i) \<and> Some (i_data (inodes s i)) \<in> A)"

lemma durable_in_crash: "durable_in target A s \<Longrightarrow> crash_leaves target s c \<Longrightarrow> c \<in> A"
  by (auto simp: durable_in_def crash_leaves_def split: option.splits if_splits)

lemma durable_in_mono: "durable_in target A s \<Longrightarrow> A \<subseteq> B \<Longrightarrow> durable_in target B s"
  unfolding durable_in_def by (fastforce split: option.splits)

text \<open>The temporary file's inode: fresh, and no entry of the target may point to it.\<close>

definition temp_inode :: "string \<Rightarrow> string \<Rightarrow> nat \<Rightarrow> fs \<Rightarrow> bool" where
  "temp_inode target tmp t s \<longleftrightarrow>
     entry s tmp = Some t \<and> Some t \<notin> set (on_disk s target) \<and> t < next_inode s"

definition temp_ready :: "content \<Rightarrow> nat \<Rightarrow> fs \<Rightarrow> bool" where
  "temp_ready c t s \<longleftrightarrow> i_synced (inodes s t) \<and> i_data (inodes s t) = c"

lemma create_file_durable:
  assumes "durable_in target A s" and "tmp \<noteq> target"
  shows "durable_in target A (create_file tmp s)"
    and "temp_inode target tmp (next_inode s) (create_file tmp s)"
  using assms
  by (auto simp: durable_in_def temp_inode_def create_file_def set_entry_def split: option.splits)

lemma write_file_durable:
  assumes "durable_in target A s" and "temp_inode target tmp t s"
  shows "durable_in target A (write_file tmp c s)" and "temp_inode target tmp t (write_file tmp c s)"
    and "i_data (inodes (write_file tmp c s) t) = c"
  using assms
  by (auto simp: durable_in_def temp_inode_def write_file_def split: option.splits)

lemma fsync_file_durable:
  assumes "durable_in target A s" and "temp_inode target tmp t s"
  shows "durable_in target A (fsync_file tmp s)" and "temp_inode target tmp t (fsync_file tmp s)"
    and "i_data (inodes s t) = c \<Longrightarrow> temp_ready c t (fsync_file tmp s)"
  using assms
  by (auto simp: durable_in_def temp_inode_def temp_ready_def fsync_file_def split: option.splits)

lemma rename_file_durable:
  assumes "durable_in target A s" and "temp_inode target tmp t s" and "temp_ready c t s"
    and "tmp \<noteq> target"
  shows "durable_in target (insert (Some c) A) (rename_file tmp target s)"
    and "contents target (rename_file tmp target s) = Some c"
  using assms
  by (auto simp: durable_in_def temp_inode_def temp_ready_def rename_file_def set_entry_def
      contents_def split: option.splits)

lemma fsync_dir_durable: "durable_in target A s \<Longrightarrow> durable_in target A (fsync_dir s)"
  by (cases "entry s target") (fastforce simp: durable_in_def fsync_dir_def)+

lemma unlink_file_durable:
  "durable_in target A s \<Longrightarrow> tmp \<noteq> target \<Longrightarrow> durable_in target A (unlink_file tmp s)"
  by (auto simp: durable_in_def unlink_file_def set_entry_def split: option.splits)

lemma contents_frame:
  "contents target (fsync_dir s) = contents target s"
  "tmp \<noteq> target \<Longrightarrow> contents target (unlink_file tmp s) = contents target s"
  by (simp_all add: contents_def fsync_dir_def unlink_file_def set_entry_def)

text \<open>
  The states of a running save: everything seen so far is durable in \<open>B\<close>, and \<open>R\<close> holds of the
  file system now.
\<close>

definition saving :: "string \<Rightarrow> content option set \<Rightarrow> (fs \<Rightarrow> bool) \<Rightarrow> save_env \<Rightarrow> bool" where
  "saving target B R s \<longleftrightarrow> (\<forall>f \<in> set (sv_seen s). durable_in target B f) \<and> R (sv_fs s)"

lemma triple_syscall:
  assumes f: "\<And>x. R x \<Longrightarrow> durable_in target B (f x) \<and> Rf (f x)"
    and g: "\<And>x. R x \<Longrightarrow> durable_in target B (g x) \<and> Rg (g x)"
  shows "triple (saving target B R) (syscall st f g) (\<lambda>_. saving target B Rf)
           (\<lambda>e s. is_OSError e \<and> saving target B Rg s)"
  using f g by (intro tripleI) (auto simp: syscall_def saving_def fs_step_def split: if_splits)

lemma triple_ignoring_OSError:
  assumes "triple P m (\<lambda>_. Q) (\<lambda>e s. is_OSError e \<and> Q s)"
  shows "triple P (ignoring_OSError m) (\<lambda>_. Q) E"
  unfolding ignoring_OSError_def
  by (rule triple_catching [OF assms]) (auto simp: triple_def ret_def)

definition renamed :: "string \<Rightarrow> content option set \<Rightarrow> content \<Rightarrow> fs \<Rightarrow> bool" where
  "renamed target B c x \<longleftrightarrow> durable_in target B x \<and> contents target x = Some c"

lemma sync_parent_dir_triple:
  "triple (saving target B (renamed target B c)) sync_parent_dir
     (\<lambda>_. saving target B (renamed target B c)) (\<lambda>e s. is_OSError e \<and> saving target B (renamed target B c) s)"
proof -
  let ?S = "saving target B (renamed target B c)"
  have id: "triple ?S (syscall st id id) (\<lambda>_. ?S) (\<lambda>e s. is_OSError e \<and> ?S s)" for st
    by (rule triple_syscall) (auto simp: renamed_def)
  have dir: "triple ?S (ignoring_OSError (syscall FsyncDir fsync_dir id)) (\<lambda>_. ?S) E" for E
    by (intro triple_ignoring_OSError triple_syscall)
      (auto simp: renamed_def fsync_dir_durable contents_frame)
  have opened: "triple ?S (catching (andthen (syscall OpenDir id id) (\<lambda>_. ret True))
      (\<lambda>e. if is_OSError e then ret False else raise e)) (\<lambda>_. ?S) (\<lambda>e s. is_OSError e \<and> ?S s)"
    by (rule triple_catching [OF triple_andthen [OF id]]) (auto simp: triple_def act_simps)
  have close: "triple ?S (andthen (ignoring_OSError (syscall FsyncDir fsync_dir id))
      (\<lambda>_. syscall CloseDir id id)) (\<lambda>_. ?S) (\<lambda>e s. is_OSError e \<and> ?S s)"
    by (rule triple_andthen [OF dir id])
  show ?thesis
    unfolding sync_parent_dir_def
    by (rule triple_andthen [OF opened], rule triple_if) (simp add: triple_def ret_def, rule close)
qed

lemma state_file_save_triple:
  fixes p :: PersistedState and A :: "content option set"
  defines "B \<equiv> insert (Some (Doc (asdict_state p))) A"
  shows "triple (saving target B (durable_in target A)) (state_file_save target rnd p)
    (\<lambda>_. saving target B (renamed target B (Doc (asdict_state p))))
    (\<lambda>e s. is_OSError e \<and> saving target B (durable_in target B) s)"
proof -
  define tmp where "tmp = temp_name target rnd"
  have neq: "tmp \<noteq> target" by (simp add: tmp_def)
  let ?c = "Doc (asdict_state p)"
  let ?E = "\<lambda>e s. is_OSError e \<and> saving target B (durable_in target B) s"
  let ?T = "\<lambda>R x. \<exists>t. durable_in target A x \<and> temp_inode target tmp t x \<and> R t x"
  have AB: "durable_in target A x \<Longrightarrow> durable_in target B x" for x
    by (rule durable_in_mono) (auto simp: B_def)
  have mkdir: "triple (saving target B (durable_in target A)) (syscall Mkdir id id)
      (\<lambda>_. saving target B (durable_in target A)) ?E"
    by (rule triple_syscall) (auto simp: AB)
  have mkstemp: "triple (saving target B (durable_in target A)) (syscall Mkstemp (create_file tmp) id)
      (\<lambda>_. saving target B (?T (\<lambda>_ _. True))) ?E"
  proof (rule triple_syscall)
    fix x assume x: "durable_in target A x"
    show "durable_in target B (create_file tmp x) \<and> ?T (\<lambda>_ _. True) (create_file tmp x)"
      using create_file_durable [OF x neq] AB by auto
  qed (simp add: AB)
  have written: "triple (saving target B (?T (\<lambda>_ _. True)))
      (syscall WriteTemp (write_file tmp ?c) (write_file tmp (Garbage Bad_Syntax)))
      (\<lambda>_. saving target B (?T (\<lambda>t x. i_data (inodes x t) = ?c))) ?E"
    by (rule triple_syscall) (auto intro: AB write_file_durable)
  have fsync: "triple (saving target B (?T (\<lambda>t x. i_data (inodes x t) = ?c)))
      (syscall FsyncTemp (fsync_file tmp) id) (\<lambda>_. saving target B (?T (temp_ready ?c))) ?E"
    by (rule triple_syscall) (auto intro: AB fsync_file_durable)
  have replace: "triple (saving target B (?T (temp_ready ?c))) (syscall Replace (rename_file tmp target) id)
      (\<lambda>_. saving target B (renamed target B ?c)) ?E"
    by (rule triple_syscall) (auto simp: renamed_def B_def neq intro: AB [unfolded B_def] rename_file_durable)
  have sync: "triple (saving target B (renamed target B ?c)) sync_parent_dir
      (\<lambda>_. saving target B (renamed target B ?c)) ?E"
    by (rule triple_weaken [OF sync_parent_dir_triple]) (auto simp: saving_def renamed_def)
  have unlink: "triple (?E e) (andthen (ignoring_OSError (syscall UnlinkTemp (unlink_file tmp) id))
      (\<lambda>_. raise e)) (\<lambda>_. saving target B (renamed target B ?c)) ?E" for e
  proof (cases "is_OSError e")
    case True
    have "triple (saving target B (durable_in target B))
        (ignoring_OSError (syscall UnlinkTemp (unlink_file tmp) id))
        (\<lambda>_. saving target B (durable_in target B)) ?E"
      by (intro triple_ignoring_OSError triple_syscall) (auto simp: unlink_file_durable neq)
    then have "triple (saving target B (durable_in target B))
        (andthen (ignoring_OSError (syscall UnlinkTemp (unlink_file tmp) id)) (\<lambda>_. raise e))
        (\<lambda>_. saving target B (renamed target B ?c)) ?E"
      by (rule triple_andthen) (use True in \<open>simp add: triple_def raise_def\<close>)
    then show ?thesis by (rule triple_pre) simp
  next
    case False
    then show ?thesis by (simp add: triple_def)
  qed
  show ?thesis
    unfolding state_file_save_def Let_def tmp_def [symmetric]
    by (rule triple_andthen [OF mkdir], rule triple_andthen [OF mkstemp], rule triple_catching [OF _ unlink])
      (rule triple_andthen [OF written], rule triple_andthen [OF fsync], rule triple_andthen [OF replace],
       rule sync)
qed

section \<open>The storage contract\<close>

text \<open>
  What a client of \<open>StateFile\<close> relies on: a successful save is what the next load returns, and a
  failed one leaves either the previous state or the new one, never anything else.
\<close>

locale state_storage =
  fixes save :: "PersistedState \<Rightarrow> ('f, unit) act"
    and load :: "'f \<Rightarrow> exc + PersistedState"
    and ok :: "'f \<Rightarrow> bool"
  assumes save_load: "ok f \<Longrightarrow> save p f = (Inr (), f') \<Longrightarrow> load f' = Inr p"
    and save_fails: "ok f \<Longrightarrow> save p f = (Inl e, f') \<Longrightarrow> is_OSError e"
    and ok_save: "ok f \<Longrightarrow> ok (snd (save p f))"
begin

text \<open>\<open>RegisterStore._save_blocking\<close> over this contract: an \<open>OSError\<close> is logged and dropped.\<close>

lemma save_never_raises:
  "ok f \<Longrightarrow> fst (catching (save p) (\<lambda>e. if is_OSError e then ret () else raise e) f) = Inr ()"
  by (cases "save p" f rule: act_cases) (auto simp: catching_def act_simps dest: save_fails)

end

definition ok_env :: "string \<Rightarrow> save_env \<Rightarrow> bool" where
  "ok_env target = saving target UNIV (durable_in target UNIV)"

lemma state_file_save_ok:
  "triple (ok_env target) (state_file_save target rnd p)
     (\<lambda>_ s. ok_env target s \<and> contents target (sv_fs s) = Some (Doc (asdict_state p)))
     (\<lambda>e s. ok_env target s \<and> is_OSError e)"
proof -
  have "insert (Some (Doc (asdict_state p))) UNIV = (UNIV :: content option set)" by auto
  from state_file_save_triple [where A = UNIV and p = p and target = target and rnd = rnd, unfolded this]
  show ?thesis
    unfolding ok_env_def by (rule triple_weaken) (auto simp: saving_def renamed_def)
qed

lemma load_contents:
  "contents target s = Some (Doc (asdict_state p)) \<Longrightarrow> state_file_load target Accessible s = Inr p"
  by (simp add: state_file_load_def read_document_def path_exists_def)

interpretation state_disk: state_storage "state_file_save target rnd"
  "\<lambda>s. state_file_load target Accessible (sv_fs s)" "ok_env target" for target rnd
proof unfold_locales
  fix f f' p assume "ok_env target f" and "state_file_save target rnd p f = (Inr (), f')"
  from triple_returnD [OF state_file_save_ok this]
  show "state_file_load target Accessible (sv_fs f') = Inr p" by (simp add: load_contents)
next
  fix f f' p e assume "ok_env target f" and "state_file_save target rnd p f = (Inl e, f')"
  from triple_raiseD [OF state_file_save_ok this] show "is_OSError e" by simp
next
  fix f p assume "ok_env target f"
  with state_file_save_ok [of target rnd p] show "ok_env target (snd (state_file_save target rnd p f))"
    by (cases "state_file_save target rnd p" f rule: act_cases)
      (auto dest: triple_returnD triple_raiseD)
qed

section \<open>Properties\<close>

lemma keeps_syscall [hoare]: "keeps (\<lambda>s. sv_fails s = F) (syscall st f g)"
  by (rule keepsI) (simp add: syscall_def fs_step_def)

lemma sync_parent_dir_flushes:
  assumes "\<not> F OpenDir" and "\<not> F FsyncDir"
  shows "triple (\<lambda>s. sv_fails s = F) sync_parent_dir
     (\<lambda>_ s. on_disk (sv_fs s) target = [entry (sv_fs s) target]) (\<lambda>_ _. True)"
  using assms
  by (intro tripleI)
    (auto simp: sync_parent_dir_def ignoring_OSError_def syscall_def fs_step_def fsync_dir_def
       act_simps split: if_splits)

lemma state_file_save_flushes:
  assumes "\<not> F OpenDir" and "\<not> F FsyncDir"
  shows "triple (\<lambda>s. sv_fails s = F) (state_file_save target rnd p)
     (\<lambda>_ s. on_disk (sv_fs s) target = [entry (sv_fs s) target]) (\<lambda>_ _. True)"
proof -
  have call: "triple (\<lambda>s. sv_fails s = F) (syscall st f g) (\<lambda>_ s. sv_fails s = F) (\<lambda>_ _. True)" for st f g
    by (rule triple_weaken [OF keeps_syscall [unfolded keeps_def]]) auto
  have handler: "triple (\<lambda>_. True) (andthen m (\<lambda>_. raise e)) Q (\<lambda>_ _. True)"
    for m :: "(save_env, unit) act" and e and Q :: "unit \<Rightarrow> save_env \<Rightarrow> bool"
    by (rule triple_andthen [where R = "\<lambda>_ _. True"]) (auto simp: triple_def raise_def split: sum.split)
  show ?thesis
    unfolding state_file_save_def Let_def
    by (rule triple_andthen [OF call], rule triple_andthen [OF call], rule triple_catching [OF _ handler])
      (rule triple_andthen [OF call], rule triple_andthen [OF call], rule triple_andthen [OF call],
       rule sync_parent_dir_flushes [OF assms])
qed

definition empty_fs :: fs where
  "empty_fs = \<lparr>inodes = (\<lambda>_. \<lparr>i_data = Garbage Bad_Syntax, i_synced = False\<rparr>), next_inode = 0,
     entry = (\<lambda>_. None), on_disk = (\<lambda>_. [None])\<rparr>"

definition fresh_env :: "(save_step \<Rightarrow> bool) \<Rightarrow> save_env" where
  "fresh_env F = \<lparr>sv_fs = empty_fs, sv_seen = [], sv_fails = F\<rparr>"

lemma durable_empty [simp]: "durable_in target {None} empty_fs"
  by (simp add: durable_in_def empty_fs_def)

lemmas save_eval = state_file_save_def sync_parent_dir_def ignoring_OSError_def syscall_def fs_step_def
  create_file_def write_file_def fsync_file_def rename_file_def fsync_dir_def unlink_file_def set_entry_def
  temp_name_def fresh_env_def empty_fs_def Let_def act_simps

lemma saving_start: "durable_in target A (sv_fs s) \<Longrightarrow> sv_seen s = [] \<Longrightarrow> saving target B (durable_in target A) s"
  by (simp add: saving_def)

text \<open>
  C5: saving the state file is atomic under power loss.  If the file durably holds \<open>old\<close> when
  \<open>StateFile.save\<close> starts, then whatever system call of the save the power fails after, and whichever
  of them raised \<open>OSError\<close>, what is left under the file's name is the old document or the new one
  in full, never a partial one.
\<close>

theorem save_crash_atomic:
  assumes "durable_in target {old} (sv_fs s)" and "sv_seen s = []"
    and "f \<in> set (sv_seen (snd (state_file_save target rnd p s)))" and "crash_leaves target f c"
  shows "c = old \<or> c = Some (Doc (asdict_state p))"
proof -
  let ?B = "{Some (Doc (asdict_state p)), old}"
  have "saving target ?B (\<lambda>_. True) (snd (state_file_save target rnd p s))"
    by (rule triple_snd [OF triple_weaken [OF state_file_save_triple] saving_start [OF assms(1,2)]])
      (auto simp: saving_def)
  with assms(3) have "durable_in target ?B f" by (simp add: saving_def)
  from durable_in_crash [OF this assms(4)] show ?thesis by auto
qed

lemma save_crash_atomic_witness:
  "crash_leaves ''state.json'' (sv_seen (snd (state_file_save ''state.json'' ''x1'' zero_state (fresh_env (\<lambda>_. False)))) ! 4) None \<and>
   (None = (None :: content option) \<or> None = Some (Doc (asdict_state zero_state)))"
proof -
  let ?s = "fresh_env (\<lambda>_. False)"
  let ?l = "sv_seen (snd (state_file_save ''state.json'' ''x1'' zero_state ?s))"
  have d: "durable_in ''state.json'' {None} (sv_fs ?s)" by (simp add: fresh_env_def)
  have n: "sv_seen ?s = []" by (simp add: fresh_env_def)
  have f: "?l ! 4 \<in> set ?l" by (simp add: save_eval)
  have c: "crash_leaves ''state.json'' (?l ! 4) None" by (simp add: save_eval crash_leaves_def)
  from save_crash_atomic [OF d n f c] c show ?thesis by blast
qed

text \<open>
  C23: a save that returns normally is what the next load reads back, field by field, whatever the
  file held before; and once the directory could be opened and fsynced it also survives a power
  loss.
\<close>

theorem save_load_roundtrip:
  assumes "ok_env target s" and "state_file_save target rnd p s = (Inr (), s')"
  shows "state_file_load target Accessible (sv_fs s') = Inr p \<and>
    (\<not> sv_fails s OpenDir \<longrightarrow> \<not> sv_fails s FsyncDir \<longrightarrow> crash_leaves target (sv_fs s') c \<longrightarrow>
       c = Some (Doc (asdict_state p)))"
proof -
  from triple_returnD [OF state_file_save_ok assms]
  have c: "contents target (sv_fs s') = Some (Doc (asdict_state p))"
    and d: "durable_in target UNIV (sv_fs s')" by (auto simp: ok_env_def saving_def)
  have "c = Some (Doc (asdict_state p))"
    if "\<not> sv_fails s OpenDir" "\<not> sv_fails s FsyncDir" "crash_leaves target (sv_fs s') c"
  proof -
    from triple_returnD [OF state_file_save_flushes [OF that(1,2)] refl assms(2)]
    have "on_disk (sv_fs s') target = [entry (sv_fs s') target]" .
    with that(3) c d show ?thesis
      by (auto simp: crash_leaves_def contents_def durable_in_def split: option.splits if_splits)
  qed
  moreover from c have "state_file_load target Accessible (sv_fs s') = Inr p" by (rule load_contents)
  ultimately show ?thesis by blast
qed

lemma save_load_roundtrip_witness:
  "\<exists>s'. state_file_save ''state.json'' ''x1'' (zero_state\<lparr>ps_transfer_count_lifetime := 7\<rparr>) (fresh_env (\<lambda>_. False)) = (Inr (), s') \<and>
     state_file_load ''state.json'' Accessible (sv_fs s') = Inr (zero_state\<lparr>ps_transfer_count_lifetime := 7\<rparr>)"
proof -
  let ?p = "zero_state\<lparr>ps_transfer_count_lifetime := 7\<rparr>"
  let ?r = "state_file_save ''state.json'' ''x1'' ?p (fresh_env (\<lambda>_. False))"
  have ok: "ok_env ''state.json'' (fresh_env (\<lambda>_. False))"
    by (simp add: ok_env_def saving_def fresh_env_def durable_in_def empty_fs_def)
  have r: "?r = (Inr (), snd ?r)" by (simp add: save_eval)
  from save_load_roundtrip [OF ok r] r show ?thesis by blast
qed

lemma py_int_errors: "py_int j = Inl e \<Longrightarrow> e \<in> {ValueError, TypeError, OverflowError}"
  by (cases j rule: py_int.cases) (auto simp: py_int_of_string_def split: option.splits list.splits if_splits)

lemma py_int_overflow: "py_int j = Inl OverflowError \<longleftrightarrow> (\<exists>b. j = JFloat (Infinite b))"
  by (cases j rule: py_int.cases) (auto simp: py_int_of_string_def split: option.split list.split)

text \<open>A list is converted until the first element that fails.\<close>

lemma py_ints_append:
  "py_ints (xs @ ys) = (case py_ints xs of Inl e \<Rightarrow> Inl e
     | Inr ns \<Rightarrow> (case py_ints ys of Inl e \<Rightarrow> Inl e | Inr ms \<Rightarrow> Inr (ns @ ms)))"
  by (induction xs) (auto split: sum.split)

lemma py_ints_error:
  "py_ints xs = Inl e \<longleftrightarrow>
     (\<exists>pre x post. xs = pre @ x # post \<and> (\<forall>y\<in>set pre. \<exists>n. py_int y = Inr n) \<and> py_int x = Inl e)"
proof (induction xs)
  case (Cons y ys)
  have "(\<exists>pre x post. y # ys = pre @ x # post \<and> (\<forall>y\<in>set pre. \<exists>n. py_int y = Inr n) \<and> py_int x = Inl e) \<longleftrightarrow>
      py_int y = Inl e \<or>
      (\<exists>n. py_int y = Inr n) \<and> (\<exists>pre x post. ys = pre @ x # post \<and> (\<forall>y\<in>set pre. \<exists>n. py_int y = Inr n) \<and> py_int x = Inl e)"
    (is "?l \<longleftrightarrow> _ \<or> _ \<and> ?tail")
  proof
    assume ?l
    then obtain pre x post where split: "y # ys = pre @ x # post" "\<forall>y\<in>set pre. \<exists>n. py_int y = Inr n" "py_int x = Inl e" by blast
    then show "py_int y = Inl e \<or> (\<exists>n. py_int y = Inr n) \<and> ?tail" by (cases pre) auto
  next
    assume "py_int y = Inl e \<or> (\<exists>n. py_int y = Inr n) \<and> ?tail"
    then show ?l
    proof
      assume "py_int y = Inl e"
      then show ?l by (intro exI [of _ "[]"] exI [of _ y] exI [of _ ys]) simp
    next
      assume "(\<exists>n. py_int y = Inr n) \<and> ?tail"
      then obtain n pre x post where "py_int y = Inr n" "ys = pre @ x # post" "\<forall>y\<in>set pre. \<exists>n. py_int y = Inr n" "py_int x = Inl e"
        by blast
      then show ?l by (intro exI [of _ "y # pre"] exI [of _ x] exI [of _ post]) simp
    qed
  qed
  then show ?case unfolding Cons.IH [symmetric] by (cases "py_int y") (auto split: sum.split)
qed simp

text \<open>The values \<open>load\<close> converts of an object, in its order; its result is the first conversion's error, if there is one.\<close>

definition fields_read :: "(string \<times> json) list \<Rightarrow> json list" where
  "fields_read kvs =
     (case get_default kvs ''recent_transfer_wallclocks'' JNull of JArr xs \<Rightarrow> xs | _ \<Rightarrow> []) @
     [get_default kvs ''transfer_count_lifetime'' (JInt 0), get_default kvs ''last_transfer_to_gen_ts'' (JInt 0),
      get_default kvs ''last_retransfer_to_util_ts'' (JInt 0)]"

lemma wallclock_elements:
  "(case (if truthy raw then raw else JArr []) of JArr xs \<Rightarrow> xs | _ \<Rightarrow> []) = (case raw of JArr xs \<Rightarrow> xs | _ \<Rightarrow> [])"
  by (cases raw rule: truthy.cases) auto

lemma decode_object_error: "decode_state (JObj kvs) = Inl e \<longleftrightarrow> py_ints (fields_read kvs) = Inl e"
  unfolding fields_read_def py_ints_append decode_state.simps Let_def wallclock_elements
  by (auto split: sum.split)

definition overflows :: "(string \<times> json) list \<Rightarrow> bool" where
  "overflows kvs \<longleftrightarrow> (\<exists>pre b post. fields_read kvs = pre @ JFloat (Infinite b) # post \<and> (\<forall>x\<in>set pre. \<exists>n. py_int x = Inr n))"

lemma decode_object_overflow: "decode_state (JObj kvs) = Inl OverflowError \<longleftrightarrow> overflows kvs"
  unfolding decode_object_error py_ints_error py_int_overflow overflows_def by blast

lemma decode_escapes:
  "(decode_state j = Inl e \<and> \<not> load_catches e) \<longleftrightarrow>
     (\<forall>kvs. j \<noteq> JObj kvs) \<and> e = AttributeError \<or> (\<exists>kvs. j = JObj kvs \<and> overflows kvs \<and> e = OverflowError)"
proof (cases "\<exists>kvs. j = JObj kvs")
  case True
  then obtain kvs where j: "j = JObj kvs" ..
  have "e \<in> {ValueError, TypeError, OverflowError}" if "decode_state j = Inl e"
    using that py_int_errors unfolding j decode_object_error py_ints_error by blast
  then have "(decode_state j = Inl e \<and> \<not> load_catches e) \<longleftrightarrow> (decode_state j = Inl OverflowError \<and> e = OverflowError)"
    by (auto simp: load_catches_def)
  moreover have "decode_state j = Inl OverflowError \<longleftrightarrow> overflows kvs" unfolding j by (rule decode_object_overflow)
  ultimately show ?thesis using j by simp
next
  case False
  then show ?thesis by (cases j) (auto simp: load_catches_def)
qed

text \<open>
  C30: what \<open>StateFile.load\<close> tolerates, exactly.  It raises in four cases and no other: a \<open>stat\<close> that fails other than by absence
  (\<open>OSError\<close>: the existence test is outside the \<open>try\<close>); and, of a file that can be read, nesting beyond the recursion limit
  (\<open>RecursionError\<close>), a JSON root that is not an object (\<open>AttributeError\<close>), and an infinite float in the first field \<open>int()\<close>
  rejects (\<open>OverflowError\<close>) -- exceptions the \<open>except\<close> clause does not name.  When it returns, it returns the
  fields of the document, or zeros.
\<close>

theorem load_raises_only:
  "(state_file_load target acc s = Inl e \<longleftrightarrow>
     acc = Stat_Fails \<and> e = OSError \<or>
     acc = Accessible \<and> contents target s = Some (Garbage Too_Deep) \<and> e = RecursionError \<or>
     acc = Accessible \<and> (\<exists>j. contents target s = Some (Doc j) \<and>
       ((\<forall>kvs. j \<noteq> JObj kvs) \<and> e = AttributeError \<or> (\<exists>kvs. j = JObj kvs \<and> overflows kvs \<and> e = OverflowError)))) \<and>
   (state_file_load target acc s = Inr p \<longrightarrow>
     p = zero_state \<or> acc = Accessible \<and> (\<exists>j. contents target s = Some (Doc j) \<and> decode_state j = Inr p))"
proof (cases "acc = Accessible \<and> (\<exists>j. contents target s = Some (Doc j))")
  case True
  then obtain j where acc: "acc = Accessible" and c: "contents target s = Some (Doc j)" by blast
  have load: "state_file_load target acc s =
      (case decode_state j of Inl e \<Rightarrow> if load_catches e then Inr zero_state else Inl e | Inr p \<Rightarrow> Inr p)"
    by (simp add: state_file_load_def path_exists_def read_document_def acc c)
  then have "state_file_load target acc s = Inl e \<longleftrightarrow> decode_state j = Inl e \<and> \<not> load_catches e"
    and "state_file_load target acc s = Inr p \<Longrightarrow> p = zero_state \<or> decode_state j = Inr p"
    by (auto split: sum.splits if_splits)
  with acc c show ?thesis unfolding decode_escapes by auto
next
  case False
  have caught: "load_catches OSError" "load_catches FileNotFoundError" "load_catches JSONDecodeError"
      "load_catches UnicodeDecodeError" "load_catches ValueError" "\<not> load_catches RecursionError"
    by (simp_all add: load_catches_def)
  show ?thesis
  proof (cases acc)
    case Accessible
    then show ?thesis
    proof (cases "contents target s")
      case (Some c)
      with False Accessible obtain g where "c = Garbage g" by (cases c) auto
      with Some Accessible caught show ?thesis
        by (cases g) (auto simp: state_file_load_def path_exists_def read_document_def)
    qed (simp add: state_file_load_def path_exists_def)
  qed (auto simp: state_file_load_def path_exists_def read_document_def caught)
qed

text \<open>A file system whose \<open>state.json\<close> holds one given document.\<close>

definition fs_holding :: "content \<Rightarrow> fs" where
  "fs_holding c = (write_file ''state.json'' c (create_file ''state.json'' empty_fs))"

lemma contents_fs_holding: "contents ''state.json'' (fs_holding c) = Some c"
  by (simp add: fs_holding_def contents_def write_file_def create_file_def set_entry_def empty_fs_def)

text \<open>An infinite number, with an unreadable one behind it, and a file nested too deeply.\<close>

lemma load_raises_only_witness:
  "state_file_load ''state.json'' Accessible
     (fs_holding (Doc (JObj [(''recent_transfer_wallclocks'', JArr [JInt 5, JFloat (Infinite True), JNull])]))) = Inl OverflowError \<and>
   state_file_load ''state.json'' Accessible (fs_holding (Garbage Too_Deep)) = Inl RecursionError"
proof -
  let ?kvs = "[(''recent_transfer_wallclocks'', JArr [JInt 5, JFloat (Infinite True), JNull])]"
  have "fields_read ?kvs = [JInt 5] @ JFloat (Infinite True) # [JNull, JInt 0, JInt 0, JInt 0]"
    by (simp add: fields_read_def get_default_def)
  moreover have "\<forall>x\<in>set [JInt 5]. \<exists>n. py_int x = Inr n" by simp
  ultimately have "overflows ?kvs" unfolding overflows_def by blast
  then show ?thesis
    using load_raises_only [of "''state.json''" Accessible "fs_holding (Doc (JObj ?kvs))" OverflowError]
      load_raises_only [of "''state.json''" Accessible "fs_holding (Garbage Too_Deep)" RecursionError]
    by (simp add: contents_fs_holding)
qed

end
