(* ===== verification/Io_Driver.thy ===== *)
theory Io_Driver
  imports Prelude
begin

text \<open>
  \<open>src/src/atspi/io_driver.py\<close>: the fault bits, the two snapshots that cross the I/O boundary and the
  driver interface \<open>IODriver\<close>.  The interface is a locale: its \<open>fixes\<close> are the driver's methods (a
  coroutine is an action on the driver's state, raising or returning), its \<open>assumes\<close> the promises
  of the docstrings that the clients (sampling loop, command dispatch, safety watchdog) rely on.
  The mock, ADAM and hybrid drivers interpret it.  \<open>commanded\<close> is the driver's own record of what it
  last drove onto each command output.
\<close>

section \<open>Fault bits\<close>

definition FAULT_INPUT :: int where [simp]: "FAULT_INPUT = 0x0001"
definition FAULT_OUTPUT :: int where [simp]: "FAULT_OUTPUT = 0x0002"
definition FAULT_MODE_UNKNOWN :: int where [simp]: "FAULT_MODE_UNKNOWN = 0x0004"
definition FAULT_CALIBRATION :: int where [simp]: "FAULT_CALIBRATION = 0x0008"

section \<open>Snapshots\<close>

record InputSnapshot =
  in_position :: string
  in_normal_available :: bool
  in_emergency_available :: bool
  in_engine_start_calling :: bool
  in_ats_mode :: string
  in_fault_bits :: int

record OutputState =
  out_test_active :: bool
  out_inhibit_active :: bool
  out_force_transfer_active :: bool
  out_bypass_delay_active :: bool

section \<open>The driver interface\<close>

text \<open>
  \<open>IODriver\<close>: the methods of a driver, for a client that takes any.  (\<open>hw_watchdog_status\<close> is \<open>hw_watchdog_ok\<close> with a
  text for the log; each driver has its own.)
\<close>

record 's driver_ops =
  op_connect :: "('s, bool) act"
  op_close :: "('s, unit) act"
  op_read_inputs :: "('s, InputSnapshot) act"
  op_read_output_state :: "('s, OutputState) act"
  op_drive_outputs :: "int option \<Rightarrow> bool option \<Rightarrow> bool option \<Rightarrow> int option \<Rightarrow> ('s, unit) act"
  op_release_all_outputs :: "('s, unit) act"
  op_check_output_consistency :: "OutputState \<Rightarrow> 's \<Rightarrow> bool"
  op_hw_watchdog_ok :: "'s \<Rightarrow> bool"


datatype command_output = Test | Force_Transfer | Inhibit | Bypass_Delay

text \<open>Does a \<open>drive_outputs\<close> call assert an output?  (\<open>bool(None)\<close> is \<open>False\<close>.)\<close>

definition asserts_output :: "int option \<Rightarrow> bool option \<Rightarrow> bool option \<Rightarrow> int option \<Rightarrow> bool" where
  "asserts_output test_pulse_ms inhibit force_transfer bypass_delay_pulse_ms \<longleftrightarrow>
     test_pulse_ms \<noteq> None \<or> inhibit = Some True \<or> force_transfer = Some True \<or>
     bypass_delay_pulse_ms \<noteq> None"

text \<open>The output half: every driver has it.\<close>

locale output_driver =
  fixes read_output_state :: "('s, OutputState) act"
    and drive_outputs :: "int option \<Rightarrow> bool option \<Rightarrow> bool option \<Rightarrow> int option \<Rightarrow> ('s, unit) act"
    and release_all_outputs :: "('s, unit) act"
    and check_output_consistency :: "OutputState \<Rightarrow> 's \<Rightarrow> bool"
    and hw_watchdog_ok :: "'s \<Rightarrow> bool"
    and commanded :: "'s \<Rightarrow> command_output \<Rightarrow> bool option"
  assumes refuse_assert: "\<not> hw_watchdog_ok s \<Longrightarrow> asserts_output t i f b \<Longrightarrow>
      drive_outputs t i f b s = (Inl HwWatchdogNotArmedError, s)"
    and release_permitted: "\<not> asserts_output t i f b \<Longrightarrow>
      fst (drive_outputs t i f b s) \<noteq> Inl HwWatchdogNotArmedError"
    and release_all_permitted: "fst (release_all_outputs s) \<noteq> Inl HwWatchdogNotArmedError"
    and drive_inhibit: "drive_outputs t (Some v) f b s = (Inr (), s') \<Longrightarrow> commanded s' Inhibit = Some v"
    and drive_force: "drive_outputs t i (Some v) b s = (Inr (), s') \<Longrightarrow> commanded s' Force_Transfer = Some v"
    and drive_inhibit_frame: "commanded (snd (drive_outputs t None f b s)) Inhibit = commanded s Inhibit"
    and drive_force_frame:
      "commanded (snd (drive_outputs t i None b s)) Force_Transfer = commanded s Force_Transfer"
    and release_all: "release_all_outputs s = (Inr (), s') \<Longrightarrow> commanded s' out = Some False"
    and release_all_frame: "commanded (snd (release_all_outputs s)) out \<in> {commanded s out, Some False}"
    and read_outputs_frame: "commanded (snd (read_output_state s)) = commanded s"
begin

text \<open>The release the safety watchdog issues, when it returns.\<close>

lemma release_maintained:
  assumes "drive_outputs None (Some False) (Some False) None s = (Inr (), s')"
  shows "commanded s' Inhibit = Some False" "commanded s' Force_Transfer = Some False"
  using assms by (auto dest: drive_inhibit drive_force)

lemma release_not_refused:
  "fst (drive_outputs None (Some False) (Some False) None s) \<noteq> Inl HwWatchdogNotArmedError"
  by (rule release_permitted) (simp add: asserts_output_def)

lemma refusal_means_assert:
  "fst (drive_outputs t i f b s) = Inl HwWatchdogNotArmedError \<Longrightarrow> asserts_output t i f b"
  using release_permitted by blast

end

text \<open>The whole interface adds the input half and the connection; connecting, reading and closing command nothing.\<close>

locale io_driver =
  output_driver read_output_state drive_outputs release_all_outputs check_output_consistency
    hw_watchdog_ok commanded
  for read_output_state :: "('s, OutputState) act"
    and drive_outputs release_all_outputs check_output_consistency hw_watchdog_ok commanded +
  fixes read_inputs :: "('s, InputSnapshot) act"
    and connect :: "('s, bool) act"
    and close :: "('s, unit) act"
  assumes read_inputs_frame: "commanded (snd (read_inputs s)) = commanded s"
    and connect_frame: "commanded (snd (connect s)) = commanded s"
    and close_frame: "commanded (snd (close s)) = commanded s"
begin

abbreviation ops :: "'s driver_ops" where
  "ops \<equiv> \<lparr>op_connect = connect, op_close = close, op_read_inputs = read_inputs,
     op_read_output_state = read_output_state, op_drive_outputs = drive_outputs,
     op_release_all_outputs = release_all_outputs, op_check_output_consistency = check_output_consistency,
     op_hw_watchdog_ok = hw_watchdog_ok\<rparr>"

end

end
