(* ===== verification/Register_Store.thy ===== *)
theory Register_Store
  imports Persistence Io_Driver
begin

text \<open>
  \<open>src/src/atspi/state.py\<close>: the register store.  \<open>StateSnapshot\<close> is the frozen dataclass swapped
  under the lock, \<open>RegisterStore\<close> the object around it; every method is a function from the store to
  the new store (and its result).  The clocks a method reads are its arguments: \<open>now_wall\<close> is
  \<open>int(time.time())\<close>, \<open>now_mono\<close> is \<open>time.monotonic()\<close>.  The lock is not modelled: the methods are
  atomic, as they are on the single event loop.
\<close>

section \<open>Addresses and enumerations\<close>

definition ADDR_POSITION :: int where [simp]: "ADDR_POSITION = 0x0000"
definition ADDR_NORMAL_AVAIL :: int where [simp]: "ADDR_NORMAL_AVAIL = 0x0001"
definition ADDR_EMERGENCY_AVAIL :: int where [simp]: "ADDR_EMERGENCY_AVAIL = 0x0002"
definition ADDR_ENGINE_START_CALLING :: int where [simp]: "ADDR_ENGINE_START_CALLING = 0x0003"
definition ADDR_ATS_MODE :: int where [simp]: "ADDR_ATS_MODE = 0x0004"
definition ADDR_FAULT_SUMMARY :: int where [simp]: "ADDR_FAULT_SUMMARY = 0x0005"
definition ADDR_LAST_TRANSFER_TS :: int where [simp]: "ADDR_LAST_TRANSFER_TS = 0x0010"
definition ADDR_LAST_RETRANSFER_TS :: int where [simp]: "ADDR_LAST_RETRANSFER_TS = 0x0012"
definition ADDR_UPTIME_S :: int where [simp]: "ADDR_UPTIME_S = 0x0014"
definition ADDR_WALLCLOCK :: int where [simp]: "ADDR_WALLCLOCK = 0x0016"
definition ADDR_TRANSFER_COUNT_LIFETIME :: int where [simp]: "ADDR_TRANSFER_COUNT_LIFETIME = 0x0020"
definition ADDR_TRANSFER_COUNT_24H :: int where [simp]: "ADDR_TRANSFER_COUNT_24H = 0x0022"
definition ADDR_ICD_MAJOR :: int where [simp]: "ADDR_ICD_MAJOR = 0x0030"
definition ADDR_ICD_MINOR :: int where [simp]: "ADDR_ICD_MINOR = 0x0031"
definition ADDR_FW_MAJOR :: int where [simp]: "ADDR_FW_MAJOR = 0x0032"
definition ADDR_FW_MINOR :: int where [simp]: "ADDR_FW_MINOR = 0x0033"
definition ADDR_FW_PATCH :: int where [simp]: "ADDR_FW_PATCH = 0x0034"
definition ADDR_UNIT_ID :: int where [simp]: "ADDR_UNIT_ID = 0x0035"
definition ADDR_CMD_TEST_RB :: int where [simp]: "ADDR_CMD_TEST_RB = 0x0040"
definition ADDR_CMD_INHIBIT_RB :: int where [simp]: "ADDR_CMD_INHIBIT_RB = 0x0041"
definition ADDR_CMD_FORCE_TRANSFER_RB :: int where [simp]: "ADDR_CMD_FORCE_TRANSFER_RB = 0x0042"
definition ADDR_CMD_BYPASS_DELAY_RB :: int where [simp]: "ADDR_CMD_BYPASS_DELAY_RB = 0x0043"
definition ADDR_CMD_TEST :: int where [simp]: "ADDR_CMD_TEST = 0x0100"
definition ADDR_CMD_INHIBIT :: int where [simp]: "ADDR_CMD_INHIBIT = 0x0101"
definition ADDR_CMD_FORCE_TRANSFER :: int where [simp]: "ADDR_CMD_FORCE_TRANSFER = 0x0102"
definition ADDR_CMD_BYPASS_DELAY :: int where [simp]: "ADDR_CMD_BYPASS_DELAY = 0x0103"

definition position_to_value :: "string \<Rightarrow> int" where
  "position_to_value p =
     (case map_of [(''utility'', 0), (''generator'', 1), (''transferring'', 2), (''unknown'', 3)] p
      of Some v \<Rightarrow> v | None \<Rightarrow> 3)"

definition mode_to_value :: "string \<Rightarrow> int" where
  "mode_to_value m =
     (case map_of [(''auto'', 0), (''manual'', 1), (''test'', 2), (''unknown'', 3)] m
      of Some v \<Rightarrow> v | None \<Rightarrow> 3)"

definition allowed_modes_for_addr :: "int \<Rightarrow> string list option" where
  "allowed_modes_for_addr addr = map_of
     [(ADDR_CMD_TEST, [''auto'']), (ADDR_CMD_INHIBIT, [''auto'', ''manual'']),
      (ADDR_CMD_FORCE_TRANSFER, [''auto'']), (ADDR_CMD_BYPASS_DELAY, [''auto''])] addr"

definition DEFAULT_PULSE_MS :: int where [simp]: "DEFAULT_PULSE_MS = 750"
definition ROLLING_WINDOW_S :: int where [simp]: "ROLLING_WINDOW_S = 24 * 3600"

definition FAULT_DEFINED_MASK :: int where
  "FAULT_DEFINED_MASK = FAULT_INPUT OR FAULT_OUTPUT OR FAULT_MODE_UNKNOWN OR FAULT_CALIBRATION"

definition LOCAL_FAULT_MASK :: int where
  "LOCAL_FAULT_MASK = FAULT_INPUT OR FAULT_OUTPUT"

lemma masks [simp]: "FAULT_DEFINED_MASK = 15" "LOCAL_FAULT_MASK = 3"
  by (simp_all add: FAULT_DEFINED_MASK_def LOCAL_FAULT_MASK_def)

section \<open>State\<close>

record StateSnapshot =
  sn_position :: string
  sn_normal_available :: bool
  sn_emergency_available :: bool
  sn_engine_start_calling :: bool
  sn_ats_mode :: string
  sn_fault_bits :: int
  sn_last_transfer_to_gen_ts :: int
  sn_last_retransfer_to_util_ts :: int
  sn_transfer_count_lifetime :: int
  sn_transfer_count_24h :: int
  sn_cmd_test_active :: bool
  sn_cmd_inhibit_active :: bool
  sn_cmd_force_transfer_active :: bool
  sn_cmd_bypass_delay_active :: bool
  sn_mode_reject_active :: bool

definition default_snapshot :: StateSnapshot where
  "default_snapshot = \<lparr>sn_position = ''unknown'', sn_normal_available = False,
     sn_emergency_available = False, sn_engine_start_calling = False, sn_ats_mode = ''unknown'',
     sn_fault_bits = 0, sn_last_transfer_to_gen_ts = 0, sn_last_retransfer_to_util_ts = 0,
     sn_transfer_count_lifetime = 0, sn_transfer_count_24h = 0, sn_cmd_test_active = False,
     sn_cmd_inhibit_active = False, sn_cmd_force_transfer_active = False,
     sn_cmd_bypass_delay_active = False, sn_mode_reject_active = False\<rparr>"

record CommandIntent =
  ci_test_pulse_ms :: "int option"
  ci_inhibit :: "bool option"
  ci_force_transfer :: "bool option"
  ci_bypass_delay_pulse_ms :: "int option"

definition no_command :: CommandIntent where
  "no_command = \<lparr>ci_test_pulse_ms = None, ci_inhibit = None, ci_force_transfer = None,
     ci_bypass_delay_pulse_ms = None\<rparr>"

record RegisterStore =
  rs_unit_id :: int
  rs_fw_version :: "int list"
  rs_icd_version :: "int \<times> int"
  rs_boot_mono :: real
  rs_state_file :: bool
  rs_transfer_timestamps :: "int list"
  rs_snap :: StateSnapshot

definition ICD_VERSION :: "int \<times> int" where "ICD_VERSION = (1, 0)"
definition VERSION :: string where "VERSION = ''0.1.0''"

fun split_on :: "char \<Rightarrow> string \<Rightarrow> string list" where
  "split_on c [] = [[]]"
| "split_on c (x # xs) =
     (if x = c then [] # split_on c xs
      else (x # hd (split_on c xs)) # tl (split_on c xs))"

fun py_int_strings :: "string list \<Rightarrow> exc + int list" where
  "py_int_strings [] = Inr []"
| "py_int_strings (s # ss) =
     (case py_int_of_string s of Inl e \<Rightarrow> Inl e
      | Inr n \<Rightarrow> (case py_int_strings ss of Inl e \<Rightarrow> Inl e | Inr ns \<Rightarrow> Inr (n # ns)))"

text \<open>\<open>tuple(int(p) for p in __version__.split(".")[:3])\<close>, padded with zeros to three parts.\<close>

definition fw_version_of :: "string \<Rightarrow> exc + int list" where
  "fw_version_of v =
     (case py_int_strings (take 3 (split_on (CHR ''.'') v)) of Inl e \<Rightarrow> Inl e
      | Inr ns \<Rightarrow> Inr (if length ns < 3 then ns @ replicate (3 - length ns) 0 else ns))"

lemma fw_version_VERSION: "fw_version_of VERSION = Inr [0, 1, 0]"
  by (simp add: fw_version_of_def VERSION_def py_int_of_string_def strip_def is_space_def
      parse_unsigned_def is_digit_def digit_value_def)

text \<open>
  The constructor.  \<open>loaded\<close> is \<open>None\<close> without a state file and \<open>Some p\<close> for what \<open>state_file.load()\<close>
  returned.
\<close>

definition store_init :: "int \<Rightarrow> PersistedState option \<Rightarrow> real \<Rightarrow> int \<Rightarrow> exc + RegisterStore" where
  "store_init unit_id loaded now_mono now_wall =
     (case fw_version_of VERSION of Inl e \<Rightarrow> Inl e
      | Inr fw \<Rightarrow>
        (let persisted = (case loaded of None \<Rightarrow> zero_state | Some p \<Rightarrow> p);
             cutoff = now_wall - ROLLING_WINDOW_S;
             stamps = filter (\<lambda>ts. ts \<ge> cutoff) (ps_recent_transfer_wallclocks persisted)
         in Inr \<lparr>rs_unit_id = unit_id, rs_fw_version = fw, rs_icd_version = ICD_VERSION,
              rs_boot_mono = now_mono, rs_state_file = (loaded \<noteq> None),
              rs_transfer_timestamps = stamps,
              rs_snap = default_snapshot
                \<lparr>sn_last_transfer_to_gen_ts := ps_last_transfer_to_gen_ts persisted,
                 sn_last_retransfer_to_util_ts := ps_last_retransfer_to_util_ts persisted,
                 sn_transfer_count_lifetime := ps_transfer_count_lifetime persisted,
                 sn_transfer_count_24h := int (length stamps)\<rparr>\<rparr>))"

section \<open>Sampling-loop writers\<close>

text \<open>What \<open>_persist_sync\<close> and \<open>_persist_async_safe\<close> snapshot, and what they do with it.\<close>

definition persisted_of :: "RegisterStore \<Rightarrow> PersistedState" where
  "persisted_of s = \<lparr>ps_transfer_count_lifetime = sn_transfer_count_lifetime (rs_snap s),
     ps_last_transfer_to_gen_ts = sn_last_transfer_to_gen_ts (rs_snap s),
     ps_last_retransfer_to_util_ts = sn_last_retransfer_to_util_ts (rs_snap s),
     ps_recent_transfer_wallclocks = rs_transfer_timestamps s\<rparr>"

datatype persist_action = No_Save | Save_Now PersistedState | Save_In_Executor PersistedState

definition persist_sync :: "RegisterStore \<Rightarrow> persist_action" where
  "persist_sync s = Save_Now (persisted_of s)"

definition persist_async_safe :: "bool \<Rightarrow> RegisterStore \<Rightarrow> persist_action" where
  "persist_async_safe running_loop s =
     (if running_loop then Save_In_Executor (persisted_of s) else Save_Now (persisted_of s))"

definition evict_old_transfers :: "int \<Rightarrow> int list \<Rightarrow> int list" where
  "evict_old_transfers now_wall stamps = dropWhile (\<lambda>ts. ts < now_wall - ROLLING_WINDOW_S) stamps"

definition transferred_to_gen :: "string \<Rightarrow> string \<Rightarrow> bool" where
  "transferred_to_gen prev new \<longleftrightarrow> prev \<in> {''utility'', ''transferring''} \<and> new = ''generator''"

definition retransferred_to_util :: "string \<Rightarrow> string \<Rightarrow> bool" where
  "retransferred_to_util prev new \<longleftrightarrow> prev \<in> {''generator'', ''transferring''} \<and> new = ''utility''"

definition merge_fault_bits :: "int \<Rightarrow> int \<Rightarrow> int" where
  "merge_fault_bits prev_bits driver_bits =
     ((prev_bits AND LOCAL_FAULT_MASK) OR (driver_bits AND NOT LOCAL_FAULT_MASK)) AND 0xFFFF"

definition apply_input_snapshot ::
    "bool \<Rightarrow> int \<Rightarrow> InputSnapshot \<Rightarrow> RegisterStore \<Rightarrow> RegisterStore \<times> persist_action" where
  "apply_input_snapshot running_loop now_wall inputs s =
     (let prev = rs_snap s;
          to_gen = transferred_to_gen (sn_position prev) (in_position inputs);
          to_util = retransferred_to_util (sn_position prev) (in_position inputs);
          new_last_to_gen = (if to_gen then now_wall else sn_last_transfer_to_gen_ts prev);
          new_lifetime = (if to_gen then sn_transfer_count_lifetime prev + 1
                          else sn_transfer_count_lifetime prev);
          new_last_to_util = (if \<not> to_gen \<and> to_util then now_wall
                              else sn_last_retransfer_to_util_ts prev);
          persist = (to_gen \<or> to_util);
          critical_persist = to_gen;
          appended = (if to_gen then rs_transfer_timestamps s @ [now_wall]
                      else rs_transfer_timestamps s);
          stamps = evict_old_transfers now_wall appended;
          s' = s\<lparr>rs_transfer_timestamps := stamps,
                 rs_snap := \<lparr>sn_position = in_position inputs,
                   sn_normal_available = in_normal_available inputs,
                   sn_emergency_available = in_emergency_available inputs,
                   sn_engine_start_calling = in_engine_start_calling inputs,
                   sn_ats_mode = in_ats_mode inputs,
                   sn_fault_bits = merge_fault_bits (sn_fault_bits prev) (in_fault_bits inputs),
                   sn_last_transfer_to_gen_ts = new_last_to_gen,
                   sn_last_retransfer_to_util_ts = new_last_to_util,
                   sn_transfer_count_lifetime = new_lifetime,
                   sn_transfer_count_24h = int (length stamps),
                   sn_cmd_test_active = sn_cmd_test_active prev,
                   sn_cmd_inhibit_active = sn_cmd_inhibit_active prev,
                   sn_cmd_force_transfer_active = sn_cmd_force_transfer_active prev,
                   sn_cmd_bypass_delay_active = sn_cmd_bypass_delay_active prev,
                   sn_mode_reject_active = sn_mode_reject_active prev\<rparr>\<rparr>
      in (s', if persist \<and> rs_state_file s
              then (if critical_persist then persist_sync s' else persist_async_safe running_loop s')
              else No_Save))"

definition upd_snap :: "(StateSnapshot \<Rightarrow> StateSnapshot) \<Rightarrow> RegisterStore \<Rightarrow> RegisterStore" where
  "upd_snap f s = s\<lparr>rs_snap := f (rs_snap s)\<rparr>"

definition apply_output_state :: "OutputState \<Rightarrow> RegisterStore \<Rightarrow> RegisterStore" where
  "apply_output_state outputs = upd_snap (\<lambda>n. n
     \<lparr>sn_cmd_test_active := out_test_active outputs,
      sn_cmd_inhibit_active := out_inhibit_active outputs,
      sn_cmd_force_transfer_active := out_force_transfer_active outputs,
      sn_cmd_bypass_delay_active := out_bypass_delay_active outputs\<rparr>)"

definition set_input_fault :: "bool \<Rightarrow> RegisterStore \<Rightarrow> RegisterStore" where
  "set_input_fault b = upd_snap (\<lambda>n. n
     \<lparr>sn_fault_bits := (if b then sn_fault_bits n OR FAULT_INPUT
                       else sn_fault_bits n AND NOT FAULT_INPUT) AND 0xFFFF\<rparr>)"

definition set_output_fault :: "bool \<Rightarrow> RegisterStore \<Rightarrow> RegisterStore" where
  "set_output_fault b = upd_snap (\<lambda>n. n
     \<lparr>sn_fault_bits := (if b then sn_fault_bits n OR FAULT_OUTPUT
                       else sn_fault_bits n AND NOT FAULT_OUTPUT) AND 0xFFFF\<rparr>)"

definition release_maintained_commands :: "RegisterStore \<Rightarrow> RegisterStore" where
  "release_maintained_commands = upd_snap (\<lambda>n. n
     \<lparr>sn_cmd_inhibit_active := False, sn_cmd_force_transfer_active := False\<rparr>)"

section \<open>Modbus server side\<close>

definition fault_summary :: "StateSnapshot \<Rightarrow> int" where
  "fault_summary n =
     (let bits = sn_fault_bits n;
          bits = (if sn_mode_reject_active n then bits OR FAULT_INPUT else bits)
      in bits AND FAULT_DEFINED_MASK)"

definition uptime_s :: "real \<Rightarrow> RegisterStore \<Rightarrow> int" where
  "uptime_s now_mono s = py_trunc (now_mono - rs_boot_mono s)"

definition read_register :: "int \<Rightarrow> real \<Rightarrow> int \<Rightarrow> RegisterStore \<Rightarrow> int" where
  "read_register addr now_mono now_wall s =
     (let n = rs_snap s in
      if addr = ADDR_POSITION then position_to_value (sn_position n)
      else if addr = ADDR_NORMAL_AVAIL then of_bool (sn_normal_available n)
      else if addr = ADDR_EMERGENCY_AVAIL then of_bool (sn_emergency_available n)
      else if addr = ADDR_ENGINE_START_CALLING then of_bool (sn_engine_start_calling n)
      else if addr = ADDR_ATS_MODE then mode_to_value (sn_ats_mode n)
      else if addr = ADDR_FAULT_SUMMARY then fault_summary n
      else if addr = ADDR_LAST_TRANSFER_TS then hi_word (sn_last_transfer_to_gen_ts n)
      else if addr = ADDR_LAST_TRANSFER_TS + 1 then lo_word (sn_last_transfer_to_gen_ts n)
      else if addr = ADDR_LAST_RETRANSFER_TS then hi_word (sn_last_retransfer_to_util_ts n)
      else if addr = ADDR_LAST_RETRANSFER_TS + 1 then lo_word (sn_last_retransfer_to_util_ts n)
      else if addr = ADDR_UPTIME_S then hi_word (uptime_s now_mono s)
      else if addr = ADDR_UPTIME_S + 1 then lo_word (uptime_s now_mono s)
      else if addr = ADDR_WALLCLOCK then hi_word now_wall
      else if addr = ADDR_WALLCLOCK + 1 then lo_word now_wall
      else if addr = ADDR_TRANSFER_COUNT_LIFETIME then hi_word (sn_transfer_count_lifetime n)
      else if addr = ADDR_TRANSFER_COUNT_LIFETIME + 1 then lo_word (sn_transfer_count_lifetime n)
      else if addr = ADDR_TRANSFER_COUNT_24H then hi_word (sn_transfer_count_24h n)
      else if addr = ADDR_TRANSFER_COUNT_24H + 1 then lo_word (sn_transfer_count_24h n)
      else if addr = ADDR_ICD_MAJOR then fst (rs_icd_version s)
      else if addr = ADDR_ICD_MINOR then snd (rs_icd_version s)
      else if addr = ADDR_FW_MAJOR then rs_fw_version s ! 0
      else if addr = ADDR_FW_MINOR then rs_fw_version s ! 1
      else if addr = ADDR_FW_PATCH then rs_fw_version s ! 2
      else if addr = ADDR_UNIT_ID then rs_unit_id s
      else if addr = ADDR_CMD_TEST_RB then of_bool (sn_cmd_test_active n)
      else if addr = ADDR_CMD_INHIBIT_RB then of_bool (sn_cmd_inhibit_active n)
      else if addr = ADDR_CMD_FORCE_TRANSFER_RB then of_bool (sn_cmd_force_transfer_active n)
      else if addr = ADDR_CMD_BYPASS_DELAY_RB then of_bool (sn_cmd_bypass_delay_active n)
      else 0)"

definition latch_mode_reject :: "bool \<Rightarrow> RegisterStore \<Rightarrow> RegisterStore" where
  "latch_mode_reject b = upd_snap (\<lambda>n. n\<lparr>sn_mode_reject_active := b\<rparr>)"

definition can_write :: "int \<Rightarrow> RegisterStore \<Rightarrow> bool \<times> RegisterStore" where
  "can_write addr s =
     (case allowed_modes_for_addr addr of
        None \<Rightarrow> (False, s)
      | Some modes \<Rightarrow>
          (if sn_ats_mode (rs_snap s) \<notin> set modes then (False, latch_mode_reject True s)
           else (True, s)))"

definition command_for :: "int \<Rightarrow> int \<Rightarrow> CommandIntent option" where
  "command_for addr value =
     (if addr = ADDR_CMD_TEST \<and> value = 0x0001
      then Some (no_command\<lparr>ci_test_pulse_ms := Some DEFAULT_PULSE_MS\<rparr>)
      else if addr = ADDR_CMD_INHIBIT \<and> value \<in> {0x0000, 0x0001}
      then Some (no_command\<lparr>ci_inhibit := Some (value = 0x0001)\<rparr>)
      else if addr = ADDR_CMD_FORCE_TRANSFER \<and> value \<in> {0x0000, 0x0001}
      then Some (no_command\<lparr>ci_force_transfer := Some (value = 0x0001)\<rparr>)
      else if addr = ADDR_CMD_BYPASS_DELAY \<and> value = 0x0001
      then Some (no_command\<lparr>ci_bypass_delay_pulse_ms := Some DEFAULT_PULSE_MS\<rparr>)
      else None)"

definition write_register :: "int \<Rightarrow> int \<Rightarrow> RegisterStore \<Rightarrow> CommandIntent option \<times> RegisterStore" where
  "write_register addr value s =
     (case allowed_modes_for_addr addr of
        None \<Rightarrow> (None, s)
      | Some modes \<Rightarrow>
          (if sn_ats_mode (rs_snap s) \<notin> set modes then (None, latch_mode_reject True s)
           else (case command_for addr value of
                   None \<Rightarrow> (None, s)
                 | Some intent \<Rightarrow>
                     (Some intent,
                      if sn_mode_reject_active (rs_snap s) then latch_mode_reject False s else s))))"

section \<open>Saving\<close>

text \<open>
  \<open>_save_blocking\<close>: an \<open>OSError\<close> is logged and dropped.  Performing a \<open>persist_action\<close> on the file
  and the executor's queue of pending saves; \<open>executor_run i\<close> is the default executor (a thread
  pool) running one of the queued saves.
\<close>

definition save_blocking :: "(PersistedState \<Rightarrow> ('f, unit) act) \<Rightarrow> PersistedState \<Rightarrow> 'f \<Rightarrow> 'f" where
  "save_blocking save p f = snd (catching (save p) (\<lambda>e. if is_OSError e then ret () else raise e) f)"

fun perform_persist ::
    "(PersistedState \<Rightarrow> ('f, unit) act) \<Rightarrow> persist_action \<Rightarrow> PersistedState list \<times> 'f \<Rightarrow> PersistedState list \<times> 'f" where
  "perform_persist save No_Save (q, f) = (q, f)"
| "perform_persist save (Save_Now p) (q, f) = (q, save_blocking save p f)"
| "perform_persist save (Save_In_Executor p) (q, f) = (q @ [p], f)"

definition executor_run ::
    "(PersistedState \<Rightarrow> ('f, unit) act) \<Rightarrow> nat \<Rightarrow> PersistedState list \<times> 'f \<Rightarrow> PersistedState list \<times> 'f" where
  "executor_run save i qf =
     (case qf of (q, f) \<Rightarrow>
        if i < length q then (take i q @ drop (Suc i) q, save_blocking save (q ! i) f) else (q, f))"

section \<open>Simplification of the record updates\<close>

lemma snap_upd_snap [simp]: "rs_snap (upd_snap f s) = f (rs_snap s)"
  by (simp add: upd_snap_def)

lemma upd_snap_frame [simp]:
  "rs_unit_id (upd_snap f s) = rs_unit_id s" "rs_fw_version (upd_snap f s) = rs_fw_version s"
  "rs_icd_version (upd_snap f s) = rs_icd_version s" "rs_boot_mono (upd_snap f s) = rs_boot_mono s"
  "rs_state_file (upd_snap f s) = rs_state_file s"
  "rs_transfer_timestamps (upd_snap f s) = rs_transfer_timestamps s"
  by (simp_all add: upd_snap_def)

lemmas store_writer_defs = apply_output_state_def set_input_fault_def set_output_fault_def
  release_maintained_commands_def latch_mode_reject_def

lemma write_register_snd:
  "snd (write_register addr v s) = s \<or> (\<exists>b. snd (write_register addr v s) = latch_mode_reject b s)"
  by (auto simp: write_register_def split: option.split)

lemma can_write_snd:
  "snd (can_write addr s) = s \<or> snd (can_write addr s) = latch_mode_reject True s"
  by (auto simp: can_write_def split: option.split)

text \<open>Masking keeps a value in 16 bits.\<close>

lemma and_0xFFFF_range [simp]: "0 \<le> x AND (0xFFFF :: int)" "x AND (0xFFFF :: int) < 65536"
  by (simp_all add: and_0xFFFF)

text \<open>The masks bit by bit.\<close>

lemma bit_masks [simp]:
  "bit (15 :: int) k \<longleftrightarrow> k < 4" "bit (3 :: int) k \<longleftrightarrow> k < 2" "bit (0xFFFF :: int) k \<longleftrightarrow> k < 16"
  "bit (1 :: int) k \<longleftrightarrow> k = 0" "bit (2 :: int) k \<longleftrightarrow> k = 1"
proof -
  have "bit (mask n :: int) k \<longleftrightarrow> k < n" for n by (simp add: bit_mask_iff)
  from this [of 4] this [of 2] this [of 16] show
    "bit (15 :: int) k \<longleftrightarrow> k < 4" "bit (3 :: int) k \<longleftrightarrow> k < 2" "bit (0xFFFF :: int) k \<longleftrightarrow> k < 16"
    by (simp_all add: mask_eq_exp_minus_1)
  show "bit (1 :: int) k \<longleftrightarrow> k = 0" by (simp add: bit_1_iff)
  show "bit (2 :: int) k \<longleftrightarrow> k = 1" by (simp add: bit_2_iff)
qed

lemma bit_fault_summary:
  "bit (fault_summary n) k \<longleftrightarrow>
     k < 4 \<and> (bit (sn_fault_bits n) k \<or> k = 0 \<and> sn_mode_reject_active n)"
  by (auto simp: fault_summary_def Let_def bit_simps)

lemma bit_merge_fault_bits:
  "bit (merge_fault_bits p d) k \<longleftrightarrow> k < 16 \<and> (if k < 2 then bit p k else bit d k)"
  by (auto simp: merge_fault_bits_def bit_simps)

lemma bit_set_input_fault:
  "bit (sn_fault_bits (rs_snap (set_input_fault b s))) k \<longleftrightarrow>
     k < 16 \<and> (if k = 0 then b else bit (sn_fault_bits (rs_snap s)) k)"
  by (auto simp: set_input_fault_def bit_simps)

lemma bit_set_output_fault:
  "bit (sn_fault_bits (rs_snap (set_output_fault b s))) k \<longleftrightarrow>
     k < 16 \<and> (if k = 1 then b else bit (sn_fault_bits (rs_snap s)) k)"
  by (auto simp: set_output_fault_def bit_simps)

lemma fault_summary_range: "0 \<le> fault_summary n" "fault_summary n \<le> 15"
proof -
  have "x AND mask 4 = x mod 2 ^ 4" for x :: int
    by (simp only: take_bit_eq_mask [symmetric] take_bit_eq_mod)
  moreover have "mask 4 = (15 :: int)" by (simp add: mask_eq_exp_minus_1)
  ultimately have "x AND 15 = x mod 16" for x :: int by simp
  then have e: "fault_summary n = (if sn_mode_reject_active n then sn_fault_bits n OR 1 else sn_fault_bits n) mod 16"
    by (simp add: fault_summary_def Let_def)
  show "0 \<le> fault_summary n" by (simp add: e)
  have "y mod 16 \<le> (15 :: int)" for y using pos_mod_bound [of 16 y] by simp
  then show "fault_summary n \<le> 15" unfolding e .
qed

end
