(* ===== verification/Safety.thy ===== *)
theory Safety
  imports Register_Store Io_Driver
begin

text \<open>
  \<open>src/src/atspi/safety.py\<close>: the comms-loss watchdog.  \<open>time.monotonic()\<close> is an argument.  A tick of
  \<open>run\<close> is given whole (\<open>watchdog_tick\<close>) and in its two halves around the awaited \<open>drive_outputs\<close>
  (\<open>tick_begin\<close>, \<open>tick_end\<close>), between which the event loop runs other tasks.  What the connection
  tracker needs of a watchdog is the locale \<open>comms_watchdog\<close>.
\<close>

section \<open>The watchdog\<close>

definition TIMEOUT_S :: real where [simp]: "TIMEOUT_S = 30"
definition CHECK_INTERVAL_S :: real where [simp]: "CHECK_INTERVAL_S = 1"

record watchdog =
  wd_last_read_monotonic :: real
  wd_released :: bool
  wd_commander_gone :: bool

definition watchdog_init :: "real \<Rightarrow> watchdog" where
  "watchdog_init now_mono =
     \<lparr>wd_last_read_monotonic = now_mono, wd_released = False, wd_commander_gone = False\<rparr>"

definition note_modbus_read :: "real \<Rightarrow> watchdog \<Rightarrow> watchdog" where
  "note_modbus_read now_mono wd =
     (let wd = wd\<lparr>wd_last_read_monotonic := now_mono, wd_commander_gone := False\<rparr>
      in if wd_released wd then wd\<lparr>wd_released := False\<rparr> else wd)"

definition note_commander_lost :: "watchdog \<Rightarrow> watchdog" where
  "note_commander_lost wd = wd\<lparr>wd_commander_gone := True\<rparr>"

definition watchdog_snapshot :: "real \<Rightarrow> watchdog \<Rightarrow> real \<times> bool" where
  "watchdog_snapshot now_mono wd = (now_mono - wd_last_read_monotonic wd, wd_released wd)"

definition release_due :: "real \<Rightarrow> watchdog \<Rightarrow> bool" where
  "release_due now_mono wd \<longleftrightarrow>
     (let elapsed = now_mono - wd_last_read_monotonic wd
      in (elapsed > TIMEOUT_S \<or> wd_commander_gone wd) \<and> \<not> wd_released wd)"

text \<open>The driver call of a tick.\<close>

definition release_call :: "(int option \<Rightarrow> bool option \<Rightarrow> bool option \<Rightarrow> int option \<Rightarrow> ('s, unit) act) \<Rightarrow> ('s, unit) act" where
  "release_call drive = drive None (Some False) (Some False) None"

definition tick_begin :: "real \<Rightarrow> watchdog \<Rightarrow> RegisterStore \<Rightarrow> bool \<times> RegisterStore" where
  "tick_begin now_mono wd store =
     (if release_due now_mono wd then (True, release_maintained_commands store) else (False, store))"

definition tick_end :: "exc + unit \<Rightarrow> watchdog \<Rightarrow> watchdog" where
  "tick_end result wd = (case result of Inl e \<Rightarrow> wd | Inr _ \<Rightarrow> wd\<lparr>wd_released := True\<rparr>)"

definition watchdog_tick :: "(int option \<Rightarrow> bool option \<Rightarrow> bool option \<Rightarrow> int option \<Rightarrow> ('s, unit) act) \<Rightarrow>
    real \<Rightarrow> RegisterStore \<times> watchdog \<times> 's \<Rightarrow> RegisterStore \<times> watchdog \<times> 's" where
  "watchdog_tick drive now_mono = (\<lambda>(store, wd, d).
     case tick_begin now_mono wd store of
       (False, store') \<Rightarrow> (store', wd, d)
     | (True, store') \<Rightarrow> (case release_call drive d of (result, d') \<Rightarrow> (store', tick_end result wd, d')))"

section \<open>What the connection tracker relies on\<close>

locale comms_watchdog =
  fixes note_read :: "real \<Rightarrow> 'g \<Rightarrow> 'g"
    and note_lost :: "'g \<Rightarrow> 'g"
    and last_activity :: "'g \<Rightarrow> real"
    and loss_noted :: "'g \<Rightarrow> bool"
  assumes read_activity: "last_activity (note_read t g) = t"
    and read_clears: "\<not> loss_noted (note_read t g)"
    and lost_activity: "last_activity (note_lost g) = last_activity g"
    and lost_noted: "loss_noted (note_lost g)"

interpretation watchdog: comms_watchdog note_modbus_read note_commander_lost wd_last_read_monotonic wd_commander_gone
  by unfold_locales (simp_all add: note_modbus_read_def note_commander_lost_def Let_def)

lemma note_modbus_read_eq:
  "note_modbus_read t wd = \<lparr>wd_last_read_monotonic = t, wd_released = False, wd_commander_gone = False\<rparr>"
  by (cases wd) (auto simp: note_modbus_read_def Let_def)

section \<open>A tick and its driver\<close>

lemma watchdog_tick_idle: "\<not> release_due t wd \<Longrightarrow> watchdog_tick drive t (store, wd, d) = (store, wd, d)"
  by (simp add: watchdog_tick_def tick_begin_def)

lemma watchdog_tick_due:
  "release_due t wd \<Longrightarrow> watchdog_tick drive t (store, wd, d) =
     (release_maintained_commands store, tick_end (fst (release_call drive d)) wd, snd (release_call drive d))"
  by (simp add: watchdog_tick_def tick_begin_def case_prod_beta)

text \<open>Inhibit and Force-Transfer are commanded off, by a driver's own record of its commands.\<close>

definition maintained_off :: "('s \<Rightarrow> command_output \<Rightarrow> bool option) \<Rightarrow> 's \<Rightarrow> bool" where
  "maintained_off commanded d \<longleftrightarrow> commanded d Inhibit = Some False \<and> commanded d Force_Transfer = Some False"

context output_driver
begin

text \<open>A due tick: it is never refused by the fail-safe gate, and when its write returns the outputs are off.\<close>

lemma due_tick_releases:
  assumes "release_due t wd" and "watchdog_tick drive_outputs t (store, wd, d) = (store', wd', d')"
  shows "store' = release_maintained_commands store"
    and "fst (release_call drive_outputs d) \<noteq> Inl HwWatchdogNotArmedError"
    and "fst (release_call drive_outputs d) = Inr () \<Longrightarrow> wd_released wd' \<and> maintained_off commanded d'"
    and "fst (release_call drive_outputs d) = Inl e \<Longrightarrow> wd' = wd"
proof -
  note tick = watchdog_tick_due [OF assms(1), of drive_outputs store d] assms(2)
  show "store' = release_maintained_commands store" using tick by simp
  show "fst (release_call drive_outputs d) \<noteq> Inl HwWatchdogNotArmedError"
    unfolding release_call_def by (rule release_not_refused)
  show "wd' = wd" if "fst (release_call drive_outputs d) = Inl e"
    using tick that by (simp add: tick_end_def)
  show "wd_released wd' \<and> maintained_off commanded d'" if "fst (release_call drive_outputs d) = Inr ()"
  proof -
    from that tick have "release_call drive_outputs d = (Inr (), d')" by (metis prod.collapse snd_conv)
    then have "maintained_off commanded d'"
      unfolding release_call_def maintained_off_def using release_maintained by blast
    with tick that show ?thesis by (auto simp: tick_end_def)
  qed
qed

text \<open>Once released, ticks leave the outputs alone; a failed tick stays due.\<close>

lemma failed_tick_stays_due:
  assumes "release_due t wd" and "fst (release_call drive_outputs d) = Inl e" and "t \<le> t'"
  shows "release_due t' (fst (snd (watchdog_tick drive_outputs t (store, wd, d))))"
  using assms watchdog_tick_due [OF assms(1), of drive_outputs store d]
  by (auto simp: release_due_def tick_end_def Let_def)

end

end
