(* ===== verification/Server.thy ===== *)
theory Server
  imports Safety
begin

text \<open>
  \<open>src/src/atspi/server.py\<close>: the hooks through which the Modbus library serves the register store -- the
  guard \<open>validate\<close>, the data block's \<open>getValues\<close> and \<open>setValues\<close> -- and the connection tracker that
  scopes the comms-loss watchdog to the commanding connection.  \<open>super().validate\<close> is library code:
  the parameter \<open>default_validate\<close>.  A connection is an opaque number.  \<open>start_server\<close> is in \<open>Server_Start\<close>.
\<close>

section \<open>The guard\<close>

definition ALLOWED_HOLDING_WRITE_ADDRESSES :: "int list" where
  "ALLOWED_HOLDING_WRITE_ADDRESSES =
     [ADDR_CMD_TEST, ADDR_CMD_INHIBIT, ADDR_CMD_FORCE_TRANSFER, ADDR_CMD_BYPASS_DELAY]"

definition HOLDING_WRITE_FCS :: "int list" where "HOLDING_WRITE_FCS = [0x06, 0x10]"
definition COIL_WRITE_FCS :: "int list" where "COIL_WRITE_FCS = [0x05, 0x0F]"
definition UNSUPPORTED_WRITE_FCS :: "int list" where "UNSUPPORTED_WRITE_FCS = [0x17]"
definition HOLDING_READ_FCS :: "int list" where "HOLDING_READ_FCS = [0x03, 0x04]"

text \<open>The loop over \<open>range(count)\<close>: an early \<open>return False\<close> keeps what \<open>can_write\<close> latched.\<close>

fun validate_writes :: "int \<Rightarrow> nat \<Rightarrow> RegisterStore \<Rightarrow> bool \<times> RegisterStore" where
  "validate_writes target 0 s = (True, s)"
| "validate_writes target (Suc n) s =
     (if target \<notin> set ALLOWED_HOLDING_WRITE_ADDRESSES then (False, s)
      else (case can_write target s of
              (False, s') \<Rightarrow> (False, s')
            | (True, s') \<Rightarrow> validate_writes (target + 1) n s'))"

definition validate :: "(int \<Rightarrow> int \<Rightarrow> int \<Rightarrow> bool) \<Rightarrow> int \<Rightarrow> int \<Rightarrow> int \<Rightarrow> RegisterStore \<Rightarrow> bool \<times> RegisterStore" where
  "validate default_validate fc address cnt s =
     (if fc \<in> set COIL_WRITE_FCS \<or> fc \<in> set UNSUPPORTED_WRITE_FCS then (False, s)
      else if fc \<in> set HOLDING_WRITE_FCS then validate_writes address (nat cnt) s
      else if fc \<in> set HOLDING_READ_FCS then (True, s)
      else (default_validate fc address cnt, s))"

section \<open>The data block\<close>

text \<open>The library passes 1-based addresses; one reading of the clocks serves the whole block.\<close>

definition get_values :: "int \<Rightarrow> int \<Rightarrow> real \<Rightarrow> int \<Rightarrow> RegisterStore \<Rightarrow> int list" where
  "get_values address cnt now_mono now_wall s =
     map (\<lambda>i. read_register (address - 1 + int i) now_mono now_wall s) [0..<nat cnt]"

fun set_values_from :: "int \<Rightarrow> int list \<Rightarrow> RegisterStore \<Rightarrow> CommandIntent list \<times> RegisterStore" where
  "set_values_from addr [] s = ([], s)"
| "set_values_from addr (v # vs) s =
     (case write_register addr v s of
        (intent, s') \<Rightarrow>
          (case set_values_from (addr + 1) vs s' of
             (rest, s'') \<Rightarrow> (case intent of None \<Rightarrow> (rest, s'') | Some i \<Rightarrow> (i # rest, s''))))"

definition set_values :: "int \<Rightarrow> int list \<Rightarrow> RegisterStore \<Rightarrow> CommandIntent list \<times> RegisterStore" where
  "set_values address vals s = set_values_from (address - 1) vals s"

section \<open>The connection tracker\<close>

definition is_cmd_write :: "int option \<Rightarrow> int option \<Rightarrow> bool" where
  "is_cmd_write function_code address \<longleftrightarrow>
     (\<exists>fc\<in>set HOLDING_WRITE_FCS. function_code = Some fc) \<and>
     (case address of None \<Rightarrow> False | Some a \<Rightarrow> ADDR_CMD_TEST \<le> a \<and> a \<le> ADDR_CMD_BYPASS_DELAY)"

text \<open>State: the commanding connection and the watchdog the tracker drives.\<close>

definition note_request :: "(real \<Rightarrow> 'g \<Rightarrow> 'g) \<Rightarrow> real \<Rightarrow> nat \<Rightarrow> int option \<Rightarrow> int option \<Rightarrow>
    nat option \<times> 'g \<Rightarrow> nat option \<times> 'g" where
  "note_request note_read now_mono conn function_code address = (\<lambda>(commander, g).
     if is_cmd_write function_code address then (Some conn, note_read now_mono g)
     else if commander = None then (commander, note_read now_mono g)
     else if commander = Some conn then (commander, note_read now_mono g)
     else (commander, g))"

definition note_disconnect :: "('g \<Rightarrow> 'g) \<Rightarrow> nat \<Rightarrow> nat option \<times> 'g \<Rightarrow> nat option \<times> 'g" where
  "note_disconnect note_lost conn = (\<lambda>(commander, g).
     if commander = Some conn then (None, note_lost g) else (commander, g))"

datatype tracker_event = Request real nat "int option" "int option" | Disconnect nat

fun tracker_step :: "(real \<Rightarrow> 'g \<Rightarrow> 'g) \<Rightarrow> ('g \<Rightarrow> 'g) \<Rightarrow> tracker_event \<Rightarrow> nat option \<times> 'g \<Rightarrow> nat option \<times> 'g" where
  "tracker_step note_read note_lost (Request t conn fc a) = note_request note_read t conn fc a"
| "tracker_step note_read note_lost (Disconnect conn) = note_disconnect note_lost conn"

definition tracker_run :: "(real \<Rightarrow> 'g \<Rightarrow> 'g) \<Rightarrow> ('g \<Rightarrow> 'g) \<Rightarrow> tracker_event list \<Rightarrow> nat option \<times> 'g \<Rightarrow> nat option \<times> 'g" where
  "tracker_run note_read note_lost es cg = fold (tracker_step note_read note_lost) es cg"

section \<open>Accepted and rejected writes\<close>

lemma allowed_modes_band:
  "allowed_modes_for_addr a \<noteq> None \<longleftrightarrow> a \<in> set ALLOWED_HOLDING_WRITE_ADDRESSES"
  by (auto simp: allowed_modes_for_addr_def ALLOWED_HOLDING_WRITE_ADDRESSES_def)

definition writable_now :: "int \<Rightarrow> RegisterStore \<Rightarrow> bool" where
  "writable_now a s = (case allowed_modes_for_addr a of None \<Rightarrow> False | Some modes \<Rightarrow> sn_ats_mode (rs_snap s) \<in> set modes)"

lemma can_write_eq:
  "can_write a s = (if writable_now a s then (True, s)
     else (False, if allowed_modes_for_addr a = None then s else latch_mode_reject True s))"
  by (auto simp: can_write_def writable_now_def split: option.split)

lemma writable_in_band: "writable_now a s \<Longrightarrow> a \<in> set ALLOWED_HOLDING_WRITE_ADDRESSES"
  using allowed_modes_band [of a] by (auto simp: writable_now_def split: option.splits)

text \<open>The first register the guard trips over, when it is a command register.\<close>

fun mode_trips :: "int \<Rightarrow> nat \<Rightarrow> RegisterStore \<Rightarrow> bool" where
  "mode_trips a 0 s = False"
| "mode_trips a (Suc n) s =
     (if writable_now a s then mode_trips (a + 1) n s else a \<in> set ALLOWED_HOLDING_WRITE_ADDRESSES)"

lemma all_writable_Suc:
  "(\<forall>i<Suc n. writable_now (a + int i) s) \<longleftrightarrow> writable_now a s \<and> (\<forall>i<n. writable_now (a + 1 + int i) s)"
  by (simp add: All_less_Suc2 add.assoc)

lemma validate_writes_eq:
  "validate_writes a n s =
     (\<forall>i<n. writable_now (a + int i) s, if mode_trips a n s then latch_mode_reject True s else s)"
proof (induction n arbitrary: a)
  case 0
  then show ?case by simp
next
  case (Suc n)
  show ?case
  proof (cases "writable_now a s")
    case True
    with Suc writable_in_band [OF True] show ?thesis
      by (simp add: can_write_eq all_writable_Suc)
  next
    case False
    then show ?thesis using allowed_modes_band [of a]
      by (auto simp: can_write_eq all_writable_Suc)
  qed
qed

text \<open>The intents a block of values stands for, each on its own.\<close>

fun commands_for :: "int \<Rightarrow> int list \<Rightarrow> CommandIntent list" where
  "commands_for a [] = []"
| "commands_for a (v # vs) =
     (case command_for a v of None \<Rightarrow> commands_for (a + 1) vs | Some i \<Rightarrow> i # commands_for (a + 1) vs)"

lemma write_register_writable:
  assumes "writable_now a s"
  shows "fst (write_register a v s) = command_for a v"
    and "writable_now b (snd (write_register a v s)) = writable_now b s"
  using assms by (auto simp: write_register_def writable_now_def latch_mode_reject_def split: option.splits)

lemma set_values_writable:
  assumes "\<forall>i<length vs. writable_now (a + int i) s"
  shows "fst (set_values_from a vs s) = commands_for a vs"
  using assms
proof (induction vs arbitrary: a s)
  case Nil
  then show ?case by simp
next
  case (Cons v vs)
  then have w: "writable_now a s" and rest: "\<forall>i<length vs. writable_now (a + 1 + int i) s"
    by (simp_all add: all_writable_Suc)
  obtain i s' where wr: "write_register a v s = (i, s')" by fastforce
  from write_register_writable(1) [OF w, of v] wr have i: "i = command_for a v" by simp
  from write_register_writable(2) [OF w, of _ v] wr rest
  have "\<forall>i<length vs. writable_now (a + 1 + int i) s'" by simp
  from Cons.IH [OF this] wr i show ?case
    by (simp add: case_prod_beta split: option.split)
qed

text \<open>
  C9: the guard decides exactly by the ICD policy.  Coil writes and FC23 are refused, register reads always
  accepted, other function codes left to the library; a holding write is accepted exactly if every register of
  its range is a command register whose permitted modes include the current one.  The store changes only
  by the mode-reject latch, and only when the first offending register is a command register.
\<close>

theorem validate_policy:
  "validate default_validate fc address cnt s =
     (if fc \<in> {5, 15, 23} then (False, s)
      else if fc \<in> {6, 16} then
        (\<forall>i<nat cnt. address + int i \<in> {0x100..0x103} \<and> writable_now (address + int i) s,
         if mode_trips address (nat cnt) s then latch_mode_reject True s else s)
      else if fc \<in> {3, 4} then (True, s)
      else (default_validate fc address cnt, s))"
proof -
  have band: "writable_now a s \<longleftrightarrow> a \<in> {0x100..0x103} \<and> writable_now a s" for a
    using writable_in_band [of a s] by (auto simp: ALLOWED_HOLDING_WRITE_ADDRESSES_def)
  have "(\<forall>i<n. writable_now (address + int i) s) \<longleftrightarrow>
      (\<forall>i<n. address + int i \<in> {0x100..0x103} \<and> writable_now (address + int i) s)" for n
    using band by blast
  then show ?thesis
    by (simp add: validate_def validate_writes_eq COIL_WRITE_FCS_def UNSUPPORTED_WRITE_FCS_def
        HOLDING_WRITE_FCS_def HOLDING_READ_FCS_def)
qed

text \<open>Concretely: a switch in its automatic mode; the second range runs past the command registers.\<close>

definition auto_store :: RegisterStore where
  "auto_store =
     \<lparr>rs_unit_id = 23, rs_fw_version = [0, 1, 0], rs_icd_version = (1, 0), rs_boot_mono = 0, rs_state_file = False,
      rs_transfer_timestamps = [], rs_snap = default_snapshot\<lparr>sn_ats_mode := ''auto''\<rparr>\<rparr>"

lemma validate_policy_witness:
  "validate (\<lambda>fc a n. False) 16 0x102 2 auto_store = (True, auto_store) \<and>
   validate (\<lambda>fc a n. False) 16 0x103 2 auto_store = (False, auto_store)"
  using validate_policy [where default_validate = "\<lambda>fc a n. False" and fc = 16 and address = 258 and cnt = 2 and s = auto_store]
    validate_policy [where default_validate = "\<lambda>fc a n. False" and fc = 16 and address = 259 and cnt = 2 and s = auto_store]
  by (simp add: writable_now_def allowed_modes_for_addr_def auto_store_def numeral_2_eq_2 less_Suc_eq ALLOWED_HOLDING_WRITE_ADDRESSES_def)

text \<open>
  C10: an accepted block write is carried out in full.  Once \<open>validate\<close> has accepted a write of as many
  registers as there are values, it has left the store as it was, and \<open>setValues\<close> hands out the intent of every
  in-pattern value, in register order: no value is dropped for its mode, and none depends on another.
\<close>

theorem accepted_write_dispatched:
  assumes "validate default_validate fc address (int (length vals)) s = (True, s')" and "fc \<in> {0x06, 0x10}"
  shows "s' = s \<and> fst (set_values (address + 1) vals s') = commands_for address vals"
proof -
  have "validate_writes address (length vals) s = (True, s')"
    using assms by (auto simp: validate_def COIL_WRITE_FCS_def UNSUPPORTED_WRITE_FCS_def HOLDING_WRITE_FCS_def)
  then have ok: "\<forall>i<length vals. writable_now (address + int i) s"
    and s': "s' = (if mode_trips address (length vals) s then latch_mode_reject True s else s)"
    by (simp_all add: validate_writes_eq)
  have "\<not> mode_trips a n s" if "\<forall>i<n. writable_now (a + int i) s" for a n
    using that by (induction n arbitrary: a) (auto simp: all_writable_Suc)
  with ok s' have "s' = s" by simp
  with set_values_writable [OF ok] show ?thesis by (simp add: set_values_def)
qed

lemma accepted_write_dispatched_witness:
  "fst (set_values 0x102 [1, 7, 1] auto_store) =
     [no_command\<lparr>ci_inhibit := Some True\<rparr>, no_command\<lparr>ci_bypass_delay_pulse_ms := Some 750\<rparr>]"
proof -
  have "validate (\<lambda>fc a n. False) 0x10 0x101 (int (length [1, 7, 1 :: int])) auto_store = (True, auto_store)"
    by (simp add: validate_def COIL_WRITE_FCS_def UNSUPPORTED_WRITE_FCS_def HOLDING_WRITE_FCS_def
        numeral_3_eq_3 ALLOWED_HOLDING_WRITE_ADDRESSES_def can_write_def auto_store_def allowed_modes_for_addr_def)
  from accepted_write_dispatched [OF this] show ?thesis by (simp add: command_for_def)
qed

section \<open>Who keeps the watchdog quiet\<close>

text \<open>An event of another connection that commands nothing.\<close>

fun bystander_event :: "nat \<Rightarrow> tracker_event \<Rightarrow> bool" where
  "bystander_event c (Request t conn fc a) \<longleftrightarrow> conn \<noteq> c \<and> \<not> is_cmd_write fc a"
| "bystander_event c (Disconnect conn) \<longleftrightarrow> conn \<noteq> c"

lemma bystander_step: "bystander_event c e \<Longrightarrow> tracker_step nr nl e (Some c, g) = (Some c, g)"
  by (cases e) (auto simp: note_request_def note_disconnect_def)

lemma bystander_run: "list_all (bystander_event c) es \<Longrightarrow> tracker_run nr nl es (Some c, g) = (Some c, g)"
  unfolding tracker_run_def by (induction es) (auto simp: bystander_step)

context comms_watchdog
begin

lemma request_activity:
  "note_request note_read t conn fc a (c, g) = (c', g') \<Longrightarrow>
     last_activity g' = (if is_cmd_write fc a \<or> c = None \<or> c = Some conn then t else last_activity g)"
  by (auto simp: note_request_def read_activity split: if_splits)

lemma commander_drop_noted:
  "note_disconnect note_lost c (Some c, g) = (None, note_lost g) \<and> loss_noted (note_lost g)"
  by (simp add: note_disconnect_def lost_noted)

lemma any_request_clears_loss:
  "note_request note_read t conn fc a (None, g) = (c', g') \<Longrightarrow> \<not> loss_noted g'"
  by (auto simp: note_request_def read_clears split: if_splits)

end

end
