(* ===== verification/Service.thy ===== *)
theory Service
  imports Server
begin

text \<open>
  The running service of \<open>src/src/atspi/__main__.py\<close>: the sampling loop's cycle, the dispatch of command
  intents, startup and shutdown, and the interleavings of all of these with the hooks of the Modbus
  server and the ticks of the watchdog as a step relation.  The driver is a parameter, the record
  \<open>driver_ops\<close> of the methods of \<open>IODriver\<close>; \<open>env\<close> is what else may happen to it (time passes, the
  network and the unit move, pulse-release tasks run).  A task is interrupted where its coroutine awaits the
  driver: the sampling cycle has three such steps (\<open>sampling_phase\<close> says which comes next), a due tick of the
  watchdog two (\<open>sy_release_pending\<close> in between), a dispatch one.  A driver call itself is atomic here.
\<close>

section \<open>State\<close>

text \<open>
  \<open>sy_outputs_reset\<close>, \<open>sy_failures\<close> and \<open>sy_sampling\<close> are the sampling loop's locals and its place, with the inputs
  it has read; \<open>sy_release_pending\<close> is a watchdog tick suspended at its driver call; \<open>sy_dispatch\<close> are the dispatch tasks
  created and not yet run, \<open>sy_saves\<close> the saves the store has asked for.
\<close>

datatype sampling_phase = At_Start | At_Inputs | At_Outputs InputSnapshot

record 's service =
  sy_store :: RegisterStore
  sy_commander :: "nat option"
  sy_watchdog :: watchdog
  sy_driver :: 's
  sy_dispatch :: "CommandIntent list"
  sy_outputs_reset :: bool
  sy_failures :: int
  sy_saves :: "persist_action list"
  sy_sampling :: sampling_phase
  sy_release_pending :: bool

definition upd_store :: "(RegisterStore \<Rightarrow> RegisterStore) \<Rightarrow> 's service \<Rightarrow> 's service" where
  "upd_store f sy = sy\<lparr>sy_store := f (sy_store sy)\<rparr>"

definition on_driver :: "('s, 'a) act \<Rightarrow> ('s service, 'a) act" where
  "on_driver m = (\<lambda>sy. case m (sy_driver sy) of (r, d) \<Rightarrow> (r, sy\<lparr>sy_driver := d\<rparr>))"

section \<open>The sampling cycle\<close>

definition startup_reset :: "'s driver_ops \<Rightarrow> ('s service, unit) act" where
  "startup_reset ops =
     andthen (gets sy_outputs_reset) (\<lambda>done.
     if done then ret ()
     else andthen (on_driver (op_release_all_outputs ops)) (\<lambda>_.
          modify (sy_outputs_reset_update (\<lambda>_. True))))"

definition publish_inputs :: "int \<Rightarrow> InputSnapshot \<Rightarrow> 's service \<Rightarrow> 's service" where
  "publish_inputs now_wall inputs sy =
     (case apply_input_snapshot True now_wall inputs (sy_store sy) of
        (store, save) \<Rightarrow> sy\<lparr>sy_store := store, sy_saves := sy_saves sy @ [save]\<rparr>)"

definition sampling_body :: "'s driver_ops \<Rightarrow> int \<Rightarrow> ('s service, unit) act" where
  "sampling_body ops now_wall =
     andthen (startup_reset ops) (\<lambda>_.
     andthen (on_driver (op_read_inputs ops)) (\<lambda>inputs.
     andthen (on_driver (op_read_output_state ops)) (\<lambda>outputs.
     andthen (modify (publish_inputs now_wall inputs)) (\<lambda>_.
     andthen (modify (upd_store (apply_output_state outputs))) (\<lambda>_.
     andthen (modify (upd_store (set_input_fault False))) (\<lambda>_.
     andthen (gets (\<lambda>sy. \<not> op_hw_watchdog_ok ops (sy_driver sy) \<or>
                        \<not> op_check_output_consistency ops outputs (sy_driver sy))) (\<lambda>bad.
     andthen (if bad then modify (upd_store (set_output_fault True)) else ret ()) (\<lambda>_.
     modify (sy_failures_update (\<lambda>_. 0))))))))))"

definition sampling_cycle :: "'s driver_ops \<Rightarrow> int \<Rightarrow> 's service \<Rightarrow> 's service" where
  "sampling_cycle ops now_wall sy =
     snd (catching (sampling_body ops now_wall)
       (\<lambda>e. modify (\<lambda>sy. (upd_store (set_input_fault True) sy)\<lparr>sy_failures := sy_failures sy + 1\<rparr>)) sy)"

text \<open>The same cycle, one await at a time; a step that raises ends the cycle.\<close>

definition sampling_failed :: "'s service \<Rightarrow> 's service" where
  "sampling_failed sy =
     (upd_store (set_input_fault True) sy)\<lparr>sy_failures := sy_failures sy + 1, sy_sampling := At_Start\<rparr>"

definition sample_reset :: "'s driver_ops \<Rightarrow> 's service \<Rightarrow> 's service" where
  "sample_reset ops sy =
     (if sy_outputs_reset sy then sy\<lparr>sy_sampling := At_Inputs\<rparr>
      else case op_release_all_outputs ops (sy_driver sy) of
        (Inl e, d) \<Rightarrow> sampling_failed (sy\<lparr>sy_driver := d\<rparr>)
      | (Inr _, d) \<Rightarrow> sy\<lparr>sy_driver := d, sy_outputs_reset := True, sy_sampling := At_Inputs\<rparr>)"

definition sample_inputs :: "'s driver_ops \<Rightarrow> 's service \<Rightarrow> 's service" where
  "sample_inputs ops sy =
     (case op_read_inputs ops (sy_driver sy) of
        (Inl e, d) \<Rightarrow> sampling_failed (sy\<lparr>sy_driver := d\<rparr>)
      | (Inr inputs, d) \<Rightarrow> sy\<lparr>sy_driver := d, sy_sampling := At_Outputs inputs\<rparr>)"

definition publish_sample :: "'s driver_ops \<Rightarrow> int \<Rightarrow> InputSnapshot \<Rightarrow> OutputState \<Rightarrow> 's service \<Rightarrow> 's service" where
  "publish_sample ops now_wall inputs outputs sy =
     (let sy = upd_store (set_input_fault False) (upd_store (apply_output_state outputs) (publish_inputs now_wall inputs sy));
          bad = (\<not> op_hw_watchdog_ok ops (sy_driver sy) \<or> \<not> op_check_output_consistency ops outputs (sy_driver sy));
          sy = (if bad then upd_store (set_output_fault True) sy else sy)
      in sy\<lparr>sy_failures := 0, sy_sampling := At_Start\<rparr>)"

definition sample_outputs :: "'s driver_ops \<Rightarrow> int \<Rightarrow> InputSnapshot \<Rightarrow> 's service \<Rightarrow> 's service" where
  "sample_outputs ops now_wall inputs sy =
     (case op_read_output_state ops (sy_driver sy) of
        (Inl e, d) \<Rightarrow> sampling_failed (sy\<lparr>sy_driver := d\<rparr>)
      | (Inr outputs, d) \<Rightarrow> publish_sample ops now_wall inputs outputs (sy\<lparr>sy_driver := d\<rparr>))"

section \<open>Command dispatch\<close>

definition dispatch_command :: "'s driver_ops \<Rightarrow> CommandIntent \<Rightarrow> 's service \<Rightarrow> 's service" where
  "dispatch_command ops intent sy =
     snd (catching
       (andthen (on_driver (op_drive_outputs ops (ci_test_pulse_ms intent) (ci_inhibit intent)
                              (ci_force_transfer intent) (ci_bypass_delay_pulse_ms intent)))
          (\<lambda>_. modify (upd_store (set_output_fault False))))
       (\<lambda>e. modify (upd_store (set_output_fault True))) sy)"

section \<open>Steps\<close>

datatype service_event =
    Ev_Request real nat "int option" "int option"
  | Ev_Validate int int int
  | Ev_Set_Values int "int list"
  | Ev_Disconnect nat
  | Ev_Dispatch nat
  | Ev_Tick_Begin real
  | Ev_Tick_End
  | Ev_Sample_Reset
  | Ev_Sample_Inputs
  | Ev_Sample_Outputs int
  | Ev_Driver

definition tracked :: "(nat option \<times> watchdog \<Rightarrow> nat option \<times> watchdog) \<Rightarrow> 's service \<Rightarrow> 's service" where
  "tracked f sy = (case f (sy_commander sy, sy_watchdog sy) of
     (c, wd) \<Rightarrow> sy\<lparr>sy_commander := c, sy_watchdog := wd\<rparr>)"

text \<open>A tick of the watchdog up to its driver call, and from that call's result on.\<close>

definition tick_started :: "real \<Rightarrow> 's service \<Rightarrow> 's service" where
  "tick_started now_mono sy =
     (case tick_begin now_mono (sy_watchdog sy) (sy_store sy) of
        (due, store) \<Rightarrow> sy\<lparr>sy_store := store, sy_release_pending := due\<rparr>)"

definition tick_finished :: "'s driver_ops \<Rightarrow> 's service \<Rightarrow> 's service" where
  "tick_finished ops sy =
     (case release_call (op_drive_outputs ops) (sy_driver sy) of
        (result, d) \<Rightarrow> sy\<lparr>sy_driver := d, sy_watchdog := tick_end result (sy_watchdog sy), sy_release_pending := False\<rparr>)"

text \<open>\<open>on_command\<close> creates one dispatch task per intent.\<close>

definition commanded_by :: "int \<Rightarrow> int list \<Rightarrow> 's service \<Rightarrow> 's service" where
  "commanded_by address vals sy =
     (case set_values address vals (sy_store sy) of
        (intents, store) \<Rightarrow> sy\<lparr>sy_store := store, sy_dispatch := sy_dispatch sy @ intents\<rparr>)"

inductive service_step ::
    "('s \<Rightarrow> 's \<Rightarrow> bool) \<Rightarrow> 's driver_ops \<Rightarrow> service_event \<Rightarrow> 's service \<Rightarrow> 's service \<Rightarrow> bool"
  for env ops where
  Request: "service_step env ops (Ev_Request t conn fc a) sy (tracked (note_request note_modbus_read t conn fc a) sy)"
| Validate: "service_step env ops (Ev_Validate fc address cnt) sy
    (upd_store (\<lambda>s. snd (validate dv fc address cnt s)) sy)"
| Set_Values: "service_step env ops (Ev_Set_Values address vals) sy (commanded_by address vals sy)"
| Disconnect: "service_step env ops (Ev_Disconnect conn) sy (tracked (note_disconnect note_commander_lost conn) sy)"
| Dispatch: "i < length (sy_dispatch sy) \<Longrightarrow>
    service_step env ops (Ev_Dispatch i) sy
      (dispatch_command ops (sy_dispatch sy ! i)
        (sy\<lparr>sy_dispatch := take i (sy_dispatch sy) @ drop (Suc i) (sy_dispatch sy)\<rparr>))"
| Tick_Begin: "\<not> sy_release_pending sy \<Longrightarrow> service_step env ops (Ev_Tick_Begin t) sy (tick_started t sy)"
| Tick_End: "sy_release_pending sy \<Longrightarrow> service_step env ops Ev_Tick_End sy (tick_finished ops sy)"
| Sample_Reset: "sy_sampling sy = At_Start \<Longrightarrow> service_step env ops Ev_Sample_Reset sy (sample_reset ops sy)"
| Sample_Inputs: "sy_sampling sy = At_Inputs \<Longrightarrow> service_step env ops Ev_Sample_Inputs sy (sample_inputs ops sy)"
| Sample_Outputs: "sy_sampling sy = At_Outputs inputs \<Longrightarrow>
    service_step env ops (Ev_Sample_Outputs now_wall) sy (sample_outputs ops now_wall inputs sy)"
| Driver: "env (sy_driver sy) d \<Longrightarrow> service_step env ops Ev_Driver sy (sy\<lparr>sy_driver := d\<rparr>)"

inductive service_run ::
    "('s \<Rightarrow> 's \<Rightarrow> bool) \<Rightarrow> 's driver_ops \<Rightarrow> service_event list \<Rightarrow> 's service \<Rightarrow> 's service \<Rightarrow> bool"
  for env ops where
  Done: "service_run env ops [] sy sy"
| Step: "service_step env ops e sy sy' \<Longrightarrow> service_run env ops es sy' sy'' \<Longrightarrow> service_run env ops (e # es) sy sy''"

inductive_simps service_step_simps:
  "service_step env ops (Ev_Request t conn fc a) sy sy'"
  "service_step env ops (Ev_Validate fc address cnt) sy sy'"
  "service_step env ops (Ev_Set_Values address vals) sy sy'"
  "service_step env ops (Ev_Dispatch i) sy sy'"
  "service_step env ops (Ev_Disconnect conn) sy sy'"

inductive_simps service_run_simps: "service_run env ops [] sy sy''" "service_run env ops (e # es) sy sy''"

inductive_cases service_step_beginE: "service_step env ops (Ev_Tick_Begin t) sy sy'"
inductive_cases service_step_endE: "service_step env ops Ev_Tick_End sy sy'"
inductive_cases service_step_resetE: "service_step env ops Ev_Sample_Reset sy sy'"
inductive_cases service_step_dispatchE: "service_step env ops (Ev_Dispatch i) sy sy'"
inductive_cases service_step_requestE: "service_step env ops (Ev_Request t conn fc a) sy sy'"
inductive_cases service_step_disconnectE: "service_step env ops (Ev_Disconnect conn) sy sy'"
inductive_cases service_run_ConsE: "service_run env ops (e # es) sy sy''"
inductive_cases service_run_NilE: "service_run env ops [] sy sy''"

text \<open>The service as \<open>_amain\<close> starts its tasks: the hardware self-check's verdict is published first.\<close>

definition service_start :: "'s driver_ops \<Rightarrow> RegisterStore \<Rightarrow> real \<Rightarrow> 's \<Rightarrow> 's service" where
  "service_start ops store now_mono d =
     \<lparr>sy_store = (if op_hw_watchdog_ok ops d then store else set_output_fault True store),
      sy_commander = None, sy_watchdog = watchdog_init now_mono, sy_driver = d, sy_dispatch = [],
      sy_outputs_reset = False, sy_failures = 0, sy_saves = [], sy_sampling = At_Start,
      sy_release_pending = False\<rparr>"

section \<open>Shutdown\<close>

datatype finished_task = Stop_Waiter | Critical string

text \<open>\<open>done\<close> of the \<open>asyncio.wait\<close>, in whatever order the set yields it.\<close>

fun shutdown_reason :: "finished_task list \<Rightarrow> string" where
  "shutdown_reason [] = ''shutdown''"
| "shutdown_reason (Stop_Waiter # ts) = shutdown_reason ts"
| "shutdown_reason (Critical name # ts) = name"

definition exit_code :: "string \<Rightarrow> int" where
  "exit_code reason = (if reason = ''shutdown'' then 0 else 1)"

text \<open>
  The end of \<open>_amain\<close>: the release under \<open>wait_for\<close> (\<open>timed_out\<close>: it was cancelled wherever it had got
  to, leaving \<open>partial\<close>), whose failure is dropped.  The driver's \<open>close\<close> follows (\<open>exit_step\<close> in \<open>Shutdown\<close>).
\<close>

definition shutdown_release :: "('s, unit) act \<Rightarrow> ('s \<Rightarrow> 's) option \<Rightarrow> ('s, unit) act" where
  "shutdown_release release timed_out =
     catching (case timed_out of None \<Rightarrow> release | Some partial \<Rightarrow> andthen (modify partial) (\<lambda>_. raise TimeoutError))
       (\<lambda>e. ret ())"

section \<open>Elementary facts\<close>

lemma service_run_append:
  "service_run env ops es sy sy' \<Longrightarrow> service_run env ops es' sy' sy'' \<Longrightarrow> service_run env ops (es @ es') sy sy''"
  by (induction rule: service_run.induct) (auto intro: service_run.intros)

lemma service_run_split:
  "service_run env ops (es @ es') sy sy'' \<Longrightarrow> \<exists>sy'. service_run env ops es sy sy' \<and> service_run env ops es' sy' sy''"
  by (induction es arbitrary: sy) (fastforce elim: service_run_ConsE intro: service_run.intros)+

lemma service_run_invariant:
  assumes "service_run env ops es sy sy'" and "P sy" and "list_all E es"
    and "\<And>e sy sy'. service_step env ops e sy sy' \<Longrightarrow> E e \<Longrightarrow> P sy \<Longrightarrow> P sy'"
  shows "P sy'"
  using assms(1-3) by (induction rule: service_run.induct) (auto intro: assms(4))

text \<open>What each kind of step leaves alone.\<close>

lemma tracked_frame [simp]:
  "sy_store (tracked f sy) = sy_store sy" "sy_driver (tracked f sy) = sy_driver sy"
  "sy_dispatch (tracked f sy) = sy_dispatch sy" "sy_outputs_reset (tracked f sy) = sy_outputs_reset sy"
  "sy_sampling (tracked f sy) = sy_sampling sy" "sy_release_pending (tracked f sy) = sy_release_pending sy"
  by (simp_all add: tracked_def split: prod.split)

lemma tracked_eq: "f (sy_commander sy, sy_watchdog sy) = (c, wd) \<Longrightarrow>
    sy_commander (tracked f sy) = c \<and> sy_watchdog (tracked f sy) = wd"
  by (simp add: tracked_def)

lemma upd_store_id: "(\<And>s. f s = s) \<Longrightarrow> upd_store f sy = sy"
  by (simp add: upd_store_def)

lemma upd_store_frame [simp]:
  "sy_store (upd_store f sy) = f (sy_store sy)" "sy_driver (upd_store f sy) = sy_driver sy"
  "sy_dispatch (upd_store f sy) = sy_dispatch sy" "sy_commander (upd_store f sy) = sy_commander sy"
  "sy_watchdog (upd_store f sy) = sy_watchdog sy" "sy_outputs_reset (upd_store f sy) = sy_outputs_reset sy"
  "sy_sampling (upd_store f sy) = sy_sampling sy" "sy_release_pending (upd_store f sy) = sy_release_pending sy"
  by (simp_all add: upd_store_def)

lemma commanded_by_frame [simp]:
  "sy_driver (commanded_by a vs sy) = sy_driver sy" "sy_commander (commanded_by a vs sy) = sy_commander sy"
  "sy_watchdog (commanded_by a vs sy) = sy_watchdog sy"
  "sy_outputs_reset (commanded_by a vs sy) = sy_outputs_reset sy"
  "sy_sampling (commanded_by a vs sy) = sy_sampling sy"
  "sy_release_pending (commanded_by a vs sy) = sy_release_pending sy"
  by (simp_all add: commanded_by_def split: prod.split)

lemma tick_started_frame [simp]:
  "sy_driver (tick_started t sy) = sy_driver sy" "sy_commander (tick_started t sy) = sy_commander sy"
  "sy_watchdog (tick_started t sy) = sy_watchdog sy" "sy_dispatch (tick_started t sy) = sy_dispatch sy"
  "sy_outputs_reset (tick_started t sy) = sy_outputs_reset sy" "sy_sampling (tick_started t sy) = sy_sampling sy"
  "sy_release_pending (tick_started t sy) = release_due t (sy_watchdog sy)"
  by (simp_all add: tick_started_def tick_begin_def)

lemma tick_started_store:
  "sy_store (tick_started t sy) =
     (if release_due t (sy_watchdog sy) then release_maintained_commands (sy_store sy) else sy_store sy)"
  by (simp add: tick_started_def tick_begin_def)

lemma tick_finished_frame [simp]:
  "sy_store (tick_finished ops sy) = sy_store sy" "sy_commander (tick_finished ops sy) = sy_commander sy"
  "sy_dispatch (tick_finished ops sy) = sy_dispatch sy" "sy_sampling (tick_finished ops sy) = sy_sampling sy"
  "sy_outputs_reset (tick_finished ops sy) = sy_outputs_reset sy" "\<not> sy_release_pending (tick_finished ops sy)"
  "sy_driver (tick_finished ops sy) = snd (release_call (op_drive_outputs ops) (sy_driver sy))"
  "sy_watchdog (tick_finished ops sy) = tick_end (fst (release_call (op_drive_outputs ops) (sy_driver sy))) (sy_watchdog sy)"
  by (simp_all add: tick_finished_def split: prod.split)

text \<open>A tick whose driver call is not overtaken by anything is the watchdog's own tick.\<close>

lemma tick_undisturbed:
  assumes "release_due t (sy_watchdog sy)"
  shows "watchdog_tick (op_drive_outputs ops) t (sy_store sy, sy_watchdog sy, sy_driver sy) =
    (let sy' = tick_finished ops (tick_started t sy) in (sy_store sy', sy_watchdog sy', sy_driver sy'))"
  using assms by (simp add: watchdog_tick_due tick_started_store Let_def)

lemma on_driver_frame [simp]:
  "sy_watchdog (snd (on_driver m sy)) = sy_watchdog sy" "sy_commander (snd (on_driver m sy)) = sy_commander sy"
  "sy_dispatch (snd (on_driver m sy)) = sy_dispatch sy" "sy_store (snd (on_driver m sy)) = sy_store sy"
  "sy_driver (snd (on_driver m sy)) = snd (m (sy_driver sy))"
  "sy_outputs_reset (snd (on_driver m sy)) = sy_outputs_reset sy"
  "fst (on_driver m sy) = fst (m (sy_driver sy))"
  by (simp_all add: on_driver_def split: prod.split)

lemma publish_inputs_frame [simp]:
  "sy_watchdog (publish_inputs w i sy) = sy_watchdog sy" "sy_commander (publish_inputs w i sy) = sy_commander sy"
  "sy_dispatch (publish_inputs w i sy) = sy_dispatch sy" "sy_driver (publish_inputs w i sy) = sy_driver sy"
  "sy_outputs_reset (publish_inputs w i sy) = sy_outputs_reset sy"
  "sy_release_pending (publish_inputs w i sy) = sy_release_pending sy"
  by (simp_all add: publish_inputs_def split: prod.split)

lemma dispatch_frame [simp]:
  "sy_outputs_reset (dispatch_command ops intent sy) = sy_outputs_reset sy"
  "sy_dispatch (dispatch_command ops intent sy) = sy_dispatch sy"
  "sy_watchdog (dispatch_command ops intent sy) = sy_watchdog sy"
  "sy_commander (dispatch_command ops intent sy) = sy_commander sy"
  "sy_sampling (dispatch_command ops intent sy) = sy_sampling sy"
  "sy_release_pending (dispatch_command ops intent sy) = sy_release_pending sy"
  by (auto simp: dispatch_command_def act_simps on_driver_def upd_store_def split: prod.split sum.split)

lemma dispatch_driver:
  "sy_driver (dispatch_command ops intent sy) = snd (op_drive_outputs ops (ci_test_pulse_ms intent) (ci_inhibit intent)
     (ci_force_transfer intent) (ci_bypass_delay_pulse_ms intent) (sy_driver sy))"
  by (simp add: dispatch_command_def act_simps on_driver_def split: prod.split sum.split)

text \<open>The steps of a cycle: none touches the watchdog, the commander or the queue.\<close>

definition loop_view :: "'s service \<Rightarrow> watchdog \<times> nat option \<times> CommandIntent list \<times> bool" where
  "loop_view sy = (sy_watchdog sy, sy_commander sy, sy_dispatch sy, sy_release_pending sy)"

lemma sample_view [simp]:
  "loop_view (sample_reset ops sy) = loop_view sy" "loop_view (sample_inputs ops sy) = loop_view sy"
  "loop_view (sample_outputs ops w i sy) = loop_view sy"
  by (simp_all add: loop_view_def sample_reset_def sample_inputs_def sample_outputs_def sampling_failed_def
      publish_sample_def Let_def split: prod.split sum.split)

lemmas sample_frame [simp] = sample_view [unfolded loop_view_def prod.inject, THEN conjunct1]
  sample_view [unfolded loop_view_def prod.inject, THEN conjunct2, THEN conjunct1]
  sample_view [unfolded loop_view_def prod.inject, THEN conjunct2, THEN conjunct2, THEN conjunct1]
  sample_view [unfolded loop_view_def prod.inject, THEN conjunct2, THEN conjunct2, THEN conjunct2]

lemma sample_driver:
  "sy_driver (sample_reset ops sy) =
     (if sy_outputs_reset sy then sy_driver sy else snd (op_release_all_outputs ops (sy_driver sy)))"
  "sy_driver (sample_inputs ops sy) = snd (op_read_inputs ops (sy_driver sy))"
  "sy_driver (sample_outputs ops w i sy) = snd (op_read_output_state ops (sy_driver sy))"
  by (simp_all add: sample_reset_def sample_inputs_def sample_outputs_def sampling_failed_def
      publish_sample_def Let_def split: prod.split sum.split)

text \<open>A cycle no other task interrupts is \<open>sampling_cycle\<close>.\<close>

definition finish_cycle :: "'s driver_ops \<Rightarrow> int \<Rightarrow> 's service \<Rightarrow> 's service" where
  "finish_cycle ops now_wall sy =
     (let s1 = sample_reset ops sy in
      if sy_sampling s1 \<noteq> At_Inputs then s1
      else (let s2 = sample_inputs ops s1 in
            case sy_sampling s2 of At_Outputs i \<Rightarrow> sample_outputs ops now_wall i s2 | _ \<Rightarrow> s2))"

lemma sampling_cycle_uninterrupted:
  assumes start: "sy_sampling sy = At_Start"
  shows "finish_cycle ops now_wall sy = sampling_cycle ops now_wall sy"
proof -
  note cycle = sampling_cycle_def catching_def sampling_body_def andthen_def modify_def gets_def ret_def on_driver_def
  note phases = finish_cycle_def sample_inputs_def sample_outputs_def sampling_failed_def Let_def
  obtain r d where reset: "startup_reset ops sy = (r, d)" by fastforce
  show ?thesis
  proof (cases r)
    case (Inl e)
    then have "sample_reset ops sy = sampling_failed d" "sy_sampling d = At_Start"
      using reset start
      by (auto simp: startup_reset_def sample_reset_def andthen_def gets_def ret_def modify_def on_driver_def
          split: if_splits prod.splits sum.splits)
    with Inl reset show ?thesis by (simp add: cycle finish_cycle_def sampling_failed_def upd_store_def)
  next
    case (Inr u)
    then have first: "sample_reset ops sy = d\<lparr>sy_sampling := At_Inputs\<rparr>" and at: "sy_sampling d = At_Start"
      using reset start
      by (auto simp: startup_reset_def sample_reset_def andthen_def gets_def ret_def modify_def on_driver_def
          split: if_splits prod.splits sum.splits)
    have same: "d\<lparr>sy_sampling := At_Start\<rparr> = d" using at by simp
    obtain ri d1 where inputs: "op_read_inputs ops (sy_driver d) = (ri, d1)" by fastforce
    show ?thesis
    proof (cases ri)
      case (Inl e)
      with Inr reset first at inputs show ?thesis by (simp add: cycle phases upd_store_def)
    next
      case i: (Inr i)
      obtain ro d2 where outputs: "op_read_output_state ops d1 = (ro, d2)" by fastforce
      show ?thesis
      proof (cases ro)
        case (Inl e)
        with Inr reset first at inputs i outputs show ?thesis by (simp add: cycle phases upd_store_def)
      next
        case o: (Inr out)
        with Inr reset first at inputs i outputs show ?thesis
          by (simp add: cycle phases publish_sample_def upd_store_def publish_inputs_def case_prod_beta)
      qed
    qed
  qed
qed

end
