(* ===== verification/Mock.thy ===== *)
theory Mock
  imports Io_Driver
begin

text \<open>
  \<open>src/src/atspi/io_mock.py\<close>: the in-memory driver, with its release tasks as in the ADAM model, and its
  proof that it is a driver.  How the running event loop takes the registration of a signal handler is part of the
  state (\<open>mk_loop\<close>), as are the handlers registered; the environment delivers the signals.
\<close>

section \<open>State\<close>

definition POSITION_CYCLE :: "string list" where
  "POSITION_CYCLE = [''utility'', ''generator'', ''transferring'', ''unknown'']"

datatype pulse_output = Test_Pulse | Bypass_Pulse

text \<open>A release task: which output it drops, when it wakes, and whether it is done.\<close>

record mock_task =
  mt_which :: pulse_output
  mt_due_ms :: int
  mt_done :: bool

text \<open>
  The running loop, if there is one: what registering and removing a signal's handler does.  \<open>Sig_Unsupported\<close> is an
  exception the code expects (\<open>NotImplementedError\<close>, \<open>OSError\<close>, \<open>ValueError\<close>).
\<close>

datatype unix_signal = SIGUSR1 | SIGUSR2

datatype signal_result = Sig_Done | Sig_Unsupported | Sig_Raises exc

record signal_loop =
  sl_add :: "unix_signal \<Rightarrow> signal_result"
  sl_remove :: "unix_signal \<Rightarrow> signal_result"

definition posix_loop :: signal_loop where
  "posix_loop = \<lparr>sl_add = (\<lambda>_. Sig_Done), sl_remove = (\<lambda>_. Sig_Done)\<rparr>"

record mock =
  mk_position :: string
  mk_normal_available :: bool
  mk_emergency_available :: bool
  mk_engine_start_calling :: bool
  mk_ats_mode :: string
  mk_fault_bits :: int
  mk_test_active :: bool
  mk_inhibit_active :: bool
  mk_force_transfer_active :: bool
  mk_bypass_delay_active :: bool
  mk_test_release_task :: "nat option"
  mk_bypass_release_task :: "nat option"
  mk_tasks :: "mock_task list"
  mk_now_ms :: int
  mk_loop :: "signal_loop option"
  mk_handlers :: "unix_signal set"

definition mock_init :: mock where
  "mock_init =
     \<lparr>mk_position = ''utility'', mk_normal_available = True, mk_emergency_available = True,
      mk_engine_start_calling = False, mk_ats_mode = ''auto'', mk_fault_bits = 0,
      mk_test_active = False, mk_inhibit_active = False, mk_force_transfer_active = False,
      mk_bypass_delay_active = False, mk_test_release_task = None, mk_bypass_release_task = None,
      mk_tasks = [], mk_now_ms = 0,
      mk_loop = Some posix_loop, mk_handlers = {}\<rparr>"

text \<open>
  \<open>_install_signal_handlers\<close>: the first registration the loop does not support ends it, silently; any other exception
  propagates.  \<open>_remove_signal_handlers\<close> tries both.
\<close>

definition register :: "unix_signal \<Rightarrow> (mock, unit) act \<Rightarrow> (mock, unit) act" where
  "register sig rest =
     andthen (gets mk_loop) (\<lambda>loop.
     case loop of
       None \<Rightarrow> ret ()
     | Some l \<Rightarrow>
         (case sl_add l sig of
            Sig_Done \<Rightarrow> andthen (modify (mk_handlers_update (insert sig))) (\<lambda>_. rest)
          | Sig_Unsupported \<Rightarrow> ret ()
          | Sig_Raises e \<Rightarrow> raise e))"

definition install_signal_handlers :: "(mock, unit) act" where
  "install_signal_handlers = register SIGUSR1 (register SIGUSR2 (ret ()))"

definition unregister :: "unix_signal \<Rightarrow> (mock, unit) act" where
  "unregister sig =
     andthen (gets mk_loop) (\<lambda>loop.
     case loop of
       None \<Rightarrow> ret ()
     | Some l \<Rightarrow>
         (case sl_remove l sig of
            Sig_Done \<Rightarrow> modify (mk_handlers_update (\<lambda>hs. hs - {sig}))
          | Sig_Unsupported \<Rightarrow> ret ()
          | Sig_Raises e \<Rightarrow> raise e))"

definition remove_signal_handlers :: "(mock, unit) act" where
  "remove_signal_handlers = andthen (unregister SIGUSR1) (\<lambda>_. unregister SIGUSR2)"

definition mock_connect :: "(mock, bool) act" where
  "mock_connect = andthen install_signal_handlers (\<lambda>_. ret True)"

text \<open>\<open>cancel()\<close> on a task: a no-op where it is done.\<close>

definition mock_cancel :: "nat option \<Rightarrow> mock_task list \<Rightarrow> mock_task list" where
  "mock_cancel slot tasks =
     (case slot of None \<Rightarrow> tasks
      | Some k \<Rightarrow> if k < length tasks then tasks[k := (tasks ! k)\<lparr>mt_done := True\<rparr>] else tasks)"

definition mock_cancel_all :: "mock \<Rightarrow> mock" where
  "mock_cancel_all m = m\<lparr>mk_tasks :=
     mock_cancel (mk_bypass_release_task m) (mock_cancel (mk_test_release_task m) (mk_tasks m))\<rparr>"

definition mock_close :: "(mock, unit) act" where
  "mock_close = andthen (modify mock_cancel_all) (\<lambda>_. remove_signal_handlers)"

section \<open>Simulated contacts\<close>

definition cycle_position :: "mock \<Rightarrow> mock" where
  "cycle_position m =
     (let idx = (if mk_position m \<in> set POSITION_CYCLE
                 then int (length (takeWhile (\<lambda>p. p \<noteq> mk_position m) POSITION_CYCLE)) else - 1)
      in m\<lparr>mk_position := POSITION_CYCLE ! nat ((idx + 1) mod int (length POSITION_CYCLE))\<rparr>)"

definition toggle_normal_available :: "mock \<Rightarrow> mock" where
  "toggle_normal_available m =
     m\<lparr>mk_normal_available := \<not> mk_normal_available m, mk_engine_start_calling := mk_normal_available m\<rparr>"

definition set_normal_available :: "bool \<Rightarrow> mock \<Rightarrow> mock" where
  "set_normal_available available m =
     m\<lparr>mk_normal_available := available, mk_engine_start_calling := \<not> available\<rparr>"

definition set_position :: "string \<Rightarrow> (mock, unit) act" where
  "set_position position =
     (if position \<notin> set POSITION_CYCLE then raise ValueError
      else modify (mk_position_update (\<lambda>_. position)))"

section \<open>The driver's operations\<close>

definition mock_read_inputs :: "(mock, InputSnapshot) act" where
  "mock_read_inputs = gets (\<lambda>m.
     \<lparr>in_position = mk_position m, in_normal_available = mk_normal_available m,
      in_emergency_available = mk_emergency_available m,
      in_engine_start_calling = mk_engine_start_calling m, in_ats_mode = mk_ats_mode m,
      in_fault_bits = mk_fault_bits m\<rparr>)"

definition mock_read_output_state :: "(mock, OutputState) act" where
  "mock_read_output_state = gets (\<lambda>m.
     \<lparr>out_test_active = mk_test_active m, out_inhibit_active = mk_inhibit_active m,
      out_force_transfer_active = mk_force_transfer_active m,
      out_bypass_delay_active = mk_bypass_delay_active m\<rparr>)"

definition mock_check_output_consistency :: "OutputState \<Rightarrow> mock \<Rightarrow> bool" where
  "mock_check_output_consistency actual m = True"

definition mock_hw_watchdog_ok :: "mock \<Rightarrow> bool" where
  "mock_hw_watchdog_ok m = True"

text \<open>\<open>_pulse\<close>: a call while the output is active is ignored.\<close>

definition mock_pulse :: "pulse_output \<Rightarrow> int \<Rightarrow> mock \<Rightarrow> mock" where
  "mock_pulse which duration_ms m =
     (let ms = max 500 (min 1500 duration_ms);
          task = \<lparr>mt_which = which, mt_due_ms = mk_now_ms m + ms, mt_done = False\<rparr>
      in case which of
           Test_Pulse \<Rightarrow>
             if mk_test_active m then m
             else m\<lparr>mk_test_active := True, mk_test_release_task := Some (length (mk_tasks m)),
                    mk_tasks := mk_tasks m @ [task]\<rparr>
         | Bypass_Pulse \<Rightarrow>
             if mk_bypass_delay_active m then m
             else m\<lparr>mk_bypass_delay_active := True, mk_bypass_release_task := Some (length (mk_tasks m)),
                    mk_tasks := mk_tasks m @ [task]\<rparr>)"

definition when_some :: "'a option \<Rightarrow> ('a \<Rightarrow> 's \<Rightarrow> 's) \<Rightarrow> 's \<Rightarrow> 's" where
  "when_some v f s = (case v of None \<Rightarrow> s | Some x \<Rightarrow> f x s)"

definition mock_drive_outputs ::
    "int option \<Rightarrow> bool option \<Rightarrow> bool option \<Rightarrow> int option \<Rightarrow> (mock, unit) act" where
  "mock_drive_outputs test_pulse_ms inhibit force_transfer bypass_delay_pulse_ms =
     modify (\<lambda>m.
       when_some bypass_delay_pulse_ms (mock_pulse Bypass_Pulse)
        (when_some force_transfer (\<lambda>v. mk_force_transfer_active_update (\<lambda>_. v))
          (when_some inhibit (\<lambda>v. mk_inhibit_active_update (\<lambda>_. v))
            (when_some test_pulse_ms (mock_pulse Test_Pulse) m))))"

definition mock_release_all_outputs :: "(mock, unit) act" where
  "mock_release_all_outputs = modify (\<lambda>m. (mock_cancel_all m)
     \<lparr>mk_test_active := False, mk_inhibit_active := False, mk_force_transfer_active := False,
      mk_bypass_delay_active := False\<rparr>)"

text \<open>\<open>_release\<close>: task \<open>k\<close> given the chance to run at the current time.\<close>

definition mock_release_step :: "nat \<Rightarrow> mock \<Rightarrow> mock" where
  "mock_release_step k m =
     (if k < length (mk_tasks m) \<and> \<not> mt_done (mk_tasks m ! k) \<and> mt_due_ms (mk_tasks m ! k) \<le> mk_now_ms m
      then (let m' = m\<lparr>mk_tasks := (mk_tasks m)[k := (mk_tasks m ! k)\<lparr>mt_done := True\<rparr>]\<rparr>
            in case mt_which (mk_tasks m ! k) of
                 Test_Pulse \<Rightarrow> m'\<lparr>mk_test_active := False\<rparr>
               | Bypass_Pulse \<Rightarrow> m'\<lparr>mk_bypass_delay_active := False\<rparr>)
      else m)"

section \<open>The driver interface\<close>

fun mock_commanded :: "mock \<Rightarrow> command_output \<Rightarrow> bool option" where
  "mock_commanded m Test = Some (mk_test_active m)"
| "mock_commanded m Force_Transfer = Some (mk_force_transfer_active m)"
| "mock_commanded m Inhibit = Some (mk_inhibit_active m)"
| "mock_commanded m Bypass_Delay = Some (mk_bypass_delay_active m)"

lemma mock_pulse_frame [simp]:
  "mk_inhibit_active (mock_pulse which ms m) = mk_inhibit_active m"
  "mk_force_transfer_active (mock_pulse which ms m) = mk_force_transfer_active m"
  by (simp_all add: mock_pulse_def Let_def split: pulse_output.split)

lemma mock_when_pulse_frame [simp]:
  "mk_inhibit_active (when_some v (mock_pulse which) m) = mk_inhibit_active m"
  "mk_force_transfer_active (when_some v (mock_pulse which) m) = mk_force_transfer_active m"
  by (simp_all add: when_some_def split: option.split)

text \<open>Registering handlers touches nothing else; on a loop that supports it, both are in place between connect and close.\<close>

abbreviation connected_mock :: mock where
  "connected_mock \<equiv> mock_init\<lparr>mk_handlers := {SIGUSR1, SIGUSR2}\<rparr>"

lemma mock_connected: "mock_connect mock_init = (Inr True, connected_mock)"
  by (simp add: mock_connect_def install_signal_handlers_def register_def mock_init_def posix_loop_def act_simps)
    (auto simp: insert_commute)

lemma mock_closed: "mock_close (mock_init\<lparr>mk_handlers := hs\<rparr>) = (Inr (), mock_init\<lparr>mk_handlers := hs - {SIGUSR1, SIGUSR2}\<rparr>)"
  by (simp add: mock_close_def remove_signal_handlers_def unregister_def mock_init_def posix_loop_def act_simps
      mock_cancel_all_def mock_cancel_def) auto

lemma mock_commanded_handlers [simp]: "mock_commanded (mk_handlers_update f m) = mock_commanded m"
proof
  show "mock_commanded (mk_handlers_update f m) out = mock_commanded m out" for out by (cases out) simp_all
qed

lemma mock_signals_frame:
  "keeps (\<lambda>m. mock_commanded m = c) install_signal_handlers" "keeps (\<lambda>m. mock_commanded m = c) remove_signal_handlers"
  unfolding install_signal_handlers_def remove_signal_handlers_def register_def unregister_def
  by (auto intro!: hoare split: option.split signal_result.split)

interpretation mock: io_driver mock_read_output_state mock_drive_outputs mock_release_all_outputs
    mock_check_output_consistency mock_hw_watchdog_ok mock_commanded mock_read_inputs mock_connect mock_close
proof unfold_locales
  fix out
  show "mock_release_all_outputs s = (Inr (), s') \<Longrightarrow> mock_commanded s' out = Some False" for s s'
    by (cases out) (auto simp: mock_release_all_outputs_def act_simps)
  show "mock_commanded (snd (mock_release_all_outputs s)) out \<in> {mock_commanded s out, Some False}" for s
    by (cases out) (auto simp: mock_release_all_outputs_def act_simps)
  have "mock_commanded (mock_cancel_all m) out = mock_commanded m out" for m out
    by (cases out) (simp_all add: mock_cancel_all_def)
  then have cancel: "mock_commanded (mock_cancel_all m) = mock_commanded m" for m by (rule ext)
  have frame: "keeps (\<lambda>m. mock_commanded m = c) mock_close" "keeps (\<lambda>m. mock_commanded m = c) mock_connect" for c
    unfolding mock_close_def mock_connect_def by (intro hoare mock_signals_frame; simp add: cancel)+
  show "mock_commanded (snd (mock_close s)) = mock_commanded s" "mock_commanded (snd (mock_connect s)) = mock_commanded s" for s
    using keepsD [OF frame(1) [of "mock_commanded s"], of s] keepsD [OF frame(2) [of "mock_commanded s"], of s] by simp_all
qed (auto simp: mock_hw_watchdog_ok_def mock_drive_outputs_def mock_release_all_outputs_def
    mock_read_inputs_def mock_read_output_state_def act_simps when_some_def split: option.splits)

definition mock_ops :: "mock driver_ops" where
  "mock_ops =
     \<lparr>op_connect = mock_connect, op_close = mock_close, op_read_inputs = mock_read_inputs, op_read_output_state = mock_read_output_state,
      op_drive_outputs = mock_drive_outputs, op_release_all_outputs = mock_release_all_outputs,
      op_check_output_consistency = mock_check_output_consistency, op_hw_watchdog_ok = mock_hw_watchdog_ok\<rparr>"

end
