(* ===== verification/Modbus_Link.thy ===== *)
theory Modbus_Link
  imports Prelude
begin

text \<open>
  The Modbus client both hardware drivers sit on.  \<open>pymodbus\<close>, the network and the unit behind it are
  not in the repository: they are the world \<open>'w\<close> and the record \<open>modbus_api\<close>, a parameter of every
  driver operation.  A library call returns a value or raises a \<open>lib_exc\<close>, and moves the world on;
  what it does is left open.  \<open>link\<close> is the part of the driver objects (\<open>IOAdamDriver\<close>,
  \<open>AscoSerialReader\<close>) that both have: whether \<open>_client\<close> is set and the flag \<open>_connected\<close>; the
  driver records extend it.
\<close>

section \<open>The library's interface\<close>

text \<open>\<open>rr.isError()\<close> or a response with its payload; the two bit readers of \<open>_DI_READ_FN\<close>.\<close>

datatype 'a response = ErrorResponse | Response 'a

datatype bit_reader = Read_Coils | Read_Discrete_Inputs

record 'w modbus_api =
  api_new :: "'w \<Rightarrow> 'w"
  api_connect :: "'w \<Rightarrow> (lib_exc + bool) \<times> 'w"
  api_connected :: "'w \<Rightarrow> bool"
  api_close :: "'w \<Rightarrow> (lib_exc + unit) \<times> 'w"
  api_read_bits :: "bit_reader \<Rightarrow> int \<Rightarrow> int \<Rightarrow> int \<Rightarrow> 'w \<Rightarrow> (lib_exc + bool list response) \<times> 'w"
  api_write_coil :: "int \<Rightarrow> bool \<Rightarrow> int \<Rightarrow> 'w \<Rightarrow> (lib_exc + unit response) \<times> 'w"
  api_read_holding :: "int \<Rightarrow> int \<Rightarrow> int \<Rightarrow> 'w \<Rightarrow> (lib_exc + int list response) \<times> 'w"
  api_monotonic :: "'w \<Rightarrow> real"

section \<open>The link\<close>

record 'w link =
  lk_env :: 'w
  lk_client :: bool
  lk_connected :: bool

definition call :: "('w \<Rightarrow> (lib_exc + 'a) \<times> 'w) \<Rightarrow> (('w, 'z) link_scheme, 'a) act" where
  "call f = (\<lambda>d. case f (lk_env d) of (r, w) \<Rightarrow> (map_sum Lib id r, d\<lparr>lk_env := w\<rparr>))"

lemma map_sum_Lib [simp]: "map_sum Lib id r = Inr x \<longleftrightarrow> r = Inr x"
  by (cases r) simp_all

text \<open>The exceptions of \<open>except (TimeoutError, ModbusException, ConnectionError)\<close>.\<close>

fun is_link_failure :: "exc \<Rightarrow> bool" where
  "is_link_failure (Lib LibTimeout) = True"
| "is_link_failure (Lib LibModbus) = True"
| "is_link_failure (Lib LibConnection) = True"
| "is_link_failure ConnectionError = True"
| "is_link_failure TimeoutError = True"
| "is_link_failure _ = False"

definition mark_down :: "(('w, 'z) link_scheme, unit) act" where
  "mark_down = modify (lk_connected_update (\<lambda>_. False))"

text \<open>\<open>if rr.isError(): raise OSError\<close>.\<close>

definition checked_response :: "'a response \<Rightarrow> (('w, 'z) link_scheme, 'a) act" where
  "checked_response rr = (case rr of ErrorResponse \<Rightarrow> raise OSError | Response x \<Rightarrow> ret x)"

text \<open>A request on an open link: a link failure marks the link down and becomes \<open>OSError\<close>.\<close>

definition request :: "('w \<Rightarrow> (lib_exc + 'a response) \<times> 'w) \<Rightarrow> (('w, 'z) link_scheme, 'a) act" where
  "request f =
     andthen
       (catching (call f)
         (\<lambda>e. if is_link_failure e then andthen mark_down (\<lambda>_. raise OSError) else raise e))
       checked_response"

text \<open>The shared part of \<open>connect\<close>: create the client if there is none, try to open it.\<close>

definition open_link :: "'w modbus_api \<Rightarrow> (('w, 'z) link_scheme, bool) act" where
  "open_link api =
     andthen (gets lk_client) (\<lambda>present.
     andthen (if present then ret () else
                modify (\<lambda>d. d\<lparr>lk_env := api_new api (lk_env d), lk_client := True\<rparr>)) (\<lambda>_.
     andthen (catching (call (api_connect api)) (\<lambda>_. ret False)) (\<lambda>ok.
     andthen (modify (lk_connected_update (\<lambda>_. ok))) (\<lambda>_.
     ret ok))))"

text \<open>\<open>_ensure_connected\<close>, over the driver's own \<open>connect\<close>.\<close>

definition ensure_connected ::
    "'w modbus_api \<Rightarrow> (('w, 'z) link_scheme, bool) act \<Rightarrow> (('w, 'z) link_scheme, unit) act" where
  "ensure_connected api connect =
     andthen (gets (\<lambda>d. (lk_connected d, lk_client d, api_connected api (lk_env d)))) (\<lambda>(up, present, alive).
     if up \<and> present \<and> alive then ret ()
     else
       andthen (if \<not> up \<and> present
                then andthen (catching (call (api_close api)) (\<lambda>_. ret ()))
                       (\<lambda>_. modify (lk_client_update (\<lambda>_. False)))
                else ret ()) (\<lambda>_.
       andthen connect (\<lambda>_.
       andthen (gets lk_connected) (\<lambda>up. if up then ret () else raise ConnectionError))))"

text \<open>\<open>close\<close>: the client's own failure to close propagates, with the client still set.\<close>

definition close_link :: "'w modbus_api \<Rightarrow> (('w, 'z) link_scheme, unit) act" where
  "close_link api =
     andthen (gets lk_client) (\<lambda>present.
     andthen (if present
              then andthen (call (api_close api)) (\<lambda>_. modify (lk_client_update (\<lambda>_. False)))
              else ret ()) (\<lambda>_.
     mark_down))"

section \<open>Rules\<close>

lemma keeps_checked_response [hoare]: "keeps P (checked_response rr)"
  by (auto simp: checked_response_def keeps_pure split: response.split)

text \<open>Each rule asks only for what its action does to the world.\<close>

lemma keeps_call:
  assumes "\<And>d. P d \<Longrightarrow> P (d\<lparr>lk_env := snd (f (lk_env d))\<rparr>)"
  shows "keeps P (call f)"
  by (rule keepsI) (use assms in \<open>simp add: call_def case_prod_beta\<close>)

lemma keeps_mark_down:
  assumes "\<And>d. P d \<Longrightarrow> P (d\<lparr>lk_connected := False\<rparr>)"
  shows "keeps P mark_down"
  unfolding mark_down_def by (rule keeps_modify) (use assms in simp)

lemma keeps_request:
  assumes "\<And>d. P d \<Longrightarrow> P (d\<lparr>lk_env := snd (f (lk_env d))\<rparr>)"
    and "\<And>d. P d \<Longrightarrow> P (d\<lparr>lk_connected := False\<rparr>)"
  shows "keeps P (request f)"
  unfolding request_def by (intro hoare keeps_call keeps_mark_down) (auto intro: assms)

lemma keeps_open_link:
  assumes "\<And>d. P d \<Longrightarrow> P (d\<lparr>lk_env := api_new api (lk_env d), lk_client := True\<rparr>)"
    and "\<And>d. P d \<Longrightarrow> P (d\<lparr>lk_env := snd (api_connect api (lk_env d))\<rparr>)"
    and "\<And>d u. P d \<Longrightarrow> P (d\<lparr>lk_connected := u\<rparr>)"
  shows "keeps P (open_link api)"
  unfolding open_link_def
  by (intro hoare keeps_call) (auto intro: assms)

lemma keeps_ensure_connected:
  assumes "\<And>d. P d \<Longrightarrow> P (d\<lparr>lk_env := snd (api_close api (lk_env d))\<rparr>)"
    and "\<And>d u. P d \<Longrightarrow> P (d\<lparr>lk_client := u\<rparr>)"
    and "keeps P connect"
  shows "keeps P (ensure_connected api connect)"
  unfolding ensure_connected_def
  by (auto intro!: hoare keeps_call assms split: prod.split)

lemma keeps_close_link:
  assumes "\<And>d. P d \<Longrightarrow> P (d\<lparr>lk_env := snd (api_close api (lk_env d))\<rparr>)"
    and "\<And>d u. P d \<Longrightarrow> P (d\<lparr>lk_client := u\<rparr>)"
    and "\<And>d u. P d \<Longrightarrow> P (d\<lparr>lk_connected := u\<rparr>)"
  shows "keeps P (close_link api)"
  unfolding close_link_def
  by (auto intro!: hoare keeps_call keeps_mark_down assms)

lemmas keeps_link = keeps_call keeps_mark_down keeps_request keeps_open_link keeps_ensure_connected
  keeps_close_link

text \<open>What a link-level action may raise.\<close>

fun is_lib :: "exc \<Rightarrow> bool" where
  "is_lib (Lib _) = True"
| "is_lib _ = False"

lemma raises_call: "raises_only is_lib (call f)"
  by (auto simp: raises_only_def triple_def call_def split: prod.split sum.split elim: sum.map_cong0)
    (metis is_lib.simps(1) map_sum.simps Inl_inject sum.exhaust sum.simps(4))

lemma raises_request: "raises_only (\<lambda>e. e = OSError \<or> is_lib e) (request f)"
  unfolding request_def checked_response_def mark_down_def
  by (auto intro!: hoare raises_catching [OF raises_call] split: response.split)

end
