(* ===== verification/Debounce.thy ===== *)
theory Debounce
  imports Prelude
begin

text \<open>
  \<open>_Debouncer\<close> of \<open>src/src/atspi/io_adam.py\<close>: the per-channel integrator for the level contacts, and
  its equivalence with a declarative reading of the raw history.
\<close>

section \<open>The debouncer\<close>

record debouncer =
  db_samples :: int
  db_stable :: "bool list option"
  db_candidate_count :: "int list"

definition debouncer_init :: "int \<Rightarrow> debouncer" where
  "debouncer_init samples =
     \<lparr>db_samples = max 1 samples, db_stable = None, db_candidate_count = []\<rparr>"

text \<open>The loop body for one channel: its level, its stable value and its counter.\<close>

definition debounce_channel :: "int \<Rightarrow> bool \<Rightarrow> bool \<times> int \<Rightarrow> bool \<times> int" where
  "debounce_channel samples level sc =
     (case sc of (stab, count) \<Rightarrow>
        if level = stab then (stab, 0)
        else (let count = count + 1 in
              if count \<ge> samples then (level, 0) else (stab, count)))"

definition debounce_update :: "bool list \<Rightarrow> debouncer \<Rightarrow> bool list \<times> debouncer" where
  "debounce_update raw d =
     (let seeded = d\<lparr>db_stable := Some raw, db_candidate_count := map (\<lambda>_. 0) raw\<rparr> in
      case db_stable d of
        None \<Rightarrow> (raw, seeded)
      | Some stab \<Rightarrow>
          if length stab \<noteq> length raw then (raw, seeded)
          else (let cs = map2 (debounce_channel (db_samples d)) raw (zip stab (db_candidate_count d))
                in (map fst cs, d\<lparr>db_stable := Some (map fst cs), db_candidate_count := map snd cs\<rparr>)))"

section \<open>One channel against its history\<close>

definition channel_run :: "int \<Rightarrow> bool list \<Rightarrow> bool \<times> int \<Rightarrow> bool \<times> int" where
  "channel_run n levels sc = fold (debounce_channel n) levels sc"

text \<open>
  The specification, on the history with the newest sample first: the level of the newest window of
  \<open>n\<close> equal consecutive samples, and the baseline where there is no such window.
\<close>

fun last_settled :: "nat \<Rightarrow> bool \<Rightarrow> bool list \<Rightarrow> bool" where
  "last_settled n base [] = base"
| "last_settled n base (x # xs) =
     (if n \<le> length (takeWhile (\<lambda>y. y = x) (x # xs)) then x else last_settled n base xs)"

text \<open>The counter is the number of newest samples that differ from the published level.\<close>

lemma channel_run_spec:
  assumes "0 < n"
  shows "channel_run (int n) levels (base, 0) =
    (last_settled n base (rev levels),
     int (length (takeWhile (\<lambda>y. y \<noteq> last_settled n base (rev levels)) (rev levels)))) \<and>
    length (takeWhile (\<lambda>y. y \<noteq> last_settled n base (rev levels)) (rev levels)) < n"
proof (induction levels rule: rev_induct)
  case Nil
  with assms show ?case by (simp add: channel_run_def)
next
  case (snoc x levels)
  define st where "st = last_settled n base (rev levels)"
  define c where "c = length (takeWhile (\<lambda>y. y \<noteq> st) (rev levels))"
  have run: "channel_run (int n) (levels @ [x]) (base, 0) = debounce_channel (int n) x (st, int c)"
    using snoc.IH by (simp add: channel_run_def st_def c_def)
  have c: "c < n" using snoc.IH by (simp add: st_def c_def)
  show ?case
  proof (cases "x = st")
    case True
    then have "last_settled n base (rev (levels @ [x])) = st" by (simp add: st_def)
    with True run assms show ?thesis by (simp add: debounce_channel_def)
  next
    case False
    then have "(\<lambda>y. y = x) = (\<lambda>y. y \<noteq> st)" by auto
    then have "length (takeWhile (\<lambda>y. y = x) (rev (levels @ [x]))) = Suc c"
      using False by (simp add: c_def)
    then have settled: "last_settled n base (rev (levels @ [x])) = (if n \<le> Suc c then x else st)"
      by (simp add: st_def)
    have window: "rev (levels @ [x]) = x # rev levels" by simp
    show ?thesis
    proof (cases "n \<le> Suc c")
      case True
      then have "last_settled n base (rev (levels @ [x])) = x" using settled by simp
      moreover have "debounce_channel (int n) x (st, int c) = (x, 0)"
        using True False by (simp add: debounce_channel_def)
      ultimately show ?thesis unfolding run using assms by (simp only: window) simp
    next
      case below: False
      then have "last_settled n base (rev (levels @ [x])) = st" using settled by simp
      moreover have "debounce_channel (int n) x (st, int c) = (st, int (Suc c))"
        using below False by (simp add: debounce_channel_def)
      ultimately show ?thesis unfolding run using below False by (simp only: window) (simp add: c_def)
    qed
  qed
qed

section \<open>All channels\<close>

fun debounce_run :: "bool list list \<Rightarrow> debouncer \<Rightarrow> debouncer" where
  "debounce_run [] d = d"
| "debounce_run (raw # raws) d = debounce_run raws (snd (debounce_update raw d))"

definition channels :: "debouncer \<Rightarrow> (bool \<times> int) list" where
  "channels d = (case db_stable d of None \<Rightarrow> [] | Some st \<Rightarrow> zip st (db_candidate_count d))"

definition db_wf :: "nat \<Rightarrow> debouncer \<Rightarrow> bool" where
  "db_wf k d \<longleftrightarrow> (\<exists>st. db_stable d = Some st \<and> length st = k \<and> length (db_candidate_count d) = k)"

lemma debounce_update_seed:
  "snd (debounce_update raw (debouncer_init n)) =
     \<lparr>db_samples = max 1 n, db_stable = Some raw, db_candidate_count = map (\<lambda>_. 0) raw\<rparr>"
  by (simp add: debounce_update_def debouncer_init_def)

lemma debounce_update_channels:
  assumes "db_wf (length raw) d"
  shows "db_wf (length raw) (snd (debounce_update raw d))"
    and "db_samples (snd (debounce_update raw d)) = db_samples d"
    and "i < length raw \<Longrightarrow> channels (snd (debounce_update raw d)) ! i =
      debounce_channel (db_samples d) (raw ! i) (channels d ! i)"
    and "db_stable (snd (debounce_update raw d)) = Some (fst (debounce_update raw d))"
  using assms by (auto simp: db_wf_def debounce_update_def channels_def Let_def)

lemma debounce_run_channels:
  assumes "list_all (\<lambda>raw. length raw = k) raws" and "db_wf k d" and "i < k"
  shows "db_wf k (debounce_run raws d) \<and>
    channels (debounce_run raws d) ! i = channel_run (db_samples d) (map (\<lambda>raw. raw ! i) raws) (channels d ! i)"
  using assms
proof (induction raws arbitrary: d)
  case Nil
  then show ?case by (simp add: channel_run_def)
next
  case (Cons raw raws)
  then have "length raw = k" by simp
  with Cons debounce_update_channels [of raw d] show ?case by (simp add: channel_run_def)
qed

text \<open>
  C15: the debouncer computes what its documentation says.  After a first read that seeds the baseline and
  any number of further reads of the same width, each channel publishes the level of its newest
  window of \<open>samples\<close> equal consecutive raw samples, and the seeded level while there has been none: a
  shorter burst never shows, a change that holds for \<open>samples\<close> cycles always does, and a
  non-positive configured count behaves as 1.
\<close>

theorem debounce_publishes_last_settled:
  assumes "list_all (\<lambda>raw. length raw = length first) raws" and "i < length first"
  shows "\<exists>st. db_stable (debounce_run (first # raws) (debouncer_init samples)) = Some st \<and>
    length st = length first \<and>
    st ! i = last_settled (nat (max 1 samples)) (first ! i) (rev (map (\<lambda>raw. raw ! i) raws))"
proof -
  let ?d = "snd (debounce_update first (debouncer_init samples))"
  have d: "db_wf (length first) ?d" "channels ?d ! i = (first ! i, 0)" "db_samples ?d = max 1 samples"
    using assms(2) by (simp_all add: debounce_update_seed db_wf_def channels_def)
  from debounce_run_channels [OF assms(1) d(1) assms(2)] d
  have wf: "db_wf (length first) (debounce_run raws ?d)"
    and c: "channels (debounce_run raws ?d) ! i = channel_run (max 1 samples) (map (\<lambda>raw. raw ! i) raws) (first ! i, 0)"
    by simp_all
  have "int (nat (max 1 samples)) = max 1 samples" by simp
  with channel_run_spec [of "nat (max 1 samples)" "map (\<lambda>raw. raw ! i) raws" "first ! i"]
  have "fst (channel_run (max 1 samples) (map (\<lambda>raw. raw ! i) raws) (first ! i, 0)) =
    last_settled (nat (max 1 samples)) (first ! i) (rev (map (\<lambda>raw. raw ! i) raws))" by simp
  moreover from wf obtain st where st: "db_stable (debounce_run raws ?d) = Some st" "length st = length first"
      "length (db_candidate_count (debounce_run raws ?d)) = length first"
    by (auto simp: db_wf_def)
  moreover have "st ! i = fst (channels (debounce_run raws ?d) ! i)"
    using st assms(2) by (simp add: channels_def)
  ultimately show ?thesis using c by simp
qed

lemma debounce_publishes_last_settled_witness:
  "\<exists>st. db_stable (debounce_run [[False], [True], [False], [True], [True], [True]] (debouncer_init 3)) = Some st \<and>
    st ! 0 = True"
  using debounce_publishes_last_settled [of "[False]" "[[True], [False], [True], [True], [True]]" 0 3]
  by auto

end
