(* ===== verification/Adam.thy ===== *)
theory Adam
  imports Debounce Modbus_Link Io_Driver
begin

text \<open>
  \<open>src/src/atspi/io_adam.py\<close>: the ADAM-6060 driver.  The record extends the Modbus link with the
  driver's own attributes; each coroutine is an action on it.  A pulse-release task is a suspended
  coroutine of the event loop: \<open>ad_tasks\<close> holds them in creation order and \<open>adam_release_step\<close> is what
  one does when it wakes, so that the interleavings of tasks and driver calls are the sequences of
  operations in \<open>adam_run\<close> (Properties are in \<open>Adam_Safety\<close>).  A cancelled task is finished at once; the
  log lines are not modelled.
\<close>

section \<open>Addresses and limits\<close>

definition DI_COIL_BASE :: int where [simp]: "DI_COIL_BASE = 0x0000"
definition DO_COIL_BASE :: int where [simp]: "DO_COIL_BASE = 0x0010"

definition DI_LOAD_DISCONNECT :: nat where [simp]: "DI_LOAD_DISCONNECT = 0"
definition DI_ON_NORMAL :: nat where [simp]: "DI_ON_NORMAL = 1"
definition DI_ON_EMERGENCY :: nat where [simp]: "DI_ON_EMERGENCY = 2"
definition DI_NORMAL_AVAIL :: nat where [simp]: "DI_NORMAL_AVAIL = 3"
definition DI_EMERGENCY_AVAIL :: nat where [simp]: "DI_EMERGENCY_AVAIL = 4"
definition DI_ENGINE_START :: nat where [simp]: "DI_ENGINE_START = 5"

definition DO_TEST :: nat where [simp]: "DO_TEST = 0"
definition DO_FORCE_TRANSFER :: nat where [simp]: "DO_FORCE_TRANSFER = 1"
definition DO_INHIBIT :: nat where [simp]: "DO_INHIBIT = 2"
definition DO_BYPASS_DELAY :: nat where [simp]: "DO_BYPASS_DELAY = 3"

definition PULSE_MIN_MS :: int where [simp]: "PULSE_MIN_MS = 500"
definition PULSE_MAX_MS :: int where [simp]: "PULSE_MAX_MS = 1500"
definition TRANSFERRING_HOLD_S :: real where [simp]: "TRANSFERRING_HOLD_S = 2"
definition OUTPUT_SETTLING_S :: real where [simp]: "OUTPUT_SETTLING_S = 1 / 2"
definition PULSE_RELEASE_RETRY_S :: real where [simp]: "PULSE_RELEASE_RETRY_S = 1 / 4"

definition VALID_ASSUMED_MODES :: "string list" where
  "VALID_ASSUMED_MODES = [''auto'', ''manual'', ''test'', ''unknown'']"

text \<open>\<open>VALID_DI_READS\<close> and \<open>_DI_READ_FN\<close> have the same keys: \<open>None\<close> is a name outside them.\<close>

definition DI_READ_FN :: "string \<Rightarrow> bit_reader option" where
  "DI_READ_FN name =
     (if name = ''coils'' then Some Read_Coils
      else if name = ''discrete_inputs'' then Some Read_Discrete_Inputs else None)"

section \<open>The host-watchdog readback\<close>

record HwWatchdogConfig =
  enable_register :: "int option"
  enable_expected :: int
  timeout_register :: "int option"
  timeout_scale_s :: real
  timeout_min_s :: real
  timeout_max_s :: real
  safety_value_register_base :: "int option"
  safety_value_count :: int

definition default_hw_watchdog_config :: HwWatchdogConfig where
  "default_hw_watchdog_config =
     \<lparr>enable_register = None, enable_expected = 1, timeout_register = None, timeout_scale_s = 1 / 10,
      timeout_min_s = 5, timeout_max_s = 10, safety_value_register_base = None, safety_value_count = 6\<rparr>"

definition is_configured :: "HwWatchdogConfig \<Rightarrow> bool" where
  "is_configured cfg \<longleftrightarrow> enable_register cfg \<noteq> None \<and> timeout_register cfg \<noteq> None \<and>
     safety_value_register_base cfg \<noteq> None"

datatype hw_problem = Not_Enabled int | Timeout_Outside real | Safety_Not_Off "(int \<times> int) list"

datatype hw_detail =
    Readback_Waived
  | Not_Yet_Verified
  | Registers_Not_Configured
  | Registers_Unreadable exc
  | Problems "hw_problem list"
  | Armed real int

text \<open>The checks on the three values read back (\<open>problems\<close> of \<open>_verify_hw_watchdog\<close>).\<close>

definition hw_problems :: "HwWatchdogConfig \<Rightarrow> int \<Rightarrow> int \<Rightarrow> int list \<Rightarrow> hw_problem list" where
  "hw_problems cfg enable_raw timeout_raw safety_raw =
     (let timeout_s = of_int timeout_raw * timeout_scale_s cfg;
          base = (case safety_value_register_base cfg of None \<Rightarrow> 0 | Some b \<Rightarrow> b);
          nonzero = [(base + int i, v). (i, v) \<leftarrow> enumerate 0 safety_raw, v \<noteq> 0]
      in (if enable_raw \<noteq> enable_expected cfg then [Not_Enabled enable_raw] else []) @
         (if \<not> (timeout_min_s cfg \<le> timeout_s \<and> timeout_s \<le> timeout_max_s cfg)
          then [Timeout_Outside timeout_s] else []) @
         (if nonzero \<noteq> [] then [Safety_Not_Off nonzero] else []))"

section \<open>The driver's state\<close>

datatype release_phase = Pulsing real | Retrying real | Released | Cancelled | Died

record release_task =
  rt_coil :: int
  rt_do_index :: nat
  rt_phase :: release_phase

definition task_done :: "release_task \<Rightarrow> bool" where
  "task_done t = (case rt_phase t of Pulsing _ \<Rightarrow> False | Retrying _ \<Rightarrow> False | _ \<Rightarrow> True)"

record 'w adam = "'w link" +
  ad_unit_id :: int
  ad_assumed_mode :: string
  ad_di_read :: string
  ad_require_hw_watchdog :: bool
  ad_hw_watchdog :: "HwWatchdogConfig option"
  ad_hw_watchdog_ok :: bool
  ad_hw_watchdog_detail :: hw_detail
  ad_hw_watchdog_checked :: bool
  ad_test_release_task :: "nat option"
  ad_bypass_release_task :: "nat option"
  ad_load_disconnect_seen_mono :: "real option"
  ad_debounce :: debouncer
  ad_commanded_do :: "(nat \<times> bool \<times> real) list"
  ad_tasks :: "release_task list"

definition adam_init :: "int \<Rightarrow> int \<Rightarrow> string \<Rightarrow> string \<Rightarrow> bool \<Rightarrow> HwWatchdogConfig option \<Rightarrow> 'w \<Rightarrow>
    exc + 'w adam" where
  "adam_init unit_id debounce_samples assumed_mode di_read require_hw_watchdog hw_watchdog w =
     (if assumed_mode \<notin> set VALID_ASSUMED_MODES then Inl ValueError
      else if DI_READ_FN di_read = None then Inl ValueError
      else Inr
       \<lparr>lk_env = w, lk_client = False, lk_connected = False,
        ad_unit_id = unit_id, ad_assumed_mode = assumed_mode, ad_di_read = di_read,
        ad_require_hw_watchdog = require_hw_watchdog, ad_hw_watchdog = hw_watchdog,
        ad_hw_watchdog_ok = (\<not> require_hw_watchdog),
        ad_hw_watchdog_detail = (if \<not> require_hw_watchdog then Readback_Waived else Not_Yet_Verified),
        ad_hw_watchdog_checked = False, ad_test_release_task = None, ad_bypass_release_task = None,
        ad_load_disconnect_seen_mono = None, ad_debounce = debouncer_init debounce_samples,
        ad_commanded_do = [], ad_tasks = []\<rparr>)"

definition now :: "'w modbus_api \<Rightarrow> ('w, 'z) link_scheme \<Rightarrow> real" where
  "now api d = api_monotonic api (lk_env d)"

section \<open>Modbus access\<close>

text \<open>
  \<open>_read_holding_registers\<close> maps a link failure to \<open>OSError\<close> without marking the link down.
\<close>

definition adam_read_holding_registers :: "'w modbus_api \<Rightarrow> int \<Rightarrow> int \<Rightarrow> ('w adam, int list) act" where
  "adam_read_holding_registers api address cnt =
     andthen (gets (\<lambda>d. (lk_client d, ad_unit_id d))) (\<lambda>(present, slave).
     if \<not> present then raise OSError
     else
       andthen (catching (call (api_read_holding api address cnt slave))
                  (\<lambda>e. if is_link_failure e then raise OSError else raise e)) (\<lambda>rr.
       andthen (checked_response rr) (\<lambda>registers.
       ret (py_take cnt registers))))"

definition adam_read_holding_register :: "'w modbus_api \<Rightarrow> int \<Rightarrow> ('w adam, int) act" where
  "adam_read_holding_register api address =
     andthen (adam_read_holding_registers api address 1) (\<lambda>rs. lift_result (py_index rs 0))"

definition set_hw_watchdog_status :: "bool \<Rightarrow> hw_detail \<Rightarrow> ('w adam, unit) act" where
  "set_hw_watchdog_status ok detail =
     modify (\<lambda>d. d\<lparr>ad_hw_watchdog_ok := ok, ad_hw_watchdog_detail := detail, ad_hw_watchdog_checked := True\<rparr>)"

text \<open>The three reads of the readback, under one \<open>except OSError\<close>.\<close>

definition adam_hw_readback ::
    "'w modbus_api \<Rightarrow> HwWatchdogConfig \<Rightarrow> int \<Rightarrow> int \<Rightarrow> int \<Rightarrow> ('w adam, exc + int \<times> int \<times> int list) act" where
  "adam_hw_readback api cfg enable_reg timeout_reg safety_base =
     catching
       (andthen (adam_read_holding_register api enable_reg) (\<lambda>enable_raw.
        andthen (adam_read_holding_register api timeout_reg) (\<lambda>timeout_raw.
        andthen (adam_read_holding_registers api safety_base (safety_value_count cfg)) (\<lambda>safety_raw.
        ret (Inr (enable_raw, timeout_raw, safety_raw))))))
       (\<lambda>e. if is_OSError e then ret (Inl e) else raise e)"

definition adam_verify_hw_watchdog :: "'w modbus_api \<Rightarrow> ('w adam, unit) act" where
  "adam_verify_hw_watchdog api =
     andthen (gets (\<lambda>d. (ad_require_hw_watchdog d, ad_hw_watchdog d))) (\<lambda>(required, config).
     if \<not> required then set_hw_watchdog_status True Readback_Waived
     else (case config of
         None \<Rightarrow> set_hw_watchdog_status False Registers_Not_Configured
       | Some cfg \<Rightarrow>
           (case (enable_register cfg, timeout_register cfg, safety_value_register_base cfg) of
              (Some enable_reg, Some timeout_reg, Some base) \<Rightarrow>
                andthen (adam_hw_readback api cfg enable_reg timeout_reg base) (\<lambda>r.
                case r of
                  Inl e \<Rightarrow> set_hw_watchdog_status False (Registers_Unreadable e)
                | Inr (enable_raw, timeout_raw, safety_raw) \<Rightarrow>
                    (let problems = hw_problems cfg enable_raw timeout_raw safety_raw in
                     if problems \<noteq> [] then set_hw_watchdog_status False (Problems problems)
                     else set_hw_watchdog_status True
                            (Armed (of_int timeout_raw * timeout_scale_s cfg) (safety_value_count cfg))))
            | _ \<Rightarrow> set_hw_watchdog_status False Registers_Not_Configured)))"

definition adam_connect :: "'w modbus_api \<Rightarrow> ('w adam, bool) act" where
  "adam_connect api =
     andthen (open_link api) (\<lambda>ok.
     andthen (if ok then adam_verify_hw_watchdog api else ret ()) (\<lambda>_.
     gets lk_connected))"

definition adam_ensure_connected :: "'w modbus_api \<Rightarrow> ('w adam, unit) act" where
  "adam_ensure_connected api = ensure_connected api (adam_connect api)"

definition adam_read_bits ::
    "'w modbus_api \<Rightarrow> bit_reader \<Rightarrow> int \<Rightarrow> int \<Rightarrow> ('w adam, bool list) act" where
  "adam_read_bits api reader address cnt =
     andthen (adam_ensure_connected api) (\<lambda>_.
     andthen (gets ad_unit_id) (\<lambda>slave.
     andthen (request (api_read_bits api reader address cnt slave)) (\<lambda>bits.
     ret (py_take cnt bits))))"

definition adam_read_di_bits :: "'w modbus_api \<Rightarrow> int \<Rightarrow> ('w adam, bool list) act" where
  "adam_read_di_bits api cnt =
     andthen (gets ad_di_read) (\<lambda>name.
     case DI_READ_FN name of
       None \<Rightarrow> raise KeyError
     | Some reader \<Rightarrow> adam_read_bits api reader DI_COIL_BASE cnt)"

definition adam_read_coils :: "'w modbus_api \<Rightarrow> int \<Rightarrow> int \<Rightarrow> ('w adam, bool list) act" where
  "adam_read_coils api address cnt = adam_read_bits api Read_Coils address cnt"

definition adam_write_coil :: "'w modbus_api \<Rightarrow> int \<Rightarrow> bool \<Rightarrow> ('w adam, unit) act" where
  "adam_write_coil api address val =
     andthen (adam_ensure_connected api) (\<lambda>_.
     andthen (gets ad_unit_id) (\<lambda>slave.
     request (api_write_coil api address val slave)))"

section \<open>Inputs\<close>

definition bit_pulse :: "real option \<Rightarrow> real \<Rightarrow> real \<Rightarrow> bool" where
  "bit_pulse timestamp_mono hold_s now_mono =
     (case timestamp_mono of None \<Rightarrow> False | Some t \<Rightarrow> now_mono - t < hold_s)"

definition switch_position :: "bool \<Rightarrow> bool \<Rightarrow> bool \<Rightarrow> string" where
  "switch_position transferring on_normal on_emerg =
     (if transferring then ''transferring''
      else if on_normal \<and> \<not> on_emerg then ''utility''
      else if on_emerg \<and> \<not> on_normal then ''generator''
      else ''unknown'')"

definition calibration_bits :: "bool \<Rightarrow> bool \<Rightarrow> int" where
  "calibration_bits on_normal on_emerg = (if on_normal \<and> on_emerg then FAULT_CALIBRATION else 0)"

text \<open>The latch and the debouncer's step on one raw read.\<close>

definition adam_latch_inputs :: "real \<Rightarrow> bool list \<Rightarrow> ('w adam, bool list) act" where
  "adam_latch_inputs now_mono raw =
     andthen (lift_result (py_index raw DI_LOAD_DISCONNECT)) (\<lambda>pulsed.
     andthen (if pulsed then modify (ad_load_disconnect_seen_mono_update (\<lambda>_. Some now_mono)) else ret ()) (\<lambda>_.
     andthen (gets (debounce_update raw \<circ> ad_debounce)) (\<lambda>(bits, db).
     andthen (modify (ad_debounce_update (\<lambda>_. db))) (\<lambda>_.
     ret bits))))"

text \<open>\<open>read_inputs\<close> from the raw bits on: no await.\<close>

definition adam_inputs_from :: "'w modbus_api \<Rightarrow> bool list \<Rightarrow> ('w adam, InputSnapshot) act" where
  "adam_inputs_from api raw =
     andthen (gets (now api)) (\<lambda>now_mono.
     andthen (adam_latch_inputs now_mono raw) (\<lambda>bits.
     andthen (lift_result (py_index bits DI_ON_NORMAL)) (\<lambda>on_normal.
     andthen (lift_result (py_index bits DI_ON_EMERGENCY)) (\<lambda>on_emerg.
     andthen (gets (\<lambda>d. bit_pulse (ad_load_disconnect_seen_mono d) TRANSFERRING_HOLD_S now_mono)) (\<lambda>transferring.
     andthen (lift_result (py_index bits DI_NORMAL_AVAIL)) (\<lambda>normal_available.
     andthen (lift_result (py_index bits DI_EMERGENCY_AVAIL)) (\<lambda>emergency_available.
     andthen (lift_result (py_index bits DI_ENGINE_START)) (\<lambda>engine_start.
     andthen (gets ad_assumed_mode) (\<lambda>mode.
     ret \<lparr>in_position = switch_position transferring on_normal on_emerg,
          in_normal_available = normal_available, in_emergency_available = emergency_available,
          in_engine_start_calling = engine_start, in_ats_mode = mode,
          in_fault_bits = calibration_bits on_normal on_emerg\<rparr>)))))))))"

definition adam_read_inputs :: "'w modbus_api \<Rightarrow> ('w adam, InputSnapshot) act" where
  "adam_read_inputs api = andthen (adam_read_di_bits api 6) (adam_inputs_from api)"

definition adam_outputs_from :: "bool list \<Rightarrow> ('w adam, OutputState) act" where
  "adam_outputs_from bits =
     andthen (lift_result (py_index bits DO_TEST)) (\<lambda>test.
     andthen (lift_result (py_index bits DO_INHIBIT)) (\<lambda>inhibit.
     andthen (lift_result (py_index bits DO_FORCE_TRANSFER)) (\<lambda>force.
     andthen (lift_result (py_index bits DO_BYPASS_DELAY)) (\<lambda>bypass.
     ret \<lparr>out_test_active = test, out_inhibit_active = inhibit,
          out_force_transfer_active = force, out_bypass_delay_active = bypass\<rparr>))))"

definition adam_read_output_state :: "'w modbus_api \<Rightarrow> ('w adam, OutputState) act" where
  "adam_read_output_state api = andthen (adam_read_coils api DO_COIL_BASE 6) adam_outputs_from"

section \<open>Outputs\<close>

definition record_commanded :: "'w modbus_api \<Rightarrow> nat \<Rightarrow> bool \<Rightarrow> ('w adam, unit) act" where
  "record_commanded api do_index val =
     modify (\<lambda>d. d\<lparr>ad_commanded_do := AList.update do_index (val, now api d) (ad_commanded_do d)\<rparr>)"

text \<open>\<open>_pulse\<close> uses the test slot for DO 0 and the bypass slot for any other output.\<close>

definition release_slot :: "nat \<Rightarrow> 'w adam \<Rightarrow> nat option" where
  "release_slot do_index d = (if do_index = DO_TEST then ad_test_release_task d else ad_bypass_release_task d)"

definition set_release_slot :: "nat \<Rightarrow> nat \<Rightarrow> 'w adam \<Rightarrow> 'w adam" where
  "set_release_slot do_index k d =
     (if do_index = DO_TEST then d\<lparr>ad_test_release_task := Some k\<rparr> else d\<lparr>ad_bypass_release_task := Some k\<rparr>)"

definition slot_pending :: "nat option \<Rightarrow> release_task list \<Rightarrow> bool" where
  "slot_pending slot tasks = (case slot of None \<Rightarrow> False | Some k \<Rightarrow> k < length tasks \<and> \<not> task_done (tasks ! k))"

definition pulse_ms :: "int \<Rightarrow> int" where
  "pulse_ms duration_ms = max PULSE_MIN_MS (min PULSE_MAX_MS duration_ms)"

text \<open>\<open>setattr(self, slot, create_task(self._release(...)))\<close>.\<close>

definition schedule_release :: "'w modbus_api \<Rightarrow> nat \<Rightarrow> int \<Rightarrow> ('w adam, unit) act" where
  "schedule_release api do_index ms =
     modify (\<lambda>d. set_release_slot do_index (length (ad_tasks d))
       (d\<lparr>ad_tasks := ad_tasks d @
            [\<lparr>rt_coil = DO_COIL_BASE + int do_index, rt_do_index = do_index,
              rt_phase = Pulsing (now api d + of_int ms / 1000)\<rparr>]\<rparr>))"

text \<open>
  \<open>_pulse\<close> in its two halves: the guard on the release task, and what follows it, which suspends in the
  coil write before it schedules the release.
\<close>

definition pulse_guard :: "nat \<Rightarrow> ('w adam, bool) act" where
  "pulse_guard do_index = gets (\<lambda>d. \<not> slot_pending (release_slot do_index d) (ad_tasks d))"

definition pulse_commit :: "'w modbus_api \<Rightarrow> nat \<Rightarrow> int \<Rightarrow> ('w adam, unit) act" where
  "pulse_commit api do_index duration_ms =
     andthen (adam_write_coil api (DO_COIL_BASE + int do_index) True) (\<lambda>_.
     andthen (record_commanded api do_index True) (\<lambda>_.
     schedule_release api do_index (pulse_ms duration_ms)))"

definition adam_pulse :: "'w modbus_api \<Rightarrow> nat \<Rightarrow> int \<Rightarrow> ('w adam, unit) act" where
  "adam_pulse api do_index duration_ms =
     andthen (pulse_guard do_index) (\<lambda>go. if go then pulse_commit api do_index duration_ms else ret ())"

text \<open>A maintained output: written only when given.\<close>

definition adam_maintained :: "'w modbus_api \<Rightarrow> nat \<Rightarrow> bool option \<Rightarrow> ('w adam, unit) act" where
  "adam_maintained api do_index v =
     (case v of None \<Rightarrow> ret ()
      | Some b \<Rightarrow> andthen (adam_write_coil api (DO_COIL_BASE + int do_index) b)
                    (\<lambda>_. record_commanded api do_index b))"

definition adam_pulsed :: "'w modbus_api \<Rightarrow> nat \<Rightarrow> int option \<Rightarrow> ('w adam, unit) act" where
  "adam_pulsed api do_index ms = (case ms of None \<Rightarrow> ret () | Some m \<Rightarrow> adam_pulse api do_index m)"

definition adam_drive_outputs :: "'w modbus_api \<Rightarrow> int option \<Rightarrow> bool option \<Rightarrow> bool option \<Rightarrow> int option \<Rightarrow>
    ('w adam, unit) act" where
  "adam_drive_outputs api test_pulse_ms inhibit force_transfer bypass_delay_pulse_ms =
     andthen (gets ad_hw_watchdog_ok) (\<lambda>ok.
     if \<not> ok \<and> (test_pulse_ms \<noteq> None \<or> inhibit = Some True \<or> force_transfer = Some True \<or>
                bypass_delay_pulse_ms \<noteq> None)
     then raise HwWatchdogNotArmedError
     else
       andthen (adam_pulsed api DO_TEST test_pulse_ms) (\<lambda>_.
       andthen (adam_maintained api DO_INHIBIT inhibit) (\<lambda>_.
       andthen (adam_maintained api DO_FORCE_TRANSFER force_transfer) (\<lambda>_.
       adam_pulsed api DO_BYPASS_DELAY bypass_delay_pulse_ms))))"

definition cancel_task :: "nat option \<Rightarrow> release_task list \<Rightarrow> release_task list" where
  "cancel_task slot tasks =
     (case slot of
        None \<Rightarrow> tasks
      | Some k \<Rightarrow> if k < length tasks \<and> \<not> task_done (tasks ! k)
                  then tasks[k := (tasks ! k)\<lparr>rt_phase := Cancelled\<rparr>] else tasks)"

definition cancel_release_tasks :: "('w adam, unit) act" where
  "cancel_release_tasks =
     modify (\<lambda>d. d\<lparr>ad_tasks :=
       cancel_task (ad_bypass_release_task d) (cancel_task (ad_test_release_task d) (ad_tasks d))\<rparr>)"

definition release_output :: "'w modbus_api \<Rightarrow> nat \<Rightarrow> ('w adam, unit) act" where
  "release_output api do_index =
     andthen (adam_write_coil api (DO_COIL_BASE + int do_index) False) (\<lambda>_.
     record_commanded api do_index False)"

definition adam_release_all_outputs :: "'w modbus_api \<Rightarrow> ('w adam, unit) act" where
  "adam_release_all_outputs api =
     andthen cancel_release_tasks (\<lambda>_.
     andthen (release_output api DO_TEST) (\<lambda>_.
     andthen (release_output api DO_FORCE_TRANSFER) (\<lambda>_.
     andthen (release_output api DO_INHIBIT) (\<lambda>_.
     release_output api DO_BYPASS_DELAY))))"

definition adam_close :: "'w modbus_api \<Rightarrow> ('w adam, unit) act" where
  "adam_close api = andthen cancel_release_tasks (\<lambda>_. close_link api)"

definition actual_for_do :: "OutputState \<Rightarrow> nat \<Rightarrow> bool option" where
  "actual_for_do actual do_index =
     map_of [(DO_TEST, out_test_active actual), (DO_FORCE_TRANSFER, out_force_transfer_active actual),
             (DO_INHIBIT, out_inhibit_active actual), (DO_BYPASS_DELAY, out_bypass_delay_active actual)] do_index"

definition adam_check_output_consistency :: "'w modbus_api \<Rightarrow> OutputState \<Rightarrow> 'w adam \<Rightarrow> bool" where
  "adam_check_output_consistency api actual d =
     list_all (\<lambda>(do_index, cmd_value, cmd_ts).
       if now api d - cmd_ts < OUTPUT_SETTLING_S then True
       else (case actual_for_do actual do_index of
               None \<Rightarrow> True
             | Some actual_value \<Rightarrow> actual_value = cmd_value))
     (ad_commanded_do d)"

definition adam_hw_watchdog_status :: "'w adam \<Rightarrow> bool \<times> hw_detail" where
  "adam_hw_watchdog_status d = (ad_hw_watchdog_ok d, ad_hw_watchdog_detail d)"

section \<open>The release task\<close>

definition set_phase :: "nat \<Rightarrow> release_phase \<Rightarrow> ('w adam, unit) act" where
  "set_phase k p = modify (\<lambda>d. d\<lparr>ad_tasks := (ad_tasks d)[k := (ad_tasks d ! k)\<lparr>rt_phase := p\<rparr>]\<rparr>)"

text \<open>One pass of the retry loop: an \<open>OSError\<close> sleeps and tries again, any other exception ends the task.\<close>

definition release_attempt :: "'w modbus_api \<Rightarrow> nat \<Rightarrow> int \<Rightarrow> ('w adam, unit) act" where
  "release_attempt api k coil =
     catching
       (andthen (adam_write_coil api coil False) (\<lambda>_. set_phase k Released))
       (\<lambda>e. if is_OSError e
            then andthen (gets (now api)) (\<lambda>t. set_phase k (Retrying (t + PULSE_RELEASE_RETRY_S)))
            else set_phase k Died)"

text \<open>Task \<open>k\<close> is given the chance to run: nothing happens before its timer has expired.\<close>

definition adam_release_step :: "'w modbus_api \<Rightarrow> nat \<Rightarrow> ('w adam, unit) act" where
  "adam_release_step api k =
     andthen (gets id) (\<lambda>d.
     if k \<ge> length (ad_tasks d) then ret ()
     else (case rt_phase (ad_tasks d ! k) of
         Pulsing due \<Rightarrow>
           if now api d < due then ret ()
           else andthen (record_commanded api (rt_do_index (ad_tasks d ! k)) False)
                  (\<lambda>_. release_attempt api k (rt_coil (ad_tasks d ! k)))
       | Retrying due \<Rightarrow>
           if now api d < due then ret () else release_attempt api k (rt_coil (ad_tasks d ! k))
       | _ \<Rightarrow> ret ()))"

end
