(* ===== verification/Asco.thy ===== *)
theory Asco
  imports Modbus_Link Io_Driver Adam
begin

text \<open>
  \<open>src/src/atspi/io_asco_serial.py\<close>: the ASCO Group 5 status reader: its bit map, the validation of the
  map and the reads.  It shares the Modbus link with the ADAM driver.
\<close>

section \<open>Configuration\<close>

text \<open>The attributes of \<open>AscoSerialConfig\<close> but the serial-line parameters, which only the library reads.\<close>

record AscoSerialConfig =
  as_unit_id :: int
  as_assumed_mode :: string
  status_register :: "int option"
  status_register_count :: int
  on_normal_bit :: "int option"
  on_emergency_bit :: "int option"
  normal_available_bit :: "int option"
  emergency_available_bit :: "int option"
  transferring_bit :: "int option"
  engine_start_bit :: "int option"

definition default_asco_config :: AscoSerialConfig where
  "default_asco_config =
     \<lparr>as_unit_id = 1, as_assumed_mode = ''auto'', status_register = None, status_register_count = 1,
      on_normal_bit = None, on_emergency_bit = None, normal_available_bit = None,
      emergency_available_bit = None, transferring_bit = None, engine_start_bit = None\<rparr>"

definition required_bits :: "AscoSerialConfig \<Rightarrow> int option list" where
  "required_bits cfg = [on_normal_bit cfg, on_emergency_bit cfg, normal_available_bit cfg, emergency_available_bit cfg]"

definition asco_is_configured :: "AscoSerialConfig \<Rightarrow> bool" where
  "asco_is_configured cfg =
     (if status_register cfg = None then False else list_all (\<lambda>b. b \<noteq> None) (required_bits cfg))"

definition all_bit_indices :: "AscoSerialConfig \<Rightarrow> int list" where
  "all_bit_indices cfg =
     [i. Some i \<leftarrow> [on_normal_bit cfg, on_emergency_bit cfg, normal_available_bit cfg,
        emergency_available_bit cfg, transferring_bit cfg, engine_start_bit cfg]]"

definition asco_validate :: "AscoSerialConfig \<Rightarrow> exc + unit" where
  "asco_validate cfg =
     (if \<not> asco_is_configured cfg then Inl ValueError
      else if as_assumed_mode cfg \<notin> set VALID_ASSUMED_MODES then Inl ValueError
      else if status_register_count cfg < 1 then Inl ValueError
      else (let capacity = status_register_count cfg * 16 in
            if list_all (\<lambda>b. 0 \<le> b \<and> b < capacity) (all_bit_indices cfg) then Inr () else Inl ValueError))"

section \<open>Bits\<close>

text \<open>
  \<open>_extract_bit\<close>.  The Python code indexes from the end for a negative register index; \<open>validate\<close> rules
  it out, and the model keeps it (\<open>py_getitem\<close>).
\<close>

definition py_getitem :: "'a list \<Rightarrow> int \<Rightarrow> exc + 'a" where
  "py_getitem xs i =
     (let j = (if i < 0 then int (length xs) + i else i) in
      if 0 \<le> j \<and> j < int (length xs) then Inr (xs ! nat j) else Inl IndexError)"

definition extract_bit :: "int list \<Rightarrow> int \<Rightarrow> exc + bool" where
  "extract_bit registers flat_bit =
     (let reg_index = flat_bit div 16; bit_in_reg = flat_bit mod 16 in
      if reg_index \<ge> int (length registers) then Inr False
      else (case py_getitem registers reg_index of
              Inl e \<Rightarrow> Inl e
            | Inr r \<Rightarrow> Inr (r AND push_bit (nat bit_in_reg) 1 \<noteq> 0)))"

section \<open>The reader\<close>

record 'w asco = "'w link" +
  as_cfg :: AscoSerialConfig

definition asco_init :: "AscoSerialConfig \<Rightarrow> 'w \<Rightarrow> exc + 'w asco" where
  "asco_init cfg w =
     (case asco_validate cfg of
        Inl e \<Rightarrow> Inl e
      | Inr _ \<Rightarrow> Inr \<lparr>lk_env = w, lk_client = False, lk_connected = False, as_cfg = cfg\<rparr>)"

definition asco_connect :: "'w modbus_api \<Rightarrow> ('w asco, bool) act" where
  "asco_connect api = andthen (open_link api) (\<lambda>_. gets lk_connected)"

definition asco_close :: "'w modbus_api \<Rightarrow> ('w asco, unit) act" where
  "asco_close api = close_link api"

definition asco_ensure_connected :: "'w modbus_api \<Rightarrow> ('w asco, unit) act" where
  "asco_ensure_connected api = ensure_connected api (asco_connect api)"

text \<open>The address is set once the configuration has been validated: \<open>None\<close> would be the library's \<open>TypeError\<close>.\<close>

definition asco_read_status_registers :: "'w modbus_api \<Rightarrow> ('w asco, int list) act" where
  "asco_read_status_registers api =
     andthen (asco_ensure_connected api) (\<lambda>_.
     andthen (gets as_cfg) (\<lambda>cfg.
     case status_register cfg of
       None \<Rightarrow> raise TypeError
     | Some addr \<Rightarrow>
         andthen (request (api_read_holding api addr (status_register_count cfg) (as_unit_id cfg))) (\<lambda>registers.
         ret (py_take (status_register_count cfg) registers))))"

text \<open>A signal: \<open>divmod(None, 16)\<close> is a \<open>TypeError\<close> for a required bit; an absent optional bit is off.\<close>

definition required_signal :: "int list \<Rightarrow> int option \<Rightarrow> exc + bool" where
  "required_signal regs b = (case b of None \<Rightarrow> Inl TypeError | Some i \<Rightarrow> extract_bit regs i)"

definition optional_signal :: "int list \<Rightarrow> int option \<Rightarrow> exc + bool" where
  "optional_signal regs b = (case b of None \<Rightarrow> Inr False | Some i \<Rightarrow> extract_bit regs i)"

definition asco_read_inputs :: "'w modbus_api \<Rightarrow> ('w asco, InputSnapshot) act" where
  "asco_read_inputs api =
     andthen (asco_read_status_registers api) (\<lambda>regs.
     andthen (gets as_cfg) (\<lambda>cfg.
     andthen (lift_result (required_signal regs (on_normal_bit cfg))) (\<lambda>on_normal.
     andthen (lift_result (required_signal regs (on_emergency_bit cfg))) (\<lambda>on_emergency.
     andthen (lift_result (optional_signal regs (transferring_bit cfg))) (\<lambda>transferring.
     andthen (lift_result (optional_signal regs (engine_start_bit cfg))) (\<lambda>engine_start.
     andthen (lift_result (required_signal regs (normal_available_bit cfg))) (\<lambda>normal_available.
     andthen (lift_result (required_signal regs (emergency_available_bit cfg))) (\<lambda>emergency_available.
     ret \<lparr>in_position = switch_position transferring on_normal on_emergency,
          in_normal_available = normal_available, in_emergency_available = emergency_available,
          in_engine_start_calling = engine_start, in_ats_mode = as_assumed_mode cfg,
          in_fault_bits = calibration_bits on_normal on_emergency\<rparr>))))))))"

section \<open>The read block is one number\<close>

text \<open>The registers as one little-endian number, register 0 lowest.\<close>

fun block_value :: "int list \<Rightarrow> int" where
  "block_value [] = 0"
| "block_value (r # rs) = r + 65536 * block_value rs"

lemma and_bit_mask: "((r :: int) AND 2 ^ n \<noteq> 0) = bit r n"
proof -
  have "bit (r AND 2 ^ n) j \<longleftrightarrow> bit r n \<and> j = n" for j
    by (auto simp: bit_simps)
  then show ?thesis
    by (metis bit_0_eq bit_eqI bot_apply bot_bool_def)
qed

lemma bit_block_value:
  assumes "list_all (\<lambda>r. 0 \<le> r \<and> r < 65536) rs"
  shows "bit (block_value rs) j = (j div 16 < length rs \<and> bit (rs ! (j div 16)) (j mod 16))"
  using assms
proof (induction rs arbitrary: j)
  case Nil
  then show ?case by simp
next
  case (Cons r rs)
  let ?v = "block_value rs"
  from Cons.prems have r: "take_bit 16 r = r" by (simp add: take_bit_eq_mod)
  have low: "take_bit 16 (r + 65536 * ?v) = r"
    using Cons.prems by (simp add: take_bit_eq_mod)
  have high: "drop_bit 16 (r + 65536 * ?v) = ?v"
    using Cons.prems by (simp add: drop_bit_eq_div)
  show ?case
  proof (cases "j < 16")
    case True
    have "bit (r + 65536 * ?v) j = bit (take_bit 16 (r + 65536 * ?v)) j"
      using True by (simp add: bit_take_bit_iff)
    with low True show ?thesis by simp
  next
    case False
    then obtain k where k: "j = 16 + k" using le_Suc_ex not_less by blast
    have "bit (r + 65536 * ?v) j = bit (drop_bit 16 (r + 65536 * ?v)) k"
      by (simp add: bit_drop_bit_eq k)
    with high Cons k show ?thesis by simp
  qed
qed

lemma extract_block_bit:
  assumes "list_all (\<lambda>r. 0 \<le> r \<and> r < 65536) registers" and "0 \<le> b"
  shows "extract_bit registers b = Inr (bit (block_value registers) (nat b))"
proof -
  have idx: "nat b div 16 = nat (b div 16)" "nat b mod 16 = nat (b mod 16)"
    using assms(2) by (simp_all add: nat_div_distrib nat_mod_distrib)
  show ?thesis
  proof (cases "b div 16 \<ge> int (length registers)")
    case True
    then have "\<not> nat b div 16 < length registers" by (simp add: idx)
    with True bit_block_value [OF assms(1)] show ?thesis by (simp add: extract_bit_def Let_def)
  next
    case False
    then have "nat (b div 16) < length registers" using assms(2) by auto
    moreover have "\<not> b div 16 < 0" using assms(2) by (simp add: pos_imp_zdiv_neg_iff)
    ultimately show ?thesis using False assms bit_block_value [OF assms(1), of "nat b"]
      by (simp add: extract_bit_def py_getitem_def Let_def and_bit_mask idx)
  qed
qed

text \<open>
  A configured bit is a bit of the block.  For registers in the 16-bit range and any non-negative bit index,
  \<open>_extract_bit\<close> returns, without an exception, that bit of the registers read as one little-endian
  number; past the registers actually returned it is off.
\<close>

theorem extract_bit_is_block_bit:
  assumes "list_all (\<lambda>r. 0 \<le> r \<and> r < 65536) registers" and "0 \<le> b"
  shows "extract_bit registers b = Inr (bit (block_value registers) (nat b))"
  using assms by (rule extract_block_bit)

lemma extract_bit_is_block_bit_witness:
  "extract_bit [0, 4] 18 = Inr True \<and> bit (block_value [0, 4]) 18"
  using extract_bit_is_block_bit [of "[0, 4]" 18] by (simp add: extract_bit_def py_getitem_def and_bit_mask bit_simps)

section \<open>Validated configurations\<close>

lemma asco_validate_iff:
  "asco_validate cfg = Inr () \<longleftrightarrow>
     asco_is_configured cfg \<and> as_assumed_mode cfg \<in> set VALID_ASSUMED_MODES \<and> 1 \<le> status_register_count cfg \<and>
     list_all (\<lambda>b. 0 \<le> b \<and> b < status_register_count cfg * 16) (all_bit_indices cfg)"
  by (auto simp: asco_validate_def Let_def)

lemma some_index: "b \<in> set bs \<Longrightarrow> b = Some i \<Longrightarrow> i \<in> set [i. Some i \<leftarrow> bs]"
  by (induction bs) auto

lemma keeps_cfg: "keeps (\<lambda>d. as_cfg d = c) (asco_read_status_registers api)"
  unfolding asco_read_status_registers_def asco_ensure_connected_def asco_connect_def
  by (intro hoare keeps_ensure_connected keeps_open_link keeps_request) simp_all

lemma signal_block_bit:
  assumes "list_all (\<lambda>r. 0 \<le> r \<and> r < 65536) regs" and "\<And>i. b = Some i \<Longrightarrow> 0 \<le> i"
  shows "b \<noteq> None \<Longrightarrow> required_signal regs b = Inr (bit (block_value regs) (nat (the b)))"
    and "optional_signal regs b = Inr (b \<noteq> None \<and> bit (block_value regs) (nat (the b)))"
  using assms by (cases b; simp add: required_signal_def optional_signal_def extract_block_bit)+

text \<open>
  C27: a validated reader publishes the switch.  \<open>AscoSerialReader\<close> accepts a configuration only if every address and
  bit of the map is given and lies in the read block; from then on an input read either fails with the
  status read itself, or publishes exactly the configured bits of the block: the transferring bit, when
  configured, over the position bits, both position bits at once as \<open>unknown\<close> with the calibration fault.
\<close>

theorem asco_publishes_block_bits:
  assumes "asco_validate (as_cfg d) = Inr ()"
    and "asco_read_status_registers api d = (Inr regs, d')"
    and "list_all (\<lambda>r. 0 \<le> r \<and> r < 65536) regs"
  defines "sig \<equiv> \<lambda>b. b \<noteq> None \<and> bit (block_value regs) (nat (the b))"
  shows "fst (asco_read_inputs api d) = Inr
    \<lparr>in_position =
       (if sig (transferring_bit (as_cfg d)) then ''transferring''
        else if sig (on_normal_bit (as_cfg d)) = sig (on_emergency_bit (as_cfg d)) then ''unknown''
        else if sig (on_normal_bit (as_cfg d)) then ''utility'' else ''generator''),
     in_normal_available = sig (normal_available_bit (as_cfg d)),
     in_emergency_available = sig (emergency_available_bit (as_cfg d)),
     in_engine_start_calling = sig (engine_start_bit (as_cfg d)),
     in_ats_mode = as_assumed_mode (as_cfg d),
     in_fault_bits = (if sig (on_normal_bit (as_cfg d)) \<and> sig (on_emergency_bit (as_cfg d)) then 8 else 0)\<rparr>"
proof -
  let ?c = "as_cfg d"
  from assms(1) have conf: "asco_is_configured ?c"
    and bits: "list_all (\<lambda>b. 0 \<le> b \<and> b < status_register_count ?c * 16) (all_bit_indices ?c)"
    by (simp_all add: asco_validate_iff)
  have req: "on_normal_bit ?c \<noteq> None" "on_emergency_bit ?c \<noteq> None" "normal_available_bit ?c \<noteq> None"
    "emergency_available_bit ?c \<noteq> None"
    using conf by (auto simp: asco_is_configured_def required_bits_def split: if_splits)
  have "0 \<le> i" if "b \<in> set [on_normal_bit ?c, on_emergency_bit ?c, normal_available_bit ?c,
      emergency_available_bit ?c, transferring_bit ?c, engine_start_bit ?c]" "b = Some i" for b i
  proof -
    from that have "i \<in> set (all_bit_indices ?c)" unfolding all_bit_indices_def by (rule some_index)
    with bits show ?thesis by (simp add: list_all_iff)
  qed
  then have pos: "on_normal_bit ?c = Some i \<Longrightarrow> 0 \<le> i" "on_emergency_bit ?c = Some i \<Longrightarrow> 0 \<le> i"
    "normal_available_bit ?c = Some i \<Longrightarrow> 0 \<le> i" "emergency_available_bit ?c = Some i \<Longrightarrow> 0 \<le> i"
    "transferring_bit ?c = Some i \<Longrightarrow> 0 \<le> i" "engine_start_bit ?c = Some i \<Longrightarrow> 0 \<le> i" for i
    by simp_all
  have r: "required_signal regs b = Inr (sig b)" if "b \<noteq> None" "\<And>i. b = Some i \<Longrightarrow> 0 \<le> i" for b
    using signal_block_bit(1) [OF assms(3) that(2) that(1)] that(1) by (simp add: sig_def)
  have opt: "optional_signal regs b = Inr (sig b)" if "\<And>i. b = Some i \<Longrightarrow> 0 \<le> i" for b
    using signal_block_bit(2) [OF assms(3) that] by (simp add: sig_def)
  have cfg: "as_cfg d' = ?c" using keepsD [OF keeps_cfg, of d ?c api] assms(2) by simp
  have vals: "required_signal regs (on_normal_bit ?c) = Inr (sig (on_normal_bit ?c))"
    "required_signal regs (on_emergency_bit ?c) = Inr (sig (on_emergency_bit ?c))"
    "required_signal regs (normal_available_bit ?c) = Inr (sig (normal_available_bit ?c))"
    "required_signal regs (emergency_available_bit ?c) = Inr (sig (emergency_available_bit ?c))"
    "optional_signal regs (transferring_bit ?c) = Inr (sig (transferring_bit ?c))"
    "optional_signal regs (engine_start_bit ?c) = Inr (sig (engine_start_bit ?c))"
    by (rule r [OF req(1) pos(1)] r [OF req(2) pos(2)] r [OF req(3) pos(3)] r [OF req(4) pos(4)]
        opt [OF pos(5)] opt [OF pos(6)]; assumption)+
  show ?thesis
    using assms(2) cfg vals
    by (simp add: asco_read_inputs_def andthen_def gets_def lift_result_def ret_def switch_position_def
        calibration_bits_def)
qed

text \<open>A controller that always answers with its one status word.\<close>

definition status_word_api :: "int \<Rightarrow> unit modbus_api" where
  "status_word_api word =
     \<lparr>api_new = id, api_connect = (\<lambda>u. (Inr True, u)), api_connected = (\<lambda>u. True),
      api_close = (\<lambda>u. (Inr (), u)), api_read_bits = (\<lambda>r a n s u. (Inr ErrorResponse, u)),
      api_write_coil = (\<lambda>a v s u. (Inr ErrorResponse, u)),
      api_read_holding = (\<lambda>a n s u. (Inr (Response [word]), u)), api_monotonic = (\<lambda>u. 0)\<rparr>"

definition sample_asco_config :: AscoSerialConfig where
  "sample_asco_config = default_asco_config
     \<lparr>status_register := Some 40, on_normal_bit := Some 0, on_emergency_bit := Some 1,
      normal_available_bit := Some 2, emergency_available_bit := Some 3\<rparr>"

definition sample_asco :: "unit asco" where
  "sample_asco = \<lparr>lk_env = (), lk_client = True, lk_connected = True, as_cfg = sample_asco_config\<rparr>"

lemma asco_publishes_block_bits_witness:
  "\<exists>snap. fst (asco_read_inputs (status_word_api 6) sample_asco) = Inr snap \<and>
    in_position snap = ''generator'' \<and> in_normal_available snap \<and> in_fault_bits snap = 0"
proof -
  have "asco_validate (as_cfg sample_asco) = Inr ()"
    by (simp add: sample_asco_def sample_asco_config_def default_asco_config_def asco_validate_def
        asco_is_configured_def required_bits_def all_bit_indices_def VALID_ASSUMED_MODES_def)
  moreover have "asco_read_status_registers (status_word_api 6) sample_asco = (Inr [6], sample_asco)"
    by (simp add: sample_asco_def sample_asco_config_def default_asco_config_def asco_read_status_registers_def
        asco_ensure_connected_def ensure_connected_def request_def checked_response_def call_def
        status_word_api_def act_simps py_take_def)
  ultimately show ?thesis
    using asco_publishes_block_bits [of sample_asco "status_word_api 6" "[6]" sample_asco]
    by (simp add: sample_asco_def sample_asco_config_def default_asco_config_def bit_simps bit_numeral_rec)
qed

end
