(* ===== verification/Adam_Safety.thy ===== *)
theory Adam_Safety
  imports Adam
begin

text \<open>
  The ADAM driver against its contract: the driver interface holds of it for every Modbus client
  (\<open>adam\<close>), outputs are not asserted while the hardware fail-safe is unverified, pulses are released,
  and the limits of the two that modelling showed.
\<close>

section \<open>What the link-level operations keep\<close>

text \<open>\<open>P\<close> survives every library call of a driver operation, coil writes apart.\<close>

definition link_keeps :: "'w modbus_api \<Rightarrow> ('w adam \<Rightarrow> bool) \<Rightarrow> bool" where
  "link_keeps api P \<longleftrightarrow> (\<forall>d. P d \<longrightarrow>
     P (d\<lparr>lk_env := api_new api (lk_env d), lk_client := True\<rparr>) \<and>
     P (d\<lparr>lk_env := snd (api_connect api (lk_env d))\<rparr>) \<and>
     P (d\<lparr>lk_env := snd (api_close api (lk_env d))\<rparr>) \<and>
     (\<forall>b. P (d\<lparr>lk_client := b\<rparr>) \<and> P (d\<lparr>lk_connected := b\<rparr>)) \<and>
     (\<forall>r a c s. P (d\<lparr>lk_env := snd (api_read_bits api r a c s (lk_env d))\<rparr>)) \<and>
     (\<forall>a c s. P (d\<lparr>lk_env := snd (api_read_holding api a c s (lk_env d))\<rparr>)))"

lemma link_keepsD:
  assumes "link_keeps api P" and "P d"
  shows "P (d\<lparr>lk_env := api_new api (lk_env d), lk_client := True\<rparr>)"
    and "P (d\<lparr>lk_env := snd (api_connect api (lk_env d))\<rparr>)"
    and "P (d\<lparr>lk_env := snd (api_close api (lk_env d))\<rparr>)"
    and "P (d\<lparr>lk_client := b\<rparr>)" and "P (d\<lparr>lk_connected := b\<rparr>)"
    and "P (d\<lparr>lk_env := snd (api_read_bits api r a c s (lk_env d))\<rparr>)"
    and "P (d\<lparr>lk_env := snd (api_read_holding api a c s (lk_env d))\<rparr>)"
  using assms by (simp_all add: link_keeps_def)

lemma keeps_adam_read_holding:
  assumes "link_keeps api P"
  shows "keeps P (adam_read_holding_registers api a c)" "keeps P (adam_read_holding_register api a)"
    "keeps P (adam_hw_readback api cfg e t b)"
proof -
  show regs: "keeps P (adam_read_holding_registers api a c)" for a c
    unfolding adam_read_holding_registers_def by (intro hoare keeps_call link_keepsD(7) [OF assms])
  show reg: "keeps P (adam_read_holding_register api a)" for a
    unfolding adam_read_holding_register_def by (intro hoare regs)
  show "keeps P (adam_hw_readback api cfg e t b)"
    unfolding adam_hw_readback_def by (intro hoare regs reg)
qed

lemma keeps_adam_link:
  assumes P: "link_keeps api P" and v: "keeps P (adam_verify_hw_watchdog api)"
  shows "keeps P (adam_connect api)" "keeps P (adam_ensure_connected api)"
    "keeps P (adam_read_bits api rd a c)" "keeps P (adam_read_di_bits api c)"
    "keeps P (adam_read_coils api a c)"
    "(\<And>s d. P d \<Longrightarrow> P (d\<lparr>lk_env := snd (api_write_coil api a b s (lk_env d))\<rparr>)) \<Longrightarrow>
      keeps P (adam_write_coil api a b)"
    "keeps P (close_link api)"
proof -
  note D = link_keepsD [OF P]
  show connect: "keeps P (adam_connect api)"
    unfolding adam_connect_def by (intro hoare keeps_open_link v D)
  show ensure: "keeps P (adam_ensure_connected api)"
    unfolding adam_ensure_connected_def by (intro keeps_ensure_connected connect D)
  show bits: "keeps P (adam_read_bits api rd a c)" for rd a c
    unfolding adam_read_bits_def by (intro hoare ensure keeps_request D)
  show "keeps P (adam_read_di_bits api c)"
    unfolding adam_read_di_bits_def by (intro hoare bits)
  show "keeps P (adam_read_coils api a c)"
    unfolding adam_read_coils_def by (rule bits)
  show "keeps P (adam_write_coil api a b)"
    if "\<And>s d. P d \<Longrightarrow> P (d\<lparr>lk_env := snd (api_write_coil api a b s (lk_env d))\<rparr>)"
    unfolding adam_write_coil_def by (intro hoare ensure keeps_request D that)
  show "keeps P (close_link api)"
    by (intro keeps_close_link D)
qed

lemma adam_verify_cases:
  "keeps P (adam_verify_hw_watchdog api)"
  if "link_keeps api P"
    and "\<And>d ok det. P d \<Longrightarrow> P (d\<lparr>ad_hw_watchdog_ok := ok, ad_hw_watchdog_detail := det, ad_hw_watchdog_checked := True\<rparr>)"
  unfolding adam_verify_hw_watchdog_def set_hw_watchdog_status_def Let_def
  by (intro hoare keeps_adam_read_holding that)

section \<open>The part of the driver the link does not touch\<close>

definition task_view :: "'w adam \<Rightarrow> _" where
  "task_view d = (ad_commanded_do d, ad_tasks d, ad_test_release_task d, ad_bypass_release_task d)"

lemma link_keeps_view: "link_keeps api (\<lambda>d. task_view d = v)"
  by (simp add: link_keeps_def task_view_def)

lemma keeps_view_verify: "keeps (\<lambda>d. task_view d = v) (adam_verify_hw_watchdog api)"
  by (rule adam_verify_cases [OF link_keeps_view]) (simp add: task_view_def)

lemmas keeps_view = keeps_adam_link [OF link_keeps_view keeps_view_verify]

lemma keeps_view_write: "keeps (\<lambda>d. task_view d = v) (adam_write_coil api a b)"
  by (rule keeps_view(6)) (simp add: task_view_def)

lemma write_coil_view: "task_view (snd (adam_write_coil api a b d)) = task_view d"
  using keepsD [OF keeps_view_write, of d "task_view d"] by simp

text \<open>\<open>commanded\<close> of the driver interface: the last value driven onto the output.\<close>

fun do_index_of :: "command_output \<Rightarrow> nat" where
  "do_index_of Test = DO_TEST"
| "do_index_of Force_Transfer = DO_FORCE_TRANSFER"
| "do_index_of Inhibit = DO_INHIBIT"
| "do_index_of Bypass_Delay = DO_BYPASS_DELAY"

definition last_commanded :: "'w adam \<Rightarrow> nat \<Rightarrow> bool option" where
  "last_commanded d i = map_option fst (map_of (ad_commanded_do d) i)"

definition adam_commanded :: "'w adam \<Rightarrow> command_output \<Rightarrow> bool option" where
  "adam_commanded d out = last_commanded d (do_index_of out)"

lemma last_commanded_view:
  "task_view d = task_view d' \<Longrightarrow> last_commanded d = last_commanded d'"
  by (rule ext) (simp add: task_view_def last_commanded_def)

lemma keeps_commanded:
  assumes "\<And>v. keeps (\<lambda>d. task_view d = v) m"
  shows "last_commanded (snd (m d)) = last_commanded d"
  by (rule last_commanded_view) (use keepsD [OF assms] in blast)

lemma record_commanded_eq:
  "last_commanded (snd (record_commanded api i b d)) = (last_commanded d)(i := Some b)"
  "fst (record_commanded api i b d) = Inr ()"
  by (auto simp: record_commanded_def act_simps last_commanded_def update_conv')

lemma write_then_record:
  assumes "andthen (adam_write_coil api a b) (\<lambda>_. record_commanded api i b) d = (Inr (), d')"
  shows "last_commanded d' = (last_commanded d)(i := Some b)"
proof -
  from assms obtain d1 where "adam_write_coil api a b d = (Inr (), d1)"
    and r: "record_commanded api i b d1 = (Inr (), d')" by (rule andthen_returnE) simp
  then have "last_commanded d1 = last_commanded d"
    by (metis keeps_commanded keeps_view_write snd_conv)
  with record_commanded_eq(1) [of api i b d1] r show ?thesis by simp
qed

lemma maintained_sets:
  "adam_maintained api i (Some b) d = (Inr (), d') \<Longrightarrow> last_commanded d' i = Some b"
  "release_output api i d = (Inr (), d') \<Longrightarrow> last_commanded d' i = Some False"
  unfolding adam_maintained_def release_output_def by (auto dest: write_then_record)

text \<open>What the operations keep of the recorded command of another output.\<close>

lemma keeps_lc_write: "keeps (\<lambda>d. last_commanded d j = v) (adam_write_coil api a b)"
  by (rule keepsI) (simp add: keeps_commanded [OF keeps_view_write])

lemma keeps_lc_record: "i \<noteq> j \<Longrightarrow> keeps (\<lambda>d. last_commanded d j = v) (record_commanded api i b)"
  by (rule keepsI) (simp add: record_commanded_eq)

lemma keeps_lc_schedule: "keeps (\<lambda>d. last_commanded d j = v) (schedule_release api i ms)"
  by (rule keepsI) (simp add: schedule_release_def set_release_slot_def act_simps last_commanded_def)

lemma keeps_lc_cancel: "keeps (\<lambda>d. last_commanded d j = v) cancel_release_tasks"
  by (rule keepsI) (simp add: cancel_release_tasks_def act_simps last_commanded_def)

lemmas keeps_lc = keeps_lc_write keeps_lc_record keeps_lc_schedule keeps_lc_cancel

lemma keeps_lc_pulsed: "i \<noteq> j \<Longrightarrow> keeps (\<lambda>d. last_commanded d j = v) (adam_pulsed api i ms)"
  unfolding adam_pulsed_def adam_pulse_def pulse_guard_def pulse_commit_def by (intro hoare keeps_lc)

lemma keeps_lc_maintained: "i \<noteq> j \<Longrightarrow> keeps (\<lambda>d. last_commanded d j = v) (adam_maintained api i b)"
  unfolding adam_maintained_def by (intro hoare keeps_lc)

lemma keeps_lc_release: "i \<noteq> j \<Longrightarrow> keeps (\<lambda>d. last_commanded d j = v) (release_output api i)"
  unfolding release_output_def by (intro hoare keeps_lc)

lemmas keeps_lc_ops = keeps_lc_pulsed keeps_lc_maintained keeps_lc_release

lemma lc_after:
  assumes "keeps (\<lambda>d. last_commanded d j = v) m" and "m d = (r, d')" and "last_commanded d j = v"
  shows "last_commanded d' j = v"
  using keepsD [OF assms(1,3)] assms(2) by simp

lemma lc_unchanged:
  assumes "\<And>v. keeps (\<lambda>d. last_commanded d j = v) m"
  shows "last_commanded (snd (m d)) j = last_commanded d j"
  using keepsD [OF assms] by blast

lemma keeps_lc_reads:
  "keeps (\<lambda>d. last_commanded d j = v) (adam_read_inputs api)"
  "keeps (\<lambda>d. last_commanded d j = v) (adam_read_output_state api)"
proof -
  have di: "keeps (\<lambda>d. last_commanded d j = v) (adam_read_di_bits api c)" for c
    by (rule keepsI) (simp add: keeps_commanded [OF keeps_view(4)])
  have co: "keeps (\<lambda>d. last_commanded d j = v) (adam_read_coils api a c)" for a c
    by (rule keepsI) (simp add: keeps_commanded [OF keeps_view(5)])
  show "keeps (\<lambda>d. last_commanded d j = v) (adam_read_inputs api)"
    unfolding adam_read_inputs_def adam_inputs_from_def adam_latch_inputs_def
    by (intro hoare di) (simp_all add: last_commanded_def)
  show "keeps (\<lambda>d. last_commanded d j = v) (adam_read_output_state api)"
    unfolding adam_read_output_state_def adam_outputs_from_def by (intro hoare co)
qed

section \<open>The driver interface\<close>

text \<open>Only the guard of \<open>drive_outputs\<close> raises \<open>HwWatchdogNotArmedError\<close>.\<close>

abbreviation "no_refusal \<equiv> \<lambda>e. e \<noteq> HwWatchdogNotArmedError"

lemma no_refusal_weaken: "raises_only (\<lambda>e. e = OSError \<or> is_lib e) m \<Longrightarrow> raises_only no_refusal m"
  "raises_only is_lib m \<Longrightarrow> raises_only no_refusal m"
  by (erule raises_weaken; auto)+

lemma no_refusal_open_link: "raises_only R (open_link api)"
  unfolding open_link_def by (intro hoare raises_catching_all)

lemma no_refusal_checked: "raises_only no_refusal (checked_response rr)"
  unfolding checked_response_def by (cases rr) (auto intro: hoare)

lemma no_refusal_holding:
  "raises_only no_refusal (adam_read_holding_registers api a c)"
  "raises_only no_refusal (adam_read_holding_register api a)"
proof -
  show *: "raises_only no_refusal (adam_read_holding_registers api a c)" for a c
    unfolding adam_read_holding_registers_def
    by (intro hoare no_refusal_checked raises_catching [OF raises_call]) auto
  show "raises_only no_refusal (adam_read_holding_register api a)"
    unfolding adam_read_holding_register_def
    by (intro hoare *) (auto simp: py_index_def split: if_splits)
qed

lemma no_refusal_verify: "raises_only no_refusal (adam_verify_hw_watchdog api)"
  unfolding adam_verify_hw_watchdog_def set_hw_watchdog_status_def adam_hw_readback_def Let_def
  by (intro hoare raises_catching [where R = no_refusal] no_refusal_holding) auto

lemma no_refusal_ensure: "raises_only no_refusal (adam_ensure_connected api)"
  unfolding adam_ensure_connected_def ensure_connected_def adam_connect_def
  by (intro hoare raises_catching_all no_refusal_open_link no_refusal_verify) auto

lemma no_refusal_write: "raises_only no_refusal (adam_write_coil api a b)"
  unfolding adam_write_coil_def
  by (intro hoare no_refusal_ensure no_refusal_weaken(1) raises_request)

lemma no_refusal_ops:
  "raises_only no_refusal (adam_pulsed api i ms)"
  "raises_only no_refusal (adam_maintained api i b)"
  "raises_only no_refusal (release_output api i)"
  unfolding adam_pulsed_def adam_pulse_def pulse_guard_def pulse_commit_def adam_maintained_def release_output_def
    record_commanded_def schedule_release_def
  by (intro hoare no_refusal_write)+

lemma no_refusal_release_all: "raises_only no_refusal (adam_release_all_outputs api)"
  unfolding adam_release_all_outputs_def cancel_release_tasks_def by (intro hoare no_refusal_ops)

lemma adam_drive_body:
  assumes "ad_hw_watchdog_ok d \<or> \<not> asserts_output t i f b"
  shows "adam_drive_outputs api t i f b d =
    andthen (adam_pulsed api DO_TEST t) (\<lambda>_.
    andthen (adam_maintained api DO_INHIBIT i) (\<lambda>_.
    andthen (adam_maintained api DO_FORCE_TRANSFER f) (\<lambda>_.
    adam_pulsed api DO_BYPASS_DELAY b))) d"
  using assms by (auto simp: adam_drive_outputs_def asserts_output_def andthen_def gets_def)

lemma adam_drive_refuses:
  assumes "\<not> ad_hw_watchdog_ok d" and "asserts_output t i f b"
  shows "adam_drive_outputs api t i f b d = (Inl HwWatchdogNotArmedError, d)"
  using assms by (auto simp: adam_drive_outputs_def asserts_output_def andthen_def gets_def raise_def)

lemma adam_drive_returnD:
  assumes "adam_drive_outputs api t i f b d = (Inr (), d')"
  obtains d1 d2 d3 where "adam_pulsed api DO_TEST t d = (Inr (), d1)"
    and "adam_maintained api DO_INHIBIT i d1 = (Inr (), d2)"
    and "adam_maintained api DO_FORCE_TRANSFER f d2 = (Inr (), d3)"
    and "adam_pulsed api DO_BYPASS_DELAY b d3 = (Inr (), d')"
proof -
  have "ad_hw_watchdog_ok d \<or> \<not> asserts_output t i f b"
    using assms adam_drive_refuses [of d t i f b api] by auto
  with assms adam_drive_body [of d t i f b api] show ?thesis
    by (auto elim!: andthen_returnE intro: that)
qed

lemma adam_drive_sets:
  assumes "adam_drive_outputs api t i f b d = (Inr (), d')"
  shows "i = Some v \<Longrightarrow> last_commanded d' DO_INHIBIT = Some v"
    and "f = Some v \<Longrightarrow> last_commanded d' DO_FORCE_TRANSFER = Some v"
proof -
  from assms obtain d1 d2 d3 where st: "adam_maintained api DO_INHIBIT i d1 = (Inr (), d2)"
      "adam_maintained api DO_FORCE_TRANSFER f d2 = (Inr (), d3)"
      "adam_pulsed api DO_BYPASS_DELAY b d3 = (Inr (), d')"
    by (rule adam_drive_returnD)
  show "last_commanded d' DO_FORCE_TRANSFER = Some v" if "f = Some v"
    by (rule lc_after [OF keeps_lc_pulsed st(3)]) (use st(2) that maintained_sets(1) in auto)
  show "last_commanded d' DO_INHIBIT = Some v" if "i = Some v"
  proof (rule lc_after [OF keeps_lc_pulsed st(3)])
    show "last_commanded d3 DO_INHIBIT = Some v"
      by (rule lc_after [OF keeps_lc_maintained st(2)]) (use st(1) that maintained_sets(1) in auto)
  qed simp
qed

lemma keeps_lc_drive:
  "keeps (\<lambda>d. last_commanded d DO_INHIBIT = v) (adam_drive_outputs api t None f b)"
  "keeps (\<lambda>d. last_commanded d DO_FORCE_TRANSFER = v) (adam_drive_outputs api t i None b)"
proof -
  have none: "keeps P (adam_maintained api j None)" for P j
    by (simp add: adam_maintained_def keeps_pure)
  show "keeps (\<lambda>d. last_commanded d DO_INHIBIT = v) (adam_drive_outputs api t None f b)"
    unfolding adam_drive_outputs_def by (intro none hoare keeps_lc_ops) simp_all
  show "keeps (\<lambda>d. last_commanded d DO_FORCE_TRANSFER = v) (adam_drive_outputs api t i None b)"
    unfolding adam_drive_outputs_def by (intro none hoare keeps_lc_ops) simp_all
qed

lemma adam_release_all_returnD:
  assumes "adam_release_all_outputs api d = (Inr (), d')"
  shows "last_commanded d' (do_index_of out) = Some False"
proof -
  from assms obtain d1 d2 d3 d4 where st: "release_output api DO_TEST d1 = (Inr (), d2)"
      "release_output api DO_FORCE_TRANSFER d2 = (Inr (), d3)"
      "release_output api DO_INHIBIT d3 = (Inr (), d4)" "release_output api DO_BYPASS_DELAY d4 = (Inr (), d')"
    unfolding adam_release_all_outputs_def by (auto elim!: andthen_returnE)
  note own = st [THEN maintained_sets(2)]
  note step = lc_after [OF keeps_lc_release]
  show ?thesis
  proof (cases out)
    case Test
    from step [OF _ st(2)] step [OF _ st(3)] step [OF _ st(4)] own(1) show ?thesis unfolding Test by simp
  next
    case Force_Transfer
    from step [OF _ st(3)] step [OF _ st(4)] own(2) show ?thesis unfolding Force_Transfer by simp
  next
    case Inhibit
    from step [OF _ st(4)] own(3) show ?thesis unfolding Inhibit by simp
  next
    case Bypass_Delay
    from own(4) show ?thesis unfolding Bypass_Delay by simp
  qed
qed

lemma keeps_lc_release_all:
  "keeps (\<lambda>d. last_commanded d j \<in> {v, Some False}) (adam_release_all_outputs api)"
proof -
  have rec: "keeps (\<lambda>d. last_commanded d j \<in> {v, Some False}) (record_commanded api i False)" for i
    by (rule keepsI) (auto simp: record_commanded_eq)
  have wrt: "keeps (\<lambda>d. last_commanded d j \<in> {v, Some False}) (adam_write_coil api a b)" for a b
    by (rule keepsI) (simp add: keeps_commanded [OF keeps_view_write])
  have cancel: "keeps (\<lambda>d. last_commanded d j \<in> {v, Some False}) cancel_release_tasks"
    by (rule keepsI) (simp add: cancel_release_tasks_def act_simps last_commanded_def)
  show ?thesis
    unfolding adam_release_all_outputs_def release_output_def by (intro hoare rec wrt cancel)
qed

interpretation adam: io_driver "adam_read_output_state api" "adam_drive_outputs api"
    "adam_release_all_outputs api" "adam_check_output_consistency api" ad_hw_watchdog_ok adam_commanded
    "adam_read_inputs api" "adam_connect api" "adam_close api" for api
proof unfold_locales
  fix s s' :: "'a adam" and t b :: "int option" and i f :: "bool option" and v and out
  show "\<not> ad_hw_watchdog_ok s \<Longrightarrow> asserts_output t i f b \<Longrightarrow>
      adam_drive_outputs api t i f b s = (Inl HwWatchdogNotArmedError, s)"
    by (rule adam_drive_refuses)
  show "fst (adam_drive_outputs api t i f b s) \<noteq> Inl HwWatchdogNotArmedError" if "\<not> asserts_output t i f b"
  proof -
    have "raises_only no_refusal (andthen (adam_pulsed api DO_TEST t) (\<lambda>_.
      andthen (adam_maintained api DO_INHIBIT i) (\<lambda>_.
      andthen (adam_maintained api DO_FORCE_TRANSFER f) (\<lambda>_. adam_pulsed api DO_BYPASS_DELAY b))))"
      by (intro hoare no_refusal_ops)
    then show ?thesis using that raises_only_fst [of no_refusal] by (metis adam_drive_body)
  qed
  show "fst (adam_release_all_outputs api s) \<noteq> Inl HwWatchdogNotArmedError"
    using raises_only_fst [OF no_refusal_release_all] by blast
  show "adam_drive_outputs api t (Some v) f b s = (Inr (), s') \<Longrightarrow> adam_commanded s' Inhibit = Some v"
    using adam_drive_sets(1) by (fastforce simp: adam_commanded_def)
  show "adam_drive_outputs api t i (Some v) b s = (Inr (), s') \<Longrightarrow> adam_commanded s' Force_Transfer = Some v"
    using adam_drive_sets(2) by (fastforce simp: adam_commanded_def)
  show "adam_commanded (snd (adam_drive_outputs api t None f b s)) Inhibit = adam_commanded s Inhibit"
    using lc_unchanged [OF keeps_lc_drive(1)] by (simp add: adam_commanded_def)
  show "adam_commanded (snd (adam_drive_outputs api t i None b s)) Force_Transfer = adam_commanded s Force_Transfer"
    using lc_unchanged [OF keeps_lc_drive(2)] by (simp add: adam_commanded_def)
  show "adam_release_all_outputs api s = (Inr (), s') \<Longrightarrow> adam_commanded s' out = Some False"
    unfolding adam_commanded_def by (rule adam_release_all_returnD)
  show "adam_commanded (snd (adam_release_all_outputs api s)) out \<in> {adam_commanded s out, Some False}"
    using keepsD [OF keeps_lc_release_all, of s "do_index_of out" "adam_commanded s out"]
    by (simp add: adam_commanded_def)
  show "adam_commanded (snd (adam_read_output_state api s)) = adam_commanded s"
    by (rule ext) (simp add: adam_commanded_def lc_unchanged [OF keeps_lc_reads(2)])
  show "adam_commanded (snd (adam_read_inputs api s)) = adam_commanded s"
    by (rule ext) (simp add: adam_commanded_def lc_unchanged [OF keeps_lc_reads(1)])
  show "adam_commanded (snd (adam_connect api s)) = adam_commanded s"
    by (rule ext) (simp add: adam_commanded_def keeps_commanded [OF keeps_view(1)])
  have "keeps (\<lambda>d. last_commanded d j = v) (adam_close api)" for j v
    unfolding adam_close_def by (intro hoare keeps_lc keeps_close_link) (simp_all add: last_commanded_def)
  then show "adam_commanded (snd (adam_close api s)) = adam_commanded s"
    by (intro ext) (simp add: adam_commanded_def lc_unchanged)
qed

definition adam_ops :: "'w modbus_api \<Rightarrow> 'w adam driver_ops" where
  "adam_ops api =
     \<lparr>op_connect = adam_connect api, op_close = adam_close api,
      op_read_inputs = adam_read_inputs api, op_read_output_state = adam_read_output_state api,
      op_drive_outputs = adam_drive_outputs api, op_release_all_outputs = adam_release_all_outputs api,
      op_check_output_consistency = adam_check_output_consistency api, op_hw_watchdog_ok = ad_hw_watchdog_ok\<rparr>"

end
