(* ===== verification/Hybrid.thy ===== *)
theory Hybrid
  imports Asco Adam_Safety
begin

text \<open>
  \<open>src/src/atspi/io_hybrid.py\<close>: the ASCO reader for the inputs and the ADAM driver for the outputs.  The
  state is the pair of the two drivers, whose worlds are separate: the serial line and the Ethernet
  module.  The proof that it is a driver rests on the ADAM's.
\<close>

section \<open>The composed driver\<close>

record ('u, 'w) hybrid =
  hy_reader :: "'u asco"
  hy_outputs :: "'w adam"

definition on_outputs :: "('w adam, 'a) act \<Rightarrow> (('u, 'w) hybrid, 'a) act" where
  "on_outputs m = (\<lambda>h. case m (hy_outputs h) of (r, d) \<Rightarrow> (r, h\<lparr>hy_outputs := d\<rparr>))"

definition on_reader :: "('u asco, 'a) act \<Rightarrow> (('u, 'w) hybrid, 'a) act" where
  "on_reader m = (\<lambda>h. case m (hy_reader h) of (r, d) \<Rightarrow> (r, h\<lparr>hy_reader := d\<rparr>))"

definition hybrid_connect :: "'u modbus_api \<Rightarrow> 'w modbus_api \<Rightarrow> (('u, 'w) hybrid, bool) act" where
  "hybrid_connect serial tcp =
     andthen (on_outputs (adam_connect tcp)) (\<lambda>out_ok.
     andthen (on_reader (asco_connect serial)) (\<lambda>in_ok.
     ret (out_ok \<and> in_ok)))"

text \<open>\<open>try: reader.close() finally: outputs.close()\<close>: the reader's exception is raised after the second close.\<close>

definition hybrid_close :: "'u modbus_api \<Rightarrow> 'w modbus_api \<Rightarrow> (('u, 'w) hybrid, unit) act" where
  "hybrid_close serial tcp = (\<lambda>h.
     case on_reader (asco_close serial) h of
       (Inr _, h') \<Rightarrow> on_outputs (adam_close tcp) h'
     | (Inl e, h') \<Rightarrow> andthen (on_outputs (adam_close tcp)) (\<lambda>_. raise e) h')"

definition hybrid_read_inputs :: "'u modbus_api \<Rightarrow> (('u, 'w) hybrid, InputSnapshot) act" where
  "hybrid_read_inputs serial = on_reader (asco_read_inputs serial)"

definition hybrid_read_output_state :: "'w modbus_api \<Rightarrow> (('u, 'w) hybrid, OutputState) act" where
  "hybrid_read_output_state tcp = on_outputs (adam_read_output_state tcp)"

definition hybrid_drive_outputs :: "'w modbus_api \<Rightarrow> int option \<Rightarrow> bool option \<Rightarrow> bool option \<Rightarrow> int option \<Rightarrow>
    (('u, 'w) hybrid, unit) act" where
  "hybrid_drive_outputs tcp test_pulse_ms inhibit force_transfer bypass_delay_pulse_ms =
     on_outputs (adam_drive_outputs tcp test_pulse_ms inhibit force_transfer bypass_delay_pulse_ms)"

definition hybrid_release_all_outputs :: "'w modbus_api \<Rightarrow> (('u, 'w) hybrid, unit) act" where
  "hybrid_release_all_outputs tcp = on_outputs (adam_release_all_outputs tcp)"

definition hybrid_check_output_consistency :: "'w modbus_api \<Rightarrow> OutputState \<Rightarrow> ('u, 'w) hybrid \<Rightarrow> bool" where
  "hybrid_check_output_consistency tcp actual h = adam_check_output_consistency tcp actual (hy_outputs h)"

definition hybrid_hw_watchdog_ok :: "('u, 'w) hybrid \<Rightarrow> bool" where
  "hybrid_hw_watchdog_ok h = ad_hw_watchdog_ok (hy_outputs h)"

definition hybrid_hw_watchdog_status :: "('u, 'w) hybrid \<Rightarrow> bool \<times> hw_detail" where
  "hybrid_hw_watchdog_status h = adam_hw_watchdog_status (hy_outputs h)"

section \<open>The driver interface\<close>

definition hybrid_commanded :: "('u, 'w) hybrid \<Rightarrow> command_output \<Rightarrow> bool option" where
  "hybrid_commanded h = adam_commanded (hy_outputs h)"

lemma on_outputs_simps:
  "fst (on_outputs m h) = fst (m (hy_outputs h))"
  "hy_outputs (snd (on_outputs m h)) = snd (m (hy_outputs h))"
  "hy_reader (snd (on_outputs m h)) = hy_reader h"
  "on_outputs m h = (r, h') \<Longrightarrow> m (hy_outputs h) = (r, hy_outputs h')"
  by (auto simp: on_outputs_def split: prod.splits)

lemma on_reader_simps:
  "fst (on_reader m h) = fst (m (hy_reader h))"
  "hy_outputs (snd (on_reader m h)) = hy_outputs h"
  "hy_reader (snd (on_reader m h)) = snd (m (hy_reader h))"
  by (auto simp: on_reader_def split: prod.splits)

lemmas hybrid_defs = hybrid_read_output_state_def hybrid_drive_outputs_def hybrid_release_all_outputs_def
  hybrid_check_output_consistency_def hybrid_hw_watchdog_ok_def hybrid_read_inputs_def hybrid_commanded_def

interpretation hybrid: io_driver "hybrid_read_output_state tcp" "hybrid_drive_outputs tcp"
    "hybrid_release_all_outputs tcp" "hybrid_check_output_consistency tcp" hybrid_hw_watchdog_ok
    hybrid_commanded "hybrid_read_inputs serial" "hybrid_connect serial tcp" "hybrid_close serial tcp"
  for tcp :: "'w modbus_api" and serial :: "'u modbus_api"
proof unfold_locales
  fix s s' :: "('u, 'w) hybrid" and t b :: "int option" and i f :: "bool option" and v and out
  show "hybrid_drive_outputs tcp t i f b s = (Inl HwWatchdogNotArmedError, s)"
    if "\<not> hybrid_hw_watchdog_ok s" "asserts_output t i f b"
    using adam_drive_refuses [of "hy_outputs s" t i f b tcp] that
    by (simp add: hybrid_defs on_outputs_def)
  show "fst (hybrid_drive_outputs tcp t i f b s) \<noteq> Inl HwWatchdogNotArmedError" if "\<not> asserts_output t i f b"
    using adam.release_permitted [OF that] by (simp add: hybrid_defs on_outputs_simps)
  show "fst (hybrid_release_all_outputs tcp s) \<noteq> Inl HwWatchdogNotArmedError"
    using adam.release_all_permitted by (simp add: hybrid_defs on_outputs_simps)
  show "hybrid_drive_outputs tcp t (Some v) f b s = (Inr (), s') \<Longrightarrow> hybrid_commanded s' Inhibit = Some v"
    unfolding hybrid_defs by (drule on_outputs_simps(4)) (rule adam.drive_inhibit)
  show "hybrid_drive_outputs tcp t i (Some v) b s = (Inr (), s') \<Longrightarrow> hybrid_commanded s' Force_Transfer = Some v"
    unfolding hybrid_defs by (drule on_outputs_simps(4)) (rule adam.drive_force)
  show "hybrid_commanded (snd (hybrid_drive_outputs tcp t None f b s)) Inhibit = hybrid_commanded s Inhibit"
    unfolding hybrid_defs on_outputs_simps by (rule adam.drive_inhibit_frame)
  show "hybrid_commanded (snd (hybrid_drive_outputs tcp t i None b s)) Force_Transfer = hybrid_commanded s Force_Transfer"
    unfolding hybrid_defs on_outputs_simps by (rule adam.drive_force_frame)
  show "hybrid_release_all_outputs tcp s = (Inr (), s') \<Longrightarrow> hybrid_commanded s' out = Some False"
    unfolding hybrid_defs by (drule on_outputs_simps(4)) (rule adam.release_all)
  show "hybrid_commanded (snd (hybrid_release_all_outputs tcp s)) out \<in> {hybrid_commanded s out, Some False}"
    unfolding hybrid_defs on_outputs_simps by (rule adam.release_all_frame)
  show "hybrid_commanded (snd (hybrid_read_output_state tcp s)) = hybrid_commanded s"
    unfolding hybrid_defs on_outputs_simps by (rule adam.read_outputs_frame)
  show "hybrid_commanded (snd (hybrid_read_inputs serial s)) = hybrid_commanded s"
    unfolding hybrid_defs on_reader_simps ..
  have "hy_outputs (snd (hybrid_connect serial tcp s)) = snd (adam_connect tcp (hy_outputs s))"
    by (simp add: hybrid_connect_def act_simps on_outputs_def on_reader_def split: prod.split sum.split)
  then show "hybrid_commanded (snd (hybrid_connect serial tcp s)) = hybrid_commanded s"
    unfolding hybrid_defs by (simp only: adam.connect_frame)
  have "hy_outputs (snd (hybrid_close serial tcp s)) = snd (adam_close tcp (hy_outputs s))"
    by (simp add: hybrid_close_def act_simps on_outputs_def on_reader_def split: prod.split sum.split)
  then show "hybrid_commanded (snd (hybrid_close serial tcp s)) = hybrid_commanded s"
    unfolding hybrid_defs by (simp only: adam.close_frame)
qed

definition hybrid_ops :: "'w modbus_api \<Rightarrow> 'u modbus_api \<Rightarrow> ('u, 'w) hybrid driver_ops" where
  "hybrid_ops tcp serial =
     \<lparr>op_connect = hybrid_connect serial tcp, op_close = hybrid_close serial tcp,
      op_read_inputs = hybrid_read_inputs serial, op_read_output_state = hybrid_read_output_state tcp,
      op_drive_outputs = hybrid_drive_outputs tcp, op_release_all_outputs = hybrid_release_all_outputs tcp,
      op_check_output_consistency = hybrid_check_output_consistency tcp, op_hw_watchdog_ok = hybrid_hw_watchdog_ok\<rparr>"

end
