(* ===== verification/Service_Safety.thy ===== *)
theory Service_Safety
  imports Service Mock Hybrid
begin

text \<open>
  The system-level safety of the service, proved once for every driver that meets the interface of
  \<open>Io_Driver\<close> (locale \<open>driven_service\<close>) and interpreted on the mock, ADAM and hybrid drivers, and on the one the
  configuration names: the timed release of maintained commands, what a service without a commander does instead, and the
  startup reset.
\<close>

section \<open>A service over a driver\<close>

locale driven_service =
  io_driver read_output_state drive_outputs release_all_outputs check_output_consistency
    hw_watchdog_ok commanded read_inputs connect close
  for read_output_state :: "('s, OutputState) act"
    and drive_outputs release_all_outputs check_output_consistency hw_watchdog_ok commanded read_inputs connect close +
  fixes env :: "'s \<Rightarrow> 's \<Rightarrow> bool"
  assumes env_frame: "env d d' \<Longrightarrow> out \<in> {Inhibit, Force_Transfer} \<Longrightarrow> commanded d' out = commanded d out"
begin

text \<open>The steps of the sampling loop never assert a maintained output.\<close>

lemma sampling_keeps_off:
  assumes "maintained_off commanded (sy_driver sy)"
  shows "maintained_off commanded (sy_driver (sample_reset ops sy))"
    and "maintained_off commanded (sy_driver (sample_inputs ops sy))"
    and "maintained_off commanded (sy_driver (sample_outputs ops w i sy))"
  using assms release_all_frame [of "sy_driver sy" Inhibit] release_all_frame [of "sy_driver sy" Force_Transfer]
  by (auto simp: sample_driver maintained_off_def read_inputs_frame read_outputs_frame)

text \<open>The end of a tick: when the driver's write returned, the outputs are off and the release is latched.\<close>

lemma release_lands:
  assumes "service_step env ops Ev_Tick_End sy sy'" and "fst (release_call drive_outputs (sy_driver sy)) = Inr ()"
  shows "maintained_off commanded (sy_driver sy')" and "wd_released (sy_watchdog sy')"
    and "\<not> sy_release_pending sy'"
proof -
  have sy': "sy' = tick_finished ops sy" using assms(1) by (auto elim: service_step_endE)
  from assms(2) have "release_call drive_outputs (sy_driver sy) = (Inr (), snd (release_call drive_outputs (sy_driver sy)))"
    by (metis prod.collapse)
  then show "maintained_off commanded (sy_driver sy')"
    unfolding sy' release_call_def maintained_off_def using release_maintained
    by (simp add: release_call_def)
  show "wd_released (sy_watchdog sy')" "\<not> sy_release_pending sy'"
    using assms(2) by (simp_all add: sy' tick_end_def)
qed

text \<open>Commander \<open>c\<close> has been silent since \<open>t0\<close>; and the release of that silence has landed.\<close>

definition silent_since :: "nat \<Rightarrow> real \<Rightarrow> 's service \<Rightarrow> bool" where
  "silent_since c t0 sy \<longleftrightarrow> sy_commander sy = Some c \<and> wd_last_read_monotonic (sy_watchdog sy) = t0"

definition landed :: "'s service \<Rightarrow> bool" where
  "landed sy \<longleftrightarrow> wd_released (sy_watchdog sy) \<and> \<not> sy_release_pending sy \<and>
     maintained_off commanded (sy_driver sy)"

end

text \<open>Events of a silence: everything but the commander's requests and drop, and any command write.\<close>

fun silent_event :: "nat \<Rightarrow> service_event \<Rightarrow> bool" where
  "silent_event c (Ev_Request t conn fc a) \<longleftrightarrow> conn \<noteq> c \<and> \<not> is_cmd_write fc a"
| "silent_event c (Ev_Disconnect conn) \<longleftrightarrow> conn \<noteq> c"
| "silent_event c _ \<longleftrightarrow> True"

fun dispatches :: "service_event \<Rightarrow> bool" where
  "dispatches (Ev_Dispatch i) = True"
| "dispatches _ = False"

context driven_service
begin

lemma silent_step:
  assumes "service_step env ops e sy sy'" and "silent_event c e" and "silent_since c t0 sy"
  shows "silent_since c t0 sy'"
  using assms
proof (induction rule: service_step.induct)
  case (Request t conn fc a sy)
  then have "note_request note_modbus_read t conn fc a (sy_commander sy, sy_watchdog sy) =
      (sy_commander sy, sy_watchdog sy)"
    by (auto simp: note_request_def silent_since_def)
  with Request show ?case by (simp add: tracked_def)
next
  case (Disconnect conn sy)
  then have "note_disconnect note_commander_lost conn (sy_commander sy, sy_watchdog sy) =
      (sy_commander sy, sy_watchdog sy)"
    by (auto simp: note_disconnect_def silent_since_def)
  with Disconnect show ?case by (simp add: tracked_def)
qed (auto simp: silent_since_def tick_end_def split: sum.split)

lemma silent_run:
  "service_run env ops es sy sy' \<Longrightarrow> list_all (silent_event c) es \<Longrightarrow> silent_since c t0 sy \<Longrightarrow> silent_since c t0 sy'"
  by (rule service_run_invariant [where E = "silent_event c"]) (auto intro: silent_step)

text \<open>Only a request of the commander, or a dispatch, undoes a landed release.\<close>

lemma landed_step:
  assumes "service_step env ops e sy sy'" and "silent_event c e" and "\<not> dispatches e"
    and "silent_since c t0 sy" and "landed sy"
  shows "landed sy'"
  using assms
proof (induction rule: service_step.induct)
  case (Request t conn fc a sy)
  then show ?case by (auto simp: landed_def tracked_def note_request_def silent_since_def)
next
  case (Disconnect conn sy)
  then show ?case by (auto simp: landed_def tracked_def note_disconnect_def silent_since_def)
next
  case (Tick_Begin sy t)
  then show ?case by (auto simp: landed_def release_due_def Let_def)
next
  case (Driver sy d)
  then show ?case using env_frame by (auto simp: landed_def maintained_off_def)
qed (auto simp: landed_def sampling_keeps_off)

lemma landed_run:
  assumes "service_run env ops es sy sy'" and "list_all (\<lambda>e. silent_event c e \<and> \<not> dispatches e) es"
    and "silent_since c t0 sy" and "landed sy"
  shows "landed sy'"
proof -
  have "silent_since c t0 sy' \<and> landed sy'"
    by (rule service_run_invariant [OF assms(1) _ assms(2)]) (use assms(3,4) silent_step landed_step in blast)+
  then show ?thesis by simp
qed

text \<open>The timed release: a tick after the window starts one, and once it has landed it holds.\<close>

lemma silence_is_due:
  assumes "silent_since c t0 sy" and "service_run env ops es sy sy1" and "list_all (silent_event c) es"
    and "\<not> wd_released (sy_watchdog sy1)" and "t0 + TIMEOUT_S < t" and "service_step env ops (Ev_Tick_Begin t) sy1 sy2"
  shows "sy_release_pending sy2 \<and> silent_since c t0 sy2"
proof -
  have "silent_since c t0 sy1" using silent_run assms(1-3) by blast
  moreover have "silent_since c t0 sy2" by (rule silent_step [OF assms(6) _ \<open>silent_since c t0 sy1\<close>]) simp
  ultimately show ?thesis
    using assms(4-6) by (auto elim!: service_step_beginE simp: silent_since_def release_due_def Let_def)
qed

lemma silence_releases:
  assumes "silent_since c t0 sy2" and "service_run env ops mid sy2 sy3" and "list_all (silent_event c) mid"
    and "service_step env ops Ev_Tick_End sy3 sy4" and "fst (release_call drive_outputs (sy_driver sy3)) = Inr ()"
    and "service_run env ops after sy4 sy5" and "list_all (\<lambda>e. silent_event c e \<and> \<not> dispatches e) after"
  shows "landed sy4" and "landed sy5"
proof -
  have "silent_since c t0 sy3" using silent_run assms(1-3) by blast
  then have s4: "silent_since c t0 sy4" by (rule silent_step [OF assms(4), rotated]) simp
  show l4: "landed sy4" using release_lands [OF assms(4,5)] by (simp add: landed_def)
  show "landed sy5" by (rule landed_run [OF assms(6,7) s4 l4])
qed

end

section \<open>A service nobody commands\<close>

text \<open>
  Without a commander any request counts as activity.  \<open>unclaimed\<close> are the events by which nobody becomes the commander and no
  command reaches the driver: every request but FC6 and FC16 writes of the command registers, by their numbers, and no
  dispatch.  \<open>attended heard es\<close>: every tick comes within the silence window of a request, the one at \<open>heard\<close> or a later one.
\<close>

fun unclaimed :: "service_event \<Rightarrow> bool" where
  "unclaimed (Ev_Request t conn fc a) \<longleftrightarrow> \<not> (fc \<in> {Some 6, Some 16} \<and> (\<exists>x. a = Some x \<and> 0x100 \<le> x \<and> x \<le> 0x103))"
| "unclaimed (Ev_Dispatch i) \<longleftrightarrow> False"
| "unclaimed _ \<longleftrightarrow> True"

fun attended :: "real option \<Rightarrow> service_event list \<Rightarrow> bool" where
  "attended heard [] \<longleftrightarrow> True"
| "attended heard (Ev_Request t conn fc a # es) \<longleftrightarrow> attended (Some t) es"
| "attended heard (Ev_Tick_Begin t # es) \<longleftrightarrow>
     (case heard of None \<Rightarrow> False | Some t0 \<Rightarrow> t \<le> t0 + 30 \<and> attended heard es)"
| "attended heard (e # es) \<longleftrightarrow> attended heard es"

definition unowned :: "real option \<Rightarrow> 's service \<Rightarrow> bool" where
  "unowned heard sy \<longleftrightarrow> sy_commander sy = None \<and> \<not> sy_release_pending sy \<and> sy_outputs_reset sy \<and>
     (\<forall>t0. heard = Some t0 \<longrightarrow> wd_last_read_monotonic (sy_watchdog sy) = t0 \<and> \<not> wd_commander_gone (sy_watchdog sy))"

fun last_request :: "real option \<Rightarrow> service_event \<Rightarrow> real option" where
  "last_request heard (Ev_Request t conn fc a) = Some t"
| "last_request heard _ = heard"

lemma attended_Cons:
  "attended heard (e # es) \<longleftrightarrow>
     (\<forall>t. e = Ev_Tick_Begin t \<longrightarrow> (\<exists>t0. heard = Some t0 \<and> t \<le> t0 + 30)) \<and> attended (last_request heard e) es"
  by (cases e) (auto split: option.split)

lemma sample_reset_flag:
  "sy_outputs_reset (sample_inputs ops sy) = sy_outputs_reset sy"
  "sy_outputs_reset (sample_outputs ops w i sy) = sy_outputs_reset sy"
  "sy_outputs_reset sy \<Longrightarrow> sy_outputs_reset (sample_reset ops sy)"
  by (simp_all add: sample_reset_def sample_inputs_def sample_outputs_def sampling_failed_def
      publish_sample_def Let_def split: prod.split sum.split)

context driven_service
begin

lemma unowned_step:
  assumes "service_step env ops e sy sy'" and "unclaimed e" and "unowned heard sy"
    and "\<And>t. e = Ev_Tick_Begin t \<Longrightarrow> \<exists>t0. heard = Some t0 \<and> t \<le> t0 + 30"
  shows "unowned (last_request heard e) sy' \<and> e \<noteq> Ev_Tick_End \<and>
    (\<forall>out\<in>{Inhibit, Force_Transfer}. commanded (sy_driver sy') out = commanded (sy_driver sy) out)"
  using assms
proof (induction rule: service_step.induct)
  case (Request t conn fc a sy)
  then have "\<not> is_cmd_write fc a"
    by (auto simp: is_cmd_write_def HOLDING_WRITE_FCS_def split: option.splits)
  with Request show ?case
    by (auto simp: unowned_def tracked_def note_request_def note_modbus_read_eq)
next
  case (Disconnect conn sy)
  then show ?case by (auto simp: unowned_def tracked_def note_disconnect_def)
next
  case (Tick_Begin sy t)
  then show ?case by (auto simp: unowned_def release_due_def Let_def)
next
  case (Driver sy d)
  then show ?case using env_frame by (auto simp: unowned_def)
qed (auto simp: unowned_def sample_driver sample_reset_flag read_inputs_frame read_outputs_frame)

text \<open>So no tick of such a run starts a release, and the maintained outputs stay what they were.\<close>

lemma unowned_run:
  assumes "service_run env ops es sy sy'" and "unowned heard sy" and "list_all unclaimed es" and "attended heard es"
  shows "sy_commander sy' = None \<and> \<not> sy_release_pending sy' \<and> Ev_Tick_End \<notin> set es \<and>
    (\<forall>out\<in>{Inhibit, Force_Transfer}. commanded (sy_driver sy') out = commanded (sy_driver sy) out)"
  using assms
proof (induction arbitrary: heard rule: service_run.induct)
  case (Done sy)
  then show ?case by (simp add: unowned_def)
next
  case (Step e sy sy1 es sy2)
  from Step.prems have e: "unclaimed e" "\<And>t. e = Ev_Tick_Begin t \<Longrightarrow> \<exists>t0. heard = Some t0 \<and> t \<le> t0 + 30"
      and es: "list_all unclaimed es" "attended (last_request heard e) es"
    by (simp_all add: attended_Cons)
  note step = unowned_step [OF Step.hyps(1) e(1) Step.prems(1) e(2)]
  from Step.IH [OF conjunct1 [OF step] es] step show ?case by auto
qed

end

section \<open>The startup reset gates every command\<close>

lemma store_mode_frame [simp]:
  "sn_ats_mode (rs_snap (set_input_fault b s)) = sn_ats_mode (rs_snap s)"
  "sn_ats_mode (rs_snap (set_output_fault b s)) = sn_ats_mode (rs_snap s)"
  "sn_ats_mode (rs_snap (release_maintained_commands s)) = sn_ats_mode (rs_snap s)"
  "sn_ats_mode (rs_snap (latch_mode_reject b s)) = sn_ats_mode (rs_snap s)"
  "sn_ats_mode (rs_snap (apply_output_state out s)) = sn_ats_mode (rs_snap s)"
  by (simp_all add: store_writer_defs)

lemma write_mode_frame [simp]: "sn_ats_mode (rs_snap (snd (write_register a v s))) = sn_ats_mode (rs_snap s)"
  using write_register_snd [of a v s] by auto

lemma set_values_mode_frame [simp]:
  "sn_ats_mode (rs_snap (snd (set_values_from a vs s))) = sn_ats_mode (rs_snap s)"
proof (induction vs arbitrary: a s)
  case (Cons v vs)
  obtain i s' where wr: "write_register a v s = (i, s')" by fastforce
  with write_mode_frame [of a v s] Cons.IH [of "a + 1" s'] show ?case
    by (simp add: case_prod_beta split: option.split)
qed simp

lemma validate_mode_frame [simp]:
  "sn_ats_mode (rs_snap (snd (validate dv fc a n s))) = sn_ats_mode (rs_snap s)"
  by (simp add: validate_def validate_writes_eq)

lemma unknown_mode_no_intent:
  assumes "sn_ats_mode (rs_snap s) = ''unknown''"
  shows "fst (set_values_from a vs s) = []"
  using assms
proof (induction vs arbitrary: a s)
  case (Cons v vs)
  obtain i s' where wr: "write_register a v s = (i, s')" by fastforce
  have "fst (write_register a v s) = None"
    using Cons.prems by (auto simp: write_register_def allowed_modes_for_addr_def split: option.splits if_splits)
  moreover have "sn_ats_mode (rs_snap s') = ''unknown''" using write_mode_frame [of a v s] wr Cons.prems by simp
  ultimately show ?case using wr Cons.IH [of s' "a + 1"] by (simp add: case_prod_beta)
qed simp

definition gated :: "'s service \<Rightarrow> bool" where
  "gated sy \<longleftrightarrow> (\<not> sy_outputs_reset sy \<longrightarrow>
     sn_ats_mode (rs_snap (sy_store sy)) = ''unknown'' \<and> sy_dispatch sy = [] \<and> sy_sampling sy = At_Start)"

lemma gated_step:
  assumes "service_step env ops e sy sy'" and "gated sy"
  shows "gated sy'"
  using assms
proof (induction rule: service_step.induct)
  case (Set_Values address vals sy)
  then show ?case
    using unknown_mode_no_intent [of "sy_store sy" "address - 1" vals] set_values_mode_frame [of "address - 1" vals "sy_store sy"]
    by (auto simp: gated_def commanded_by_def set_values_def case_prod_beta)
next
  case (Sample_Reset sy)
  then show ?case
    by (auto simp: gated_def sample_reset_def sampling_failed_def split: prod.split sum.split)
qed (auto simp: gated_def tick_started_store sample_reset_flag)

lemma reset_step:
  assumes "service_step env ops e sy sy'" and "sy_outputs_reset sy"
  shows "sy_outputs_reset sy'"
  using assms by (induction rule: service_step.induct) (auto simp: sample_reset_flag)

lemma reset_run: "service_run env ops es sy sy' \<Longrightarrow> sy_outputs_reset sy \<Longrightarrow> sy_outputs_reset sy'"
  by (induction rule: service_run.induct) (auto intro: reset_step)

lemma gated_run:
  assumes "service_run env ops es sy sy'" and "gated sy" and "\<not> sy_outputs_reset sy'"
  shows "sy_dispatch sy' = [] \<and> (\<forall>i. Ev_Dispatch i \<notin> set es)"
  using assms
proof (induction rule: service_run.induct)
  case (Done sy)
  then show ?case by (simp add: gated_def)
next
  case (Step e sy sy1 es sy2)
  then have "gated sy1" using gated_step by blast
  with Step have rest: "sy_dispatch sy2 = [] \<and> (\<forall>i. Ev_Dispatch i \<notin> set es)" by blast
  have "\<not> sy_outputs_reset sy" using Step reset_step reset_run by blast
  with Step(4) have empty: "sy_dispatch sy = []" by (simp add: gated_def)
  have "e \<noteq> Ev_Dispatch i" for i
    using Step(1) empty by (auto elim: service_step.cases)
  with rest show ?case by auto
qed

context driven_service
begin

text \<open>The step in which the reset lands leaves every command output off.\<close>

lemma reset_landed:
  assumes "service_step env ops e sy sy'" and "\<not> sy_outputs_reset sy" and "sy_outputs_reset sy'"
  shows "commanded (sy_driver sy') out = Some False"
  using assms
proof (induction rule: service_step.induct)
  case (Sample_Reset sy)
  then obtain d where "release_all_outputs (sy_driver sy) = (Inr (), d)"
    by (auto simp: sample_reset_def sampling_failed_def split: prod.splits sum.splits)
  with Sample_Reset release_all [OF this] show ?case by (simp add: sample_driver)
qed (simp_all add: sample_reset_flag)

end

end
