(* ===== verification/Adam_Correctness.thy ===== *)
theory Adam_Correctness
  imports Adam_Safety
begin

text \<open>
  The properties of the ADAM driver over whole runs: any sequence of driver calls and release-task
  wake-ups, in any order, against any unit.  \<open>unit_sim\<close> is a small unit used only to show that the
  hypotheses can hold and to run concrete scenarios.
\<close>

section \<open>Runs of the driver\<close>

datatype adam_op =
    Op_Connect
  | Op_Close
  | Op_Read_Inputs
  | Op_Read_Outputs
  | Op_Drive "int option" "bool option" "bool option" "int option"
  | Op_Release_All
  | Op_Task nat

fun adam_op_step :: "'w modbus_api \<Rightarrow> adam_op \<Rightarrow> 'w adam \<Rightarrow> 'w adam" where
  "adam_op_step api Op_Connect d = snd (adam_connect api d)"
| "adam_op_step api Op_Close d = snd (adam_close api d)"
| "adam_op_step api Op_Read_Inputs d = snd (adam_read_inputs api d)"
| "adam_op_step api Op_Read_Outputs d = snd (adam_read_output_state api d)"
| "adam_op_step api (Op_Drive t i f b) d = snd (adam_drive_outputs api t i f b d)"
| "adam_op_step api Op_Release_All d = snd (adam_release_all_outputs api d)"
| "adam_op_step api (Op_Task k) d = snd (adam_release_step api k d)"

definition adam_run :: "'w modbus_api \<Rightarrow> adam_op list \<Rightarrow> 'w adam \<Rightarrow> 'w adam" where
  "adam_run api ops d = fold (adam_op_step api) ops d"

lemma adam_run_invariant:
  assumes "\<And>op d. P d \<Longrightarrow> P (adam_op_step api op d)" and "P d"
  shows "P (adam_run api ops d)"
  unfolding adam_run_def using assms by (induction ops arbitrary: d) auto

section \<open>A simulated unit\<close>

record unit_sim =
  us_alive :: bool
  us_armed :: bool
  us_writes_fail :: bool
  us_mute :: bool
  us_coils :: "(int \<times> bool) list"
  us_clock :: real

definition sim_registers :: "unit_sim \<Rightarrow> int \<Rightarrow> int \<Rightarrow> int list" where
  "sim_registers u a n =
     (if us_mute u then [] else map (\<lambda>k. if a + int k = 0 then (if us_armed u then 1 else 0) else if a + int k = 1 then 70 else 0)
       [0..<nat n])"

definition sim_api :: "unit_sim modbus_api" where
  "sim_api =
     \<lparr>api_new = id,
      api_connect = (\<lambda>u. (Inr True, u\<lparr>us_alive := True\<rparr>)),
      api_connected = us_alive,
      api_close = (\<lambda>u. (Inr (), u\<lparr>us_alive := False\<rparr>)),
      api_read_bits = (\<lambda>r a n s u. (Inr (Response (map (\<lambda>k. (a + int k, True) \<in> set (us_coils u)) [0..<nat n])), u)),
      api_write_coil = (\<lambda>a v s u. if us_writes_fail u then (Inl LibTimeout, u)
                          else (Inr (Response ()), u\<lparr>us_coils := (a, v) # us_coils u\<rparr>)),
      api_read_holding = (\<lambda>a n s u. (Inr (Response (sim_registers u a n)), u)),
      api_monotonic = us_clock\<rparr>"

definition sim_config :: HwWatchdogConfig where
  "sim_config = default_hw_watchdog_config
     \<lparr>enable_register := Some 0, timeout_register := Some 1, safety_value_register_base := Some 2\<rparr>"

definition sim_unit :: "bool \<Rightarrow> unit_sim" where
  "sim_unit armed = \<lparr>us_alive = False, us_armed = armed, us_writes_fail = False, us_mute = False, us_coils = [], us_clock = 0\<rparr>"

definition sim_driver :: "bool \<Rightarrow> unit_sim adam" where
  "sim_driver armed =
     (case adam_init 1 3 ''auto'' ''coils'' True (Some sim_config) (sim_unit armed) of
        Inr d \<Rightarrow> d | Inl e \<Rightarrow> undefined)"

lemma sim_driver_eq:
  "sim_driver armed =
     \<lparr>lk_env = sim_unit armed, lk_client = False, lk_connected = False, ad_unit_id = 1,
      ad_assumed_mode = ''auto'', ad_di_read = ''coils'', ad_require_hw_watchdog = True,
      ad_hw_watchdog = Some sim_config, ad_hw_watchdog_ok = False,
      ad_hw_watchdog_detail = Not_Yet_Verified, ad_hw_watchdog_checked = False,
      ad_test_release_task = None, ad_bypass_release_task = None, ad_load_disconnect_seen_mono = None,
      ad_debounce = debouncer_init 3, ad_commanded_do = [], ad_tasks = []\<rparr>"
  by (simp add: sim_driver_def adam_init_def VALID_ASSUMED_MODES_def DI_READ_FN_def)

lemmas sim_eval = sim_driver_eq sim_unit_def sim_api_def sim_registers_def sim_config_def
  default_hw_watchdog_config_def upt_rec
  adam_connect_def open_link_def adam_verify_hw_watchdog_def adam_hw_readback_def
  adam_read_holding_register_def adam_read_holding_registers_def set_hw_watchdog_status_def
  hw_problems_def adam_ensure_connected_def ensure_connected_def adam_write_coil_def request_def
  checked_response_def mark_down_def call_def py_index_def py_take_def adam_drive_outputs_def
  adam_maintained_def adam_pulsed_def record_commanded_def now_def act_simps

lemma sim_connect:
  "snd (adam_connect sim_api (sim_driver True)) =
     (sim_driver True)\<lparr>lk_env := (sim_unit True)\<lparr>us_alive := True\<rparr>, lk_client := True, lk_connected := True,
        ad_hw_watchdog_ok := True, ad_hw_watchdog_detail := Armed 7 6, ad_hw_watchdog_checked := True\<rparr>"
  by (simp add: sim_eval)

section \<open>Fail closed\<close>

text \<open>
  \<open>I\<close> says of the unit that no command output is asserted: it survives every request but a coil write of
  \<open>True\<close>.
\<close>

definition only_asserts_break :: "'w modbus_api \<Rightarrow> ('w \<Rightarrow> bool) \<Rightarrow> bool" where
  "only_asserts_break api I \<longleftrightarrow> (\<forall>w. I w \<longrightarrow>
     I (api_new api w) \<and> I (snd (api_connect api w)) \<and> I (snd (api_close api w)) \<and>
     (\<forall>r a c s. I (snd (api_read_bits api r a c s w))) \<and>
     (\<forall>a c s. I (snd (api_read_holding api a c s w))) \<and>
     (\<forall>a s. I (snd (api_write_coil api a False s w))))"

text \<open>No three readings of the watchdog registers in such a unit satisfy the check.\<close>

definition reads_back :: "'w modbus_api \<Rightarrow> ('w \<Rightarrow> bool) \<Rightarrow> int \<Rightarrow> int \<Rightarrow> int \<Rightarrow> int list \<Rightarrow> bool" where
  "reads_back api I slave a cnt vs \<longleftrightarrow>
     (\<exists>w rs. I w \<and> fst (api_read_holding api a cnt slave w) = Inr (Response rs) \<and> vs = py_take cnt rs)"

definition never_armed :: "'w modbus_api \<Rightarrow> ('w \<Rightarrow> bool) \<Rightarrow> int \<Rightarrow> HwWatchdogConfig option \<Rightarrow> bool" where
  "never_armed api I slave config \<longleftrightarrow>
     (\<forall>cfg e t b ev es tv ts sv.
        config = Some cfg \<longrightarrow> enable_register cfg = Some e \<longrightarrow> timeout_register cfg = Some t \<longrightarrow>
        safety_value_register_base cfg = Some b \<longrightarrow>
        reads_back api I slave e 1 (ev # es) \<longrightarrow> reads_back api I slave t 1 (tv # ts) \<longrightarrow>
        reads_back api I slave b (safety_value_count cfg) sv \<longrightarrow>
        hw_problems cfg ev tv sv \<noteq> [])"

text \<open>The invariant of the run.\<close>

definition unasserted :: "('w \<Rightarrow> bool) \<Rightarrow> int \<Rightarrow> HwWatchdogConfig option \<Rightarrow> 'w adam \<Rightarrow> bool" where
  "unasserted I slave config d \<longleftrightarrow>
     I (lk_env d) \<and> ad_unit_id d = slave \<and> ad_require_hw_watchdog d \<and> ad_hw_watchdog d = config \<and>
     \<not> ad_hw_watchdog_ok d"

lemma unasserted_link_keeps:
  "only_asserts_break api I \<Longrightarrow> link_keeps api (unasserted I slave config)"
  by (auto simp: only_asserts_break_def link_keeps_def unasserted_def)

text \<open>A value the driver reads from its registers was read back in a unit with \<open>I\<close>.\<close>

lemma holding_read_back:
  assumes "link_keeps api (unasserted I slave config)"
  shows "triple (unasserted I slave config) (adam_read_holding_registers api a c)
    (\<lambda>vs d. unasserted I slave config d \<and> reads_back api I slave a c vs) (\<lambda>_. unasserted I slave config)"
proof (rule tripleI)
  fix s vs s'
  assume u: "unasserted I slave config s" and m: "adam_read_holding_registers api a c s = (Inr vs, s')"
  from keepsD [OF keeps_adam_read_holding(1) [OF assms] u, of a c] m
  have "unasserted I slave config s'" by simp
  moreover have "reads_back api I slave a c vs"
    using m u unfolding adam_read_holding_registers_def reads_back_def unasserted_def
    by (auto elim!: andthen_returnE catching_cases simp: act_simps call_def checked_response_def
        split: if_splits prod.splits response.splits sum.splits)
  ultimately show "unasserted I slave config s' \<and> reads_back api I slave a c vs" ..
next
  fix s e s'
  assume u: "unasserted I slave config s" and m: "adam_read_holding_registers api a c s = (Inl e, s')"
  from keepsD [OF keeps_adam_read_holding(1) [OF assms] u, of a c] m
  show "unasserted I slave config s'" by simp
qed

lemma register_read_back:
  assumes "link_keeps api (unasserted I slave config)"
  shows "triple (unasserted I slave config) (adam_read_holding_register api a)
    (\<lambda>v d. unasserted I slave config d \<and> (\<exists>vs. reads_back api I slave a 1 (v # vs)))
    (\<lambda>_. unasserted I slave config)"
  unfolding adam_read_holding_register_def
proof (rule triple_andthen [OF holding_read_back [OF assms]], rule tripleI)
  fix rs s v s'
  assume "unasserted I slave config s \<and> reads_back api I slave a 1 rs"
    and "lift_result (py_index rs 0) s = (Inr v, s')"
  then show "unasserted I slave config s' \<and> (\<exists>vs. reads_back api I slave a 1 (v # vs))"
    by (cases rs) (auto simp: act_simps py_index_def)
qed (auto simp: act_simps)

lemma readback_reads_back:
  assumes "link_keeps api (unasserted I slave config)"
  shows "triple (unasserted I slave config) (adam_hw_readback api cfg e t b)
    (\<lambda>r d. unasserted I slave config d \<and>
       (\<forall>ev tv sv. r = Inr (ev, tv, sv) \<longrightarrow>
          (\<exists>vs. reads_back api I slave e 1 (ev # vs)) \<and> (\<exists>vs. reads_back api I slave t 1 (tv # vs)) \<and>
          reads_back api I slave b (safety_value_count cfg) sv))
    (\<lambda>_. unasserted I slave config)"
proof -
  let ?U = "unasserted I slave config"
  have framed: "triple (\<lambda>d. ?U d \<and> F) m (\<lambda>x d. Q x d \<and> F) (\<lambda>_. ?U)"
    if "triple ?U m Q (\<lambda>_. ?U)" for F m and Q :: "'b \<Rightarrow> 'a adam \<Rightarrow> bool"
    using that by (cases F) (auto simp: triple_def split: prod.split sum.split)
  show ?thesis
    unfolding adam_hw_readback_def
    apply (rule triple_catching [where R = "\<lambda>_. ?U"])
     apply (rule triple_andthen [OF register_read_back [OF assms]])
     apply (rule triple_andthen [OF framed [OF register_read_back [OF assms]]])
     apply (subst conj_assoc)
     apply (rule triple_andthen [OF framed [OF holding_read_back [OF assms]]])
     apply (rule triple_pre [OF triple_ret])
     apply simp
    apply (rule triple_if)
     apply (rule triple_pre [OF triple_ret], simp)
    apply (rule triple_pre [OF triple_raise], simp)
    done
qed

lemma unasserted_verify:
  assumes closed: "only_asserts_break api I" and never: "never_armed api I slave config"
  shows "keeps (unasserted I slave config) (adam_verify_hw_watchdog api)"
proof (rule keepsI)
  fix d assume u: "unasserted I slave config d"
  note K = unasserted_link_keeps [OF closed, of slave config]
  have down: "unasserted I slave config (snd (set_hw_watchdog_status False det d'))"
    if "unasserted I slave config d'" for det d'
    using that by (simp add: set_hw_watchdog_status_def act_simps unasserted_def)
  have req: "ad_require_hw_watchdog d" "ad_hw_watchdog d = config" using u by (simp_all add: unasserted_def)
  show "unasserted I slave config (snd (adam_verify_hw_watchdog api d))"
  proof (cases "\<exists>cfg e t b. config = Some cfg \<and> enable_register cfg = Some e \<and>
      timeout_register cfg = Some t \<and> safety_value_register_base cfg = Some b")
    case False
    then have "adam_verify_hw_watchdog api d = set_hw_watchdog_status False Registers_Not_Configured d"
      using req by (auto simp: adam_verify_hw_watchdog_def andthen_def gets_def split: option.split)
    with down [OF u] show ?thesis by simp
  next
    case True
    then obtain cfg e t b where cfg: "config = Some cfg" "enable_register cfg = Some e"
      "timeout_register cfg = Some t" "safety_value_register_base cfg = Some b" by blast
    show ?thesis
    proof (cases "adam_hw_readback api cfg e t b" d rule: act_cases)
      case (raised x d')
      with triple_raiseD [OF readback_reads_back [OF K] u raised] req cfg show ?thesis
        by (simp add: adam_verify_hw_watchdog_def andthen_def gets_def)
    next
      case (returned r d')
      note got = triple_returnD [OF readback_reads_back [OF K] u returned]
      then have u': "unasserted I slave config d'" by simp
      have read: "hw_problems cfg ev tv sv \<noteq> []" if "r = Inr (ev, tv, sv)" for ev tv sv
      proof -
        from got that obtain vs ws where "reads_back api I slave e 1 (ev # vs)"
          "reads_back api I slave t 1 (tv # ws)" "reads_back api I slave b (safety_value_count cfg) sv"
          by auto
        with never cfg show ?thesis unfolding never_armed_def by metis
      qed
      have "\<exists>det. adam_verify_hw_watchdog api d = set_hw_watchdog_status False det d'"
        using returned req cfg read
        by (cases r) (auto simp: adam_verify_hw_watchdog_def andthen_def gets_def Let_def)
      then show ?thesis using down [OF u'] by auto
    qed
  qed
qed

lemma unasserted_ops:
  assumes closed: "only_asserts_break api I" and never: "never_armed api I slave config"
  shows "keeps (unasserted I slave config) (adam_connect api)"
    and "keeps (unasserted I slave config) (adam_read_di_bits api c)"
    and "keeps (unasserted I slave config) (adam_read_coils api a c)"
    and "keeps (unasserted I slave config) (adam_write_coil api a False)"
    and "keeps (unasserted I slave config) (close_link api)"
proof -
  note link = keeps_adam_link [OF unasserted_link_keeps [OF closed] unasserted_verify [OF closed never]]
  show "keeps (unasserted I slave config) (adam_connect api)" by (rule link(1))
  show "keeps (unasserted I slave config) (adam_read_di_bits api c)" by (rule link(4))
  show "keeps (unasserted I slave config) (adam_read_coils api a c)" by (rule link(5))
  show "keeps (unasserted I slave config) (adam_write_coil api a False)"
    by (rule link(6)) (use closed in \<open>simp add: unasserted_def only_asserts_break_def\<close>)
  show "keeps (unasserted I slave config) (close_link api)" by (rule link(7))
qed

text \<open>Updates of the attributes the invariant does not mention.\<close>

lemma unasserted_updates [simp]:
  "unasserted I slave config (d\<lparr>ad_tasks := ts\<rparr>) = unasserted I slave config d"
  "unasserted I slave config (d\<lparr>ad_commanded_do := cs\<rparr>) = unasserted I slave config d"
  "unasserted I slave config (d\<lparr>ad_debounce := db\<rparr>) = unasserted I slave config d"
  "unasserted I slave config (d\<lparr>ad_load_disconnect_seen_mono := t\<rparr>) = unasserted I slave config d"
  by (simp_all add: unasserted_def)

lemma unasserted_record: "keeps (unasserted I slave config) (record_commanded api i b)"
  unfolding record_commanded_def by (rule keeps_modify) simp

lemma unasserted_step:
  assumes closed: "only_asserts_break api I" and never: "never_armed api I slave config"
    and u: "unasserted I slave config d"
  shows "unasserted I slave config (adam_op_step api op d)"
proof -
  note ops = unasserted_ops [OF closed never] unasserted_record
  have release: "keeps (unasserted I slave config) (release_output api i)" for i
    unfolding release_output_def by (intro hoare ops)
  have cancel: "keeps (unasserted I slave config) cancel_release_tasks"
    unfolding cancel_release_tasks_def by (rule keeps_modify) simp
  have phase: "keeps (unasserted I slave config) (set_phase k p)" for k p
    unfolding set_phase_def by (rule keeps_modify) simp
  have attempt: "keeps (unasserted I slave config) (release_attempt api k coil)" for k coil
    unfolding release_attempt_def by (intro hoare ops phase)
  show ?thesis
  proof (cases op)
    case Op_Connect
    then show ?thesis using keepsD [OF ops(1) u] by simp
  next
    case Op_Close
    have "keeps (unasserted I slave config) (adam_close api)"
      unfolding adam_close_def by (intro hoare cancel ops)
    from keepsD [OF this u] Op_Close show ?thesis by simp
  next
    case Op_Read_Inputs
    have "keeps (unasserted I slave config) (adam_read_inputs api)"
      unfolding adam_read_inputs_def adam_inputs_from_def adam_latch_inputs_def by (intro hoare ops) simp_all
    from keepsD [OF this u] Op_Read_Inputs show ?thesis by simp
  next
    case Op_Read_Outputs
    have "keeps (unasserted I slave config) (adam_read_output_state api)"
      unfolding adam_read_output_state_def adam_outputs_from_def by (intro hoare ops)
    from keepsD [OF this u] Op_Read_Outputs show ?thesis by simp
  next
    case (Op_Drive t i f b)
    show ?thesis
    proof (cases "asserts_output t i f b")
      case True
      with u adam_drive_refuses [of d t i f b api] Op_Drive show ?thesis by (simp add: unasserted_def)
    next
      case False
      have maintained: "keeps (unasserted I slave config) (adam_maintained api j v)" if "v \<noteq> Some True" for j v
      proof -
        from that have "v = None \<or> v = Some False" by (cases v) auto
        moreover have "keeps (unasserted I slave config) (adam_maintained api j None)"
          by (simp add: adam_maintained_def keeps_pure)
        moreover have "keeps (unasserted I slave config) (adam_maintained api j (Some False))"
          unfolding adam_maintained_def option.case by (intro hoare ops)
        ultimately show ?thesis by auto
      qed
      have "keeps (unasserted I slave config) (andthen (adam_pulsed api DO_TEST t) (\<lambda>_.
          andthen (adam_maintained api DO_INHIBIT i) (\<lambda>_.
          andthen (adam_maintained api DO_FORCE_TRANSFER f) (\<lambda>_. adam_pulsed api DO_BYPASS_DELAY b))))"
        if "t = None" "b = None" "i \<noteq> Some True" "f \<noteq> Some True"
        unfolding that(1,2) adam_pulsed_def option.case by (intro hoare maintained that(3,4))
      from keepsD [OF this u] Op_Drive False show ?thesis
        by (simp add: adam_drive_body asserts_output_def)
    qed
  next
    case Op_Release_All
    have "keeps (unasserted I slave config) (adam_release_all_outputs api)"
      unfolding adam_release_all_outputs_def by (intro hoare cancel release)
    from keepsD [OF this u] Op_Release_All show ?thesis by simp
  next
    case (Op_Task k)
    have "keeps (unasserted I slave config) (adam_release_step api k)"
      unfolding adam_release_step_def
      by (rule keeps_andthen) (auto simp: keeps_pure split: release_phase.split intro!: hoare ops attempt)
    from keepsD [OF this u] Op_Task show ?thesis by simp
  qed
qed

text \<open>
  The ADAM driver fails closed.  Built with the hardware self-check required (the default) and run
  against a unit whose host-watchdog registers never read back as armed -- unreadable, unconfigured, or
  holding any other values -- no sequence of driver calls and task wake-ups, with reconnects and
  link failures in between, asserts a command output: whatever only an asserting coil write could break
  still holds of the unit.
\<close>

theorem adam_fails_closed:
  assumes "adam_init slave debounce mode di_read True config w = Inr d" and "I w"
    and "only_asserts_break api I" and "never_armed api I slave config"
  shows "I (lk_env (adam_run api ops d)) \<and> \<not> ad_hw_watchdog_ok (adam_run api ops d)"
proof -
  from assms(1,2) have "unasserted I slave config d"
    by (auto simp: adam_init_def unasserted_def split: if_splits)
  with unasserted_step [OF assms(3,4)] have "unasserted I slave config (adam_run api ops d)"
    by (rule adam_run_invariant)
  then show ?thesis by (simp add: unasserted_def)
qed

text \<open>Concretely: the simulated unit with its host watchdog disabled.\<close>

definition all_off :: "unit_sim \<Rightarrow> bool" where
  "all_off u \<longleftrightarrow> \<not> us_armed u \<and> list_all (\<lambda>(a, v). \<not> v) (us_coils u)"

lemma sim_only_asserts_break: "only_asserts_break sim_api all_off"
  by (simp add: only_asserts_break_def sim_api_def all_off_def)

lemma sim_never_armed: "never_armed sim_api all_off 1 (Some sim_config)"
  by (auto simp: never_armed_def reads_back_def sim_api_def all_off_def sim_registers_def sim_config_def
      default_hw_watchdog_config_def hw_problems_def py_take_def Let_def)

lemma adam_fails_closed_witness:
  "all_off (lk_env (adam_run sim_api [Op_Connect, Op_Drive None None (Some True) None, Op_Read_Outputs] (sim_driver False)))"
  using adam_fails_closed [of 1 3 "''auto''" "''coils''" "Some sim_config" "sim_unit False" "sim_driver False" all_off
      sim_api "[Op_Connect, Op_Drive None None (Some True) None, Op_Read_Outputs]"]
  by (simp add: sim_only_asserts_break sim_never_armed)
    (simp add: adam_init_def sim_driver_eq VALID_ASSUMED_MODES_def DI_READ_FN_def all_off_def sim_unit_def)

section \<open>The self-check\<close>

text \<open>The documented arming condition on the three values read back.\<close>

definition armed_values :: "HwWatchdogConfig \<Rightarrow> int \<Rightarrow> int \<Rightarrow> int list \<Rightarrow> bool" where
  "armed_values cfg enable_raw timeout_raw safety_raw \<longleftrightarrow>
     enable_raw = enable_expected cfg \<and>
     timeout_min_s cfg \<le> of_int timeout_raw * timeout_scale_s cfg \<and>
     of_int timeout_raw * timeout_scale_s cfg \<le> timeout_max_s cfg \<and>
     list_all (\<lambda>v. v = 0) safety_raw"

lemma hw_problems_empty: "hw_problems cfg ev tv sv = [] \<longleftrightarrow> armed_values cfg ev tv sv"
proof -
  have "[(base + int i, v). (i, v) \<leftarrow> enumerate k sv, v \<noteq> 0] = [] \<longleftrightarrow> list_all (\<lambda>v. v = 0) sv" for base k
    by (induction sv arbitrary: k) auto
  then show ?thesis by (simp add: hw_problems_def armed_values_def Let_def)
qed

definition readback_armed :: "HwWatchdogConfig \<Rightarrow> exc + int \<times> int \<times> int list \<Rightarrow> bool" where
  "readback_armed cfg r = (case r of Inl e \<Rightarrow> False | Inr (ev, tv, sv) \<Rightarrow> armed_values cfg ev tv sv)"

definition adam_readback :: "'w modbus_api \<Rightarrow> HwWatchdogConfig \<Rightarrow> ('w adam, exc + int \<times> int \<times> int list) act" where
  "adam_readback api cfg =
     (case (enable_register cfg, timeout_register cfg, safety_value_register_base cfg) of
        (Some e, Some t, Some b) \<Rightarrow> adam_hw_readback api cfg e t b
      | _ \<Rightarrow> ret (Inl OSError))"

lemma keeps_status_readback:
  "keeps (\<lambda>d. (ad_hw_watchdog_ok d, ad_hw_watchdog_detail d, ad_hw_watchdog_checked d) = v)
     (adam_hw_readback api cfg e t b)"
  by (rule keeps_adam_read_holding) (simp add: link_keeps_def)

text \<open>
  C13: what the self-check decides.  When it returns, the driver is armed exactly if the check is waived, or all
  three register addresses are configured, the reads succeeded and the values are the enabled value, a
  timeout in the configured band and all-zero safety values; in particular no configuration, an
  incomplete one and a failed read all leave it unarmed.  When it raises (an exception other than an
  \<open>OSError\<close>: an empty response is an \<open>IndexError\<close>), the flag keeps its previous value: after an armed
  connection the driver stays armed on a reconnect whose readback blew up.
\<close>

theorem hw_self_check_decides:
  "case adam_verify_hw_watchdog api d of
     (Inr _, d') \<Rightarrow> ad_hw_watchdog_ok d' =
       (if ad_require_hw_watchdog d then
          (case ad_hw_watchdog d of
             None \<Rightarrow> False
           | Some cfg \<Rightarrow> is_configured cfg \<and>
               (case fst (adam_readback api cfg d) of Inl e \<Rightarrow> False | Inr r \<Rightarrow> readback_armed cfg r))
        else True)
   | (Inl e, d') \<Rightarrow> \<not> is_OSError e \<and> ad_hw_watchdog_ok d' = ad_hw_watchdog_ok d"
proof -
  note eval = adam_verify_hw_watchdog_def andthen_def gets_def set_hw_watchdog_status_def modify_def
  consider (waived) "\<not> ad_require_hw_watchdog d"
    | (none) "ad_require_hw_watchdog d" "ad_hw_watchdog d = None"
    | (incomplete) cfg where "ad_require_hw_watchdog d" "ad_hw_watchdog d = Some cfg" "\<not> is_configured cfg"
    | (configured) cfg e t b where "ad_require_hw_watchdog d" "ad_hw_watchdog d = Some cfg"
        "enable_register cfg = Some e" "timeout_register cfg = Some t" "safety_value_register_base cfg = Some b"
    unfolding is_configured_def by fastforce
  then show ?thesis
  proof cases
    case waived
    then show ?thesis by (simp add: eval)
  next
    case none
    then show ?thesis by (simp add: eval)
  next
    case incomplete
    then have "adam_verify_hw_watchdog api d = set_hw_watchdog_status False Registers_Not_Configured d"
      by (auto simp: adam_verify_hw_watchdog_def andthen_def gets_def is_configured_def split: option.split)
    with incomplete show ?thesis by (simp add: set_hw_watchdog_status_def modify_def)
  next
    case cfg: configured
  then have conf: "is_configured cfg" and rb: "adam_readback api cfg d = adam_hw_readback api cfg e t b d"
    by (simp_all add: is_configured_def adam_readback_def)
  show ?thesis
  proof (cases "adam_hw_readback api cfg e t b" d rule: act_cases)
    case (raised x d')
    then have "\<not> is_OSError x"
      by (auto simp: adam_hw_readback_def act_simps split: sum.splits prod.splits if_splits)
    moreover have "ad_hw_watchdog_ok d' = ad_hw_watchdog_ok d"
      using keepsD [OF keeps_status_readback refl, of api cfg e t b d] raised by simp
    ultimately show ?thesis
      using raised cfg by (simp add: adam_verify_hw_watchdog_def andthen_def gets_def)
  next
    case (returned r d')
    show ?thesis
    proof (cases r)
      case (Inl x)
      with returned cfg conf rb show ?thesis
        by (simp add: adam_verify_hw_watchdog_def andthen_def gets_def readback_armed_def
            set_hw_watchdog_status_def modify_def)
    next
      case (Inr v)
      obtain ev tv sv where "v = (ev, tv, sv)" by (cases v)
      with Inr returned cfg conf rb show ?thesis
        by (simp add: adam_verify_hw_watchdog_def andthen_def gets_def readback_armed_def
            set_hw_watchdog_status_def modify_def hw_problems_empty)
    qed
  qed
  qed
qed

text \<open>
  C39: the check and the write are not atomic.  \<open>drive_outputs\<close> tests the armed flag once, then writes through
  \<open>_ensure_connected\<close>, which may reconnect and run the self-check again.  So let a driver whose flag is set by an
  earlier connection find its link down at the first write of an Inhibit or Force-Transfer ON, and let the reconnect succeed with a
  self-check that the unit fails (a unit power-cycled to its defaults): if the unit accepts the coil write, the call returns
  normally with the output asserted and the flag cleared -- a relay driven with no hardware fail-safe behind it.
\<close>

theorem reconnect_asserts_unverified:
  assumes "ad_hw_watchdog_ok d" and "lk_client d" and "lk_connected d" and "\<not> api_connected api (lk_env d)"
    and "adam_connect api d = (Inr True, d1)" and "\<not> ad_hw_watchdog_ok d1"
    and "(i, f, j) \<in> {(Some True, None, DO_INHIBIT), (None, Some True, DO_FORCE_TRANSFER)}"
    and "api_write_coil api (DO_COIL_BASE + int j) True (ad_unit_id d1) (lk_env d1) = (Inr (Response ()), w)"
  shows "\<exists>d2. adam_drive_outputs api None i f None d = (Inr (), d2) \<and> lk_env d2 = w \<and>
    last_commanded d2 j = Some True \<and> \<not> ad_hw_watchdog_ok d2"
proof -
  have "lk_connected d1"
    using assms(5) by (auto simp: adam_connect_def gets_def elim!: andthen_returnE)
  then have wrote: "adam_write_coil api (DO_COIL_BASE + int j) True d = (Inr (), d1\<lparr>lk_env := w\<rparr>)"
    using assms(2-5,8)
    by (simp add: adam_write_coil_def adam_ensure_connected_def ensure_connected_def request_def call_def
        checked_response_def act_simps)
  then show ?thesis using assms(1,6,7)
    by (auto simp: adam_drive_outputs_def adam_pulsed_def adam_maintained_def record_commanded_def last_commanded_def
        update_conv' act_simps)
qed

text \<open>The simulated unit: armed at the first connection, then power-cycled.\<close>

lemma reconnect_asserts_unverified_witness:
  "\<exists>d2. adam_drive_outputs sim_api None None (Some True) None
      ((snd (adam_connect sim_api (sim_driver True)))\<lparr>lk_env := sim_unit False\<rparr>) = (Inr (), d2) \<and>
    us_coils (lk_env d2) = [(DO_COIL_BASE + int DO_FORCE_TRANSFER, True)] \<and> \<not> ad_hw_watchdog_ok d2"
proof -
  let ?d = "(snd (adam_connect sim_api (sim_driver True)))\<lparr>lk_env := sim_unit False\<rparr>"
  have start: "ad_hw_watchdog_ok ?d" "lk_client ?d" "lk_connected ?d" "\<not> api_connected sim_api (lk_env ?d)"
    unfolding sim_connect by (simp_all add: sim_unit_def sim_api_def)
  obtain d1 where d1: "adam_connect sim_api ?d = (Inr True, d1)" "\<not> ad_hw_watchdog_ok d1"
      "lk_env d1 = (sim_unit False)\<lparr>us_alive := True\<rparr>"
    unfolding sim_connect by (simp add: sim_eval)
  from d1(3) have wrote: "api_write_coil sim_api (DO_COIL_BASE + int DO_FORCE_TRANSFER) True (ad_unit_id d1) (lk_env d1) =
      (Inr (Response ()), (lk_env d1)\<lparr>us_coils := [(DO_COIL_BASE + int DO_FORCE_TRANSFER, True)]\<rparr>)"
    by (simp add: sim_api_def sim_unit_def)
  from reconnect_asserts_unverified [OF start d1(1,2) _ wrote, of None "Some True"] show ?thesis by auto
qed

section \<open>Inputs\<close>

definition db_coherent :: "debouncer \<Rightarrow> bool" where
  "db_coherent d = (case db_stable d of None \<Rightarrow> True | Some st \<Rightarrow> length (db_candidate_count d) = length st)"

lemma debounce_update_length:
  "db_coherent d \<Longrightarrow> length (fst (debounce_update raw d)) = length raw"
  by (auto simp: db_coherent_def debounce_update_def Let_def split: option.split)

lemma debounce_update_coherent:
  "db_coherent d \<Longrightarrow> db_coherent (snd (debounce_update raw d))"
  by (auto simp: db_coherent_def debounce_update_def Let_def split: option.split)

text \<open>
  C18: what one input read publishes, from the six raw bits and the debounced ones.  The momentary Load
  Disconnect contact is taken raw and reads as \<open>transferring\<close> for two seconds from its last pulse,
  whatever the position contacts say; otherwise exactly one position contact decides the position and
  both or none is \<open>unknown\<close>; both at once raise the calibration fault; the mode is the configured one.
\<close>

theorem adam_read_inputs_publishes:
  assumes read: "adam_read_di_bits api 6 d = (Inr raw, d1)" and six: "length raw = 6"
    and coherent: "db_coherent (ad_debounce d1)"
    and bits: "bits = fst (debounce_update raw (ad_debounce d1))"
    and seen: "seen = (if raw ! 0 then Some (now api d1) else ad_load_disconnect_seen_mono d1)"
  shows "fst (adam_read_inputs api d) = Inr
    \<lparr>in_position =
       (if \<exists>t. seen = Some t \<and> now api d1 - t < 2 then ''transferring''
        else if bits ! 1 = bits ! 2 then ''unknown''
        else if bits ! 1 then ''utility'' else ''generator''),
     in_normal_available = bits ! 3, in_emergency_available = bits ! 4,
     in_engine_start_calling = bits ! 5, in_ats_mode = ad_assumed_mode d1,
     in_fault_bits = (if bits ! 1 \<and> bits ! 2 then 8 else 0)\<rparr>"
proof -
  have len: "length bits = 6" using debounce_update_length [OF coherent] six bits by simp
  obtain bs db where upd: "debounce_update raw (ad_debounce d1) = (bs, db)" by fastforce
  with bits have "bs = bits" by simp
  moreover from six have "raw \<noteq> []" by auto
  ultimately show ?thesis using read six len upd seen
    by (simp add: adam_read_inputs_def adam_inputs_from_def adam_latch_inputs_def act_simps py_index_def switch_position_def
        calibration_bits_def bit_pulse_def split: option.split)
qed

lemma adam_read_inputs_publishes_witness:
  "fst (adam_read_inputs sim_api (sim_driver True)) = Inr
    \<lparr>in_position = ''unknown'', in_normal_available = False, in_emergency_available = False,
     in_engine_start_calling = False, in_ats_mode = ''auto'', in_fault_bits = 0\<rparr>"
proof -
  have read: "adam_read_di_bits sim_api 6 (sim_driver True) = (Inr (replicate 6 False),
      snd (adam_connect sim_api (sim_driver True)))"
    by (simp add: adam_read_di_bits_def adam_read_bits_def DI_READ_FN_def sim_eval numeral_eq_Suc)
  show ?thesis
    using adam_read_inputs_publishes [OF read] unfolding sim_connect
    by (simp add: sim_driver_eq db_coherent_def debouncer_init_def debounce_update_def numeral_eq_Suc)
qed

end
