(* ===== verification/Store_Correctness.thy ===== *)
theory Store_Correctness
  imports Register_Store
begin

text \<open>
  Properties of the register store: what the wire shows (ranges, coherent register pairs, reserved
  addresses, fault bits), the command gate and the mode-reject latch over whole runs, the transfer
  counters against the history of positions, and durability across a restart over the
  \<open>state_storage\<close> contract.
\<close>

section \<open>Well-formed stores and runs of store operations\<close>

definition u16 :: "int \<Rightarrow> bool" where
  "u16 x \<longleftrightarrow> 0 \<le> x \<and> x < 65536"

definition wf_store :: "RegisterStore \<Rightarrow> bool" where
  "wf_store s \<longleftrightarrow> u16 (rs_unit_id s) \<and> u16 (fst (rs_icd_version s)) \<and> u16 (snd (rs_icd_version s)) \<and>
     length (rs_fw_version s) = 3 \<and> list_all u16 (rs_fw_version s) \<and>
     sn_transfer_count_24h (rs_snap s) = int (length (rs_transfer_timestamps s))"

text \<open>Every operation the service performs on the store.\<close>

datatype store_event =
    Ev_Input bool int InputSnapshot
  | Ev_Output OutputState
  | Ev_Input_Fault bool
  | Ev_Output_Fault bool
  | Ev_Release
  | Ev_Can_Write int
  | Ev_Write int int

fun store_step :: "store_event \<Rightarrow> RegisterStore \<Rightarrow> RegisterStore" where
  "store_step (Ev_Input rl t i) s = fst (apply_input_snapshot rl t i s)"
| "store_step (Ev_Output o') s = apply_output_state o' s"
| "store_step (Ev_Input_Fault b) s = set_input_fault b s"
| "store_step (Ev_Output_Fault b) s = set_output_fault b s"
| "store_step Ev_Release s = release_maintained_commands s"
| "store_step (Ev_Can_Write a) s = snd (can_write a s)"
| "store_step (Ev_Write a v) s = snd (write_register a v s)"

definition store_run :: "store_event list \<Rightarrow> RegisterStore \<Rightarrow> RegisterStore" where
  "store_run es s = fold store_step es s"

lemma store_run_simps [simp]:
  "store_run [] s = s" "store_run (e # es) s = store_run es (store_step e s)"
  by (simp_all add: store_run_def)

lemma apply_input_frame [simp]:
  "rs_unit_id (fst (apply_input_snapshot rl t i s)) = rs_unit_id s"
  "rs_fw_version (fst (apply_input_snapshot rl t i s)) = rs_fw_version s"
  "rs_icd_version (fst (apply_input_snapshot rl t i s)) = rs_icd_version s"
  "rs_boot_mono (fst (apply_input_snapshot rl t i s)) = rs_boot_mono s"
  "rs_state_file (fst (apply_input_snapshot rl t i s)) = rs_state_file s"
  by (simp_all add: apply_input_snapshot_def Let_def)

lemma apply_input_snap [simp]:
  "sn_position (rs_snap (fst (apply_input_snapshot rl t i s))) = in_position i"
  "sn_ats_mode (rs_snap (fst (apply_input_snapshot rl t i s))) = in_ats_mode i"
  "sn_mode_reject_active (rs_snap (fst (apply_input_snapshot rl t i s))) = sn_mode_reject_active (rs_snap s)"
  "sn_fault_bits (rs_snap (fst (apply_input_snapshot rl t i s))) =
     merge_fault_bits (sn_fault_bits (rs_snap s)) (in_fault_bits i)"
  "sn_transfer_count_lifetime (rs_snap (fst (apply_input_snapshot rl t i s))) =
     sn_transfer_count_lifetime (rs_snap s) +
       of_bool (transferred_to_gen (sn_position (rs_snap s)) (in_position i))"
  "sn_transfer_count_24h (rs_snap (fst (apply_input_snapshot rl t i s))) =
     int (length (rs_transfer_timestamps (fst (apply_input_snapshot rl t i s))))"
  by (simp_all add: apply_input_snapshot_def Let_def)

lemma store_step_event_cases:
  assumes "\<And>rl t i. e = Ev_Input rl t i \<Longrightarrow> P (fst (apply_input_snapshot rl t i s))"
    and "\<And>f. store_step e s = upd_snap f s \<Longrightarrow> (\<And>rl t i. e \<noteq> Ev_Input rl t i) \<Longrightarrow> P (upd_snap f s)"
    and "P s"
  shows "P (store_step e s)"
proof (cases e)
  case (Ev_Can_Write a)
  with can_write_snd [of a s] assms(2,3) show ?thesis by (auto simp: latch_mode_reject_def)
next
  case (Ev_Write a v)
  with write_register_snd [of a v s] assms(2,3) show ?thesis by (auto simp: latch_mode_reject_def)
qed (use assms in \<open>auto simp: store_writer_defs\<close>)

lemma store_writers_24h [simp]:
  "sn_transfer_count_24h (rs_snap (apply_output_state o' s)) = sn_transfer_count_24h (rs_snap s)"
  "sn_transfer_count_24h (rs_snap (set_input_fault b s)) = sn_transfer_count_24h (rs_snap s)"
  "sn_transfer_count_24h (rs_snap (set_output_fault b s)) = sn_transfer_count_24h (rs_snap s)"
  "sn_transfer_count_24h (rs_snap (release_maintained_commands s)) = sn_transfer_count_24h (rs_snap s)"
  "sn_transfer_count_24h (rs_snap (latch_mode_reject b s)) = sn_transfer_count_24h (rs_snap s)"
  by (simp_all add: store_writer_defs)

lemma store_writers_frame [simp]:
  "rs_unit_id (latch_mode_reject b s) = rs_unit_id s" "rs_fw_version (latch_mode_reject b s) = rs_fw_version s"
  "rs_icd_version (latch_mode_reject b s) = rs_icd_version s"
  "rs_transfer_timestamps (latch_mode_reject b s) = rs_transfer_timestamps s"
  by (simp_all add: latch_mode_reject_def)

lemma wf_store_step: "wf_store s \<Longrightarrow> wf_store (store_step e s)"
proof (cases e)
  case (Ev_Can_Write a)
  then show "wf_store s \<Longrightarrow> wf_store (store_step e s)"
    using can_write_snd [of a s] by (auto simp: wf_store_def)
next
  case (Ev_Write a v)
  then show "wf_store s \<Longrightarrow> wf_store (store_step e s)"
    using write_register_snd [of a v s] by (auto simp: wf_store_def)
qed (simp_all add: wf_store_def, simp_all add: store_writer_defs)

lemma wf_store_run: "wf_store s \<Longrightarrow> wf_store (store_run es s)"
  by (induction es arbitrary: s) (auto intro: wf_store_step)

lemma wf_store_init:
  assumes "store_init u p m w = Inr s" and "u16 u"
  shows "wf_store s"
  using assms
  by (auto simp: store_init_def fw_version_VERSION ICD_VERSION_def wf_store_def u16_def Let_def)

section \<open>Registers on the wire\<close>

lemma u16_words [simp]: "u16 (hi_word x)" "u16 (lo_word x)" "u16 (of_bool b)"
  by (simp_all add: u16_def)

lemma u16_values [simp]: "u16 (position_to_value p)" "u16 (mode_to_value m)" "u16 (fault_summary n)"
  using fault_summary_range [of n]
  by (simp_all add: u16_def position_to_value_def mode_to_value_def)

text \<open>
  C22: every register fits the wire.  From a store built with a 16-bit unit id, after any sequence of
  store operations, a read of any address at any time returns a value in \<open>0 .. 65535\<close>, so the
  server can always encode it, even for negative or over-long persisted counters.
\<close>

theorem read_register_u16:
  assumes "store_init u p m0 w0 = Inr s" and "u16 u"
  shows "u16 (read_register addr m w (store_run es s))"
proof -
  have "wf_store (store_run es s)"
    by (rule wf_store_run [OF wf_store_init [OF assms]])
  then have fw: "\<And>i. i < 3 \<Longrightarrow> u16 (rs_fw_version (store_run es s) ! i)"
    and rest: "u16 (rs_unit_id (store_run es s))" "u16 (fst (rs_icd_version (store_run es s)))"
      "u16 (snd (rs_icd_version (store_run es s)))"
    by (auto simp: wf_store_def list_all_length)
  then show ?thesis
    unfolding read_register_def Let_def by (simp add: u16_def [of 0])
qed

definition store_1 :: RegisterStore where
  "store_1 = \<lparr>rs_unit_id = 23, rs_fw_version = [0, 1, 0], rs_icd_version = (1, 0), rs_boot_mono = 0,
     rs_state_file = False, rs_transfer_timestamps = [], rs_snap = default_snapshot\<rparr>"

lemma store_1_init: "store_init 23 None 0 1700000000 = Inr store_1"
  by (simp add: store_init_def fw_version_VERSION zero_state_def store_1_def ICD_VERSION_def
      default_snapshot_def)

lemma read_register_u16_witness: "u16 (read_register 0x35 5 6 (store_run [Ev_Release] store_1))"
  by (rule read_register_u16 [OF store_1_init]) (simp add: u16_def)

text \<open>The 32-bit quantities of the register map, by base address.\<close>

definition u32_field :: "int \<Rightarrow> real \<Rightarrow> int \<Rightarrow> RegisterStore \<Rightarrow> int option" where
  "u32_field base m w s = map_of
     [(0x10, sn_last_transfer_to_gen_ts (rs_snap s)), (0x12, sn_last_retransfer_to_util_ts (rs_snap s)),
      (0x14, uptime_s m s), (0x16, w), (0x20, sn_transfer_count_lifetime (rs_snap s)),
      (0x22, sn_transfer_count_24h (rs_snap s))] base"

text \<open>
  A 32-bit field read as two registers with one pinned pair of timestamps, as \<open>getValues\<close>
  does, recombines high word first to the field's value modulo \<open>2 ^ 32\<close>.
\<close>

theorem read_u32_coherent:
  assumes "u32_field base m w s = Some v"
  shows "pair_u32 (read_register base m w s) (read_register (base + 1) m w s) = v mod 2 ^ 32"
proof -
  have "base \<in> {0x10, 0x12, 0x14, 0x16, 0x20, 0x22}"
    using assms by (auto simp: u32_field_def split: if_splits)
  then show ?thesis
    using assms
    by (elim insertE emptyE) (simp_all add: u32_field_def read_register_def Let_def pair_u32_words)
qed

lemma read_u32_coherent_witness:
  "pair_u32 (read_register 0x16 1 1700000000 store_1) (read_register (0x16 + 1) 1 1700000000 store_1)
     = 1700000000 mod 2 ^ 32"
  by (rule read_u32_coherent) (simp add: u32_field_def)

text \<open>
  Without the pinned timestamps the pair tears.  When the two halves of the uptime are read on the
  two sides of the moment the low word overflows, the reader sees \<open>0\<close> seconds although both true
  values are at least \<open>65535\<close>: the reason \<open>getValues\<close> pins the clocks, and the race the health
  endpoint accepts.
\<close>

theorem read_u32_unpinned_tears:
  "let m1 = rs_boot_mono s + 65535.9; m2 = rs_boot_mono s + 65536 in
   pair_u32 (read_register ADDR_UPTIME_S m1 w s) (read_register (ADDR_UPTIME_S + 1) m2 w s) = 0 \<and>
   uptime_s m1 s = 65535 \<and> uptime_s m2 s = 65536"
proof -
  have u: "uptime_s (rs_boot_mono s + 65535.9) s = 65535" "uptime_s (rs_boot_mono s + 65536) s = 65536"
    by (simp_all add: uptime_s_def py_trunc_def floor_eq_iff)
  then show ?thesis
    by (simp add: Let_def read_register_def hi_word_eq lo_word_eq pair_u32_eq)
qed

definition icd_addresses :: "int list" where
  "icd_addresses = [0x00 .. 0x05] @ [0x10 .. 0x17] @ [0x20 .. 0x23] @ [0x30 .. 0x35] @ [0x40 .. 0x43]"

text \<open>Every address outside the ICD register map reads as 0, the command registers included.\<close>

theorem reserved_reads_zero:
  assumes "addr \<notin> set icd_addresses"
  shows "read_register addr m w s = 0"
  using assms by (auto simp: icd_addresses_def read_register_def Let_def)

lemma reserved_reads_zero_witness: "read_register 0x0101 1 2 store_1 = 0"
  by (rule reserved_reads_zero) (simp add: icd_addresses_def)

text \<open>
  Auto-release in the store touches exactly the two maintained read-backs: after
  \<open>release_maintained_commands\<close> registers \<open>0x41\<close> and \<open>0x42\<close> read 0 and every other register reads
  what it read before.
\<close>

theorem release_maintained_reads:
  "read_register addr m w (release_maintained_commands s) =
     (if addr = ADDR_CMD_INHIBIT_RB \<or> addr = ADDR_CMD_FORCE_TRANSFER_RB then 0
      else read_register addr m w s)"
  by (simp add: read_register_def Let_def release_maintained_commands_def uptime_s_def fault_summary_def)

section \<open>Fault bits\<close>

text \<open>
  Who owns which bit of the published fault summary.  After a sampling cycle's writes (inputs, then
  outputs, then the input-fault clear, then possibly the stuck-relay fault) bit 0 is exactly the
  mode-reject latch, bit 1 is the previous output fault or the new one, bits 2 and 3 are the driver's
  bits of this cycle, and the reserved bits 4 to 15 read 0 whatever the driver reports.
\<close>

theorem sampled_fault_summary:
  "bit (read_register ADDR_FAULT_SUMMARY m w
      (let s1 = set_input_fault False (apply_output_state out (fst (apply_input_snapshot rl t i s)))
       in if bad then set_output_fault True s1 else s1)) k \<longleftrightarrow>
   (if k = 0 then sn_mode_reject_active (rs_snap s)
    else if k = 1 then bad \<or> bit (sn_fault_bits (rs_snap s)) 1
    else k < 4 \<and> bit (in_fault_bits i) k)"
proof -
  have frame: "sn_mode_reject_active (rs_snap (set_output_fault b s)) = sn_mode_reject_active (rs_snap s)"
    "sn_mode_reject_active (rs_snap (set_input_fault b s)) = sn_mode_reject_active (rs_snap s)"
    "sn_mode_reject_active (rs_snap (apply_output_state out s)) = sn_mode_reject_active (rs_snap s)"
    "sn_fault_bits (rs_snap (apply_output_state out s)) = sn_fault_bits (rs_snap s)" for b s
    by (simp_all add: store_writer_defs)
  have "read_register ADDR_FAULT_SUMMARY m w s' = fault_summary (rs_snap s')" for s'
    by (simp add: read_register_def Let_def)
  then show ?thesis
    by (auto simp: Let_def bit_fault_summary bit_set_output_fault bit_set_input_fault frame
        bit_merge_fault_bits)
qed

section \<open>The command gate\<close>

text \<open>
  C8: the complete command policy of ICD section 6.  A register write yields a command intent in exactly six
  cases, each with its register, its value and its permitted modes; everything else (read-only and
  reserved addresses, out-of-pattern values, a mode the policy forbids) yields none.
\<close>

theorem write_register_policy:
  "fst (write_register addr v s) = Some intent \<longleftrightarrow>
   (let mode = sn_ats_mode (rs_snap s) in
     (mode = ''auto'' \<and> addr = 0x100 \<and> v = 1 \<and> intent = no_command\<lparr>ci_test_pulse_ms := Some 750\<rparr>) \<or>
     (mode \<in> {''auto'', ''manual''} \<and> addr = 0x101 \<and> v = 0 \<and> intent = no_command\<lparr>ci_inhibit := Some False\<rparr>) \<or>
     (mode \<in> {''auto'', ''manual''} \<and> addr = 0x101 \<and> v = 1 \<and> intent = no_command\<lparr>ci_inhibit := Some True\<rparr>) \<or>
     (mode = ''auto'' \<and> addr = 0x102 \<and> v = 0 \<and> intent = no_command\<lparr>ci_force_transfer := Some False\<rparr>) \<or>
     (mode = ''auto'' \<and> addr = 0x102 \<and> v = 1 \<and> intent = no_command\<lparr>ci_force_transfer := Some True\<rparr>) \<or>
     (mode = ''auto'' \<and> addr = 0x103 \<and> v = 1 \<and> intent = no_command\<lparr>ci_bypass_delay_pulse_ms := Some 750\<rparr>))"
proof -
  consider "addr = 0x100" | "addr = 0x101" | "addr = 0x102" | "addr = 0x103"
    | "addr \<notin> {0x100, 0x101, 0x102, 0x103}" by auto
  then show ?thesis
    by cases (auto simp: write_register_def command_for_def allowed_modes_for_addr_def Let_def)
qed

text \<open>
  The pre-validation hook and the write agree.  When \<open>can_write\<close> refuses, the write itself yields no
  intent and the latch is set; when it accepts, it changes nothing and the write's intent depends on
  the address and the value alone.
\<close>

theorem can_write_agrees:
  "(case can_write addr s of
      (True, s') \<Rightarrow> s' = s \<and> fst (write_register addr v s) = command_for addr v
    | (False, s') \<Rightarrow> fst (write_register addr v s) = None \<and> snd (write_register addr v s) = s' \<and>
        s' = (if allowed_modes_for_addr addr = None then s else latch_mode_reject True s))"
  by (auto simp: can_write_def write_register_def split: option.split)

section \<open>The mode-reject latch\<close>

text \<open>Does some write of a run get accepted (yield an intent)?\<close>

fun accepts :: "store_event list \<Rightarrow> RegisterStore \<Rightarrow> bool" where
  "accepts [] s \<longleftrightarrow> False"
| "accepts (e # es) s \<longleftrightarrow>
     (case e of Ev_Write a v \<Rightarrow> fst (write_register a v s) \<noteq> None | _ \<Rightarrow> False) \<or>
     accepts es (store_step e s)"

lemma latch_step:
  assumes "sn_mode_reject_active (rs_snap s)" and "\<not> accepts [e] s"
  shows "sn_mode_reject_active (rs_snap (store_step e s))"
proof (cases e)
  case (Ev_Can_Write a)
  with assms can_write_snd [of a s] show ?thesis by (auto simp: latch_mode_reject_def)
next
  case (Ev_Write a v)
  with assms show ?thesis
    by (auto simp: write_register_def latch_mode_reject_def split: option.splits if_splits)
qed (use assms in \<open>simp_all add: store_writer_defs\<close>)

lemma latch_run:
  "sn_mode_reject_active (rs_snap s) \<Longrightarrow> \<not> accepts es s \<Longrightarrow> sn_mode_reject_active (rs_snap (store_run es s))"
  by (induction es arbitrary: s) (auto dest: latch_step)

text \<open>
  C28: a rejected command stays visible.  Once \<open>can_write\<close> has refused a command register in the
  current mode, \<open>FAULT_INPUT\<close> reads as set after any number of sampling cycles, output updates,
  fault clears, auto-releases and further refused or ignored writes, until a write is accepted.
\<close>

theorem mode_reject_latched:
  assumes "allowed_modes_for_addr addr = Some modes" and "sn_ats_mode (rs_snap s) \<notin> set modes"
    and "\<not> accepts es (snd (can_write addr s))"
  shows "bit (read_register ADDR_FAULT_SUMMARY m w (store_run es (snd (can_write addr s)))) 0"
proof -
  have "sn_mode_reject_active (rs_snap (snd (can_write addr s)))"
    using assms(1,2) by (simp add: can_write_def latch_mode_reject_def)
  from latch_run [OF this assms(3)] show ?thesis
    by (simp add: read_register_def Let_def bit_fault_summary)
qed

lemma mode_reject_latched_witness:
  "bit (read_register ADDR_FAULT_SUMMARY 1 2
     (store_run [Ev_Input_Fault False, Ev_Write 0x100 1, Ev_Release] (snd (can_write 0x100 store_1)))) 0"
proof (rule mode_reject_latched)
  show "allowed_modes_for_addr 0x100 = Some [''auto'']" by (simp add: allowed_modes_for_addr_def)
  show "sn_ats_mode (rs_snap store_1) \<notin> set [''auto'']" by (simp add: store_1_def default_snapshot_def)
  show "\<not> accepts [Ev_Input_Fault False, Ev_Write 0x100 1, Ev_Release] (snd (can_write 0x100 store_1))"
    by (simp add: store_1_def default_snapshot_def can_write_def allowed_modes_for_addr_def
        write_register_def store_writer_defs)
qed

text \<open>
  An accepted command clears the latch, and nothing else of the store: the six read-backs, counters
  and the fault bits stay, so the read-back registers keep showing the relays and not the request.
\<close>

theorem accepted_command_clears_latch:
  assumes "fst (write_register addr v s) \<noteq> None"
  shows "snd (write_register addr v s) = latch_mode_reject False s"
proof -
  have "latch_mode_reject False s = s" if "\<not> sn_mode_reject_active (rs_snap s)"
    using that by (simp add: latch_mode_reject_def upd_snap_def)
  with assms show ?thesis by (auto simp: write_register_def split: option.splits if_splits)
qed

lemma accepted_command_clears_latch_witness:
  "let s = upd_snap (\<lambda>n. n\<lparr>sn_ats_mode := ''manual'', sn_mode_reject_active := True\<rparr>) store_1 in
   snd (write_register 0x101 1 s) = latch_mode_reject False s"
  unfolding Let_def
  by (rule accepted_command_clears_latch)
    (simp add: write_register_def allowed_modes_for_addr_def command_for_def)

section \<open>Transfer counters\<close>

text \<open>A sequence of sampled inputs, each with the wall clock at its cycle.\<close>

definition run_inputs :: "bool \<Rightarrow> (int \<times> InputSnapshot) list \<Rightarrow> RegisterStore \<Rightarrow> RegisterStore" where
  "run_inputs rl ins s = fold (\<lambda>(t, i) s. fst (apply_input_snapshot rl t i s)) ins s"

lemma run_inputs_simps [simp]:
  "run_inputs rl [] s = s"
  "run_inputs rl ((t, i) # ins) s = run_inputs rl ins (fst (apply_input_snapshot rl t i s))"
  by (simp_all add: run_inputs_def)

text \<open>The specification: how often a history of positions moves onto the generator.\<close>

fun transfers_in :: "string list \<Rightarrow> nat" where
  "transfers_in (p # q # ps) = of_bool (transferred_to_gen p q) + transfers_in (q # ps)"
| "transfers_in _ = 0"

text \<open>
  The lifetime counter is an abstraction of the position history.  After any sequence of sampled
  inputs it has grown by exactly the number of steps of the history (the position published
  before, then each sampled one) that move onto the generator from utility or from transferring; in
  particular it never decreases.
\<close>

theorem lifetime_counts_transfers:
  "sn_transfer_count_lifetime (rs_snap (run_inputs rl ins s)) =
     sn_transfer_count_lifetime (rs_snap s) +
     int (transfers_in (sn_position (rs_snap s) # map (in_position \<circ> snd) ins))"
proof (induction ins arbitrary: s)
  case Nil
  then show ?case by simp
next
  case (Cons ti ins)
  obtain t i where "ti = (t, i)" by (cases ti)
  with Cons [of "fst (apply_input_snapshot rl t i s)"] show ?case by simp
qed

lemma transfers_in_none: "p \<notin> {''utility'', ''transferring''} \<Longrightarrow>
    set ps \<subseteq> {''generator'', ''unknown''} \<Longrightarrow> transfers_in (p # ps) = 0"
proof (induction ps arbitrary: p)
  case Nil
  then show ?case by simp
next
  case (Cons q ps)
  from Cons.prems(1) have "\<not> transferred_to_gen p q"
    by (simp add: transferred_to_gen_def)
  moreover from Cons.prems(2) have "q \<notin> {''utility'', ''transferring''}" by auto
  with Cons.IH Cons.prems(2) have "transfers_in (q # ps) = 0" by simp
  ultimately show ?case by simp
qed

text \<open>
  A reboot during an outage never counts.  A service started from a persisted count that only
  ever sees the switch on the generator or in an unknown position (the glitch of both contacts open)
  still publishes the persisted count, whatever number of cycles and reboots that takes.
\<close>

theorem reboot_on_generator_not_counted:
  assumes "store_init u (Some p) m w = Inr s"
    and "set (map (in_position \<circ> snd) ins) \<subseteq> {''generator'', ''unknown''}"
  shows "sn_transfer_count_lifetime (rs_snap (run_inputs rl ins s)) = ps_transfer_count_lifetime p"
proof -
  have "sn_position (rs_snap s) = ''unknown''"
    and l: "sn_transfer_count_lifetime (rs_snap s) = ps_transfer_count_lifetime p"
    using assms(1) by (auto simp: store_init_def default_snapshot_def Let_def split: sum.splits)
  then have "transfers_in (sn_position (rs_snap s) # map (in_position \<circ> snd) ins) = 0"
    by (intro transfers_in_none assms(2)) simp
  with l show ?thesis by (simp add: lifetime_counts_transfers del: map_map)
qed

definition input_at :: "string \<Rightarrow> InputSnapshot" where
  "input_at p = \<lparr>in_position = p, in_normal_available = True, in_emergency_available = True,
     in_engine_start_calling = False, in_ats_mode = ''auto'', in_fault_bits = 0\<rparr>"

lemma reboot_on_generator_not_counted_witness:
  "\<exists>s. store_init 1 (Some (zero_state\<lparr>ps_transfer_count_lifetime := 41\<rparr>)) 0 1700000000 = Inr s \<and>
     sn_transfer_count_lifetime (rs_snap (run_inputs True
       [(1700000001, input_at ''generator''), (1700000002, input_at ''unknown''), (1700000003, input_at ''generator'')] s)) = 41"
proof -
  obtain s where s: "store_init 1 (Some (zero_state\<lparr>ps_transfer_count_lifetime := 41\<rparr>)) 0 1700000000 = Inr s"
    by (simp add: store_init_def fw_version_VERSION Let_def)
  have "sn_transfer_count_lifetime (rs_snap (run_inputs True
       [(1700000001, input_at ''generator''), (1700000002, input_at ''unknown''), (1700000003, input_at ''generator'')] s))
     = ps_transfer_count_lifetime (zero_state\<lparr>ps_transfer_count_lifetime := 41\<rparr>)"
    by (rule reboot_on_generator_not_counted [OF s]) (simp add: input_at_def)
  with s show ?thesis by simp
qed

text \<open>
  The counter does not require that the load ever left the generator.  A switch that is on
  the generator, shows the transferring hold (one Load Disconnect pulse) and is still on the
  generator afterwards has its lifetime count raised by one, its last-transfer time overwritten and,
  with a state file, a synchronous save issued.
\<close>

theorem pulse_on_generator_counts_as_transfer:
  "let s1 = fst (apply_input_snapshot rl t1 (input_at ''generator'') s);
       s2 = fst (apply_input_snapshot rl t2 (input_at ''transferring'') s1);
       r = apply_input_snapshot rl t3 (input_at ''generator'') s2
   in sn_transfer_count_lifetime (rs_snap (fst r)) = sn_transfer_count_lifetime (rs_snap s1) + 1 \<and>
      sn_last_transfer_to_gen_ts (rs_snap (fst r)) = t3 \<and>
      (if rs_state_file s then snd r = Save_Now (persisted_of (fst r)) else snd r = No_Save)"
  by (simp add: Let_def transferred_to_gen_def input_at_def)
    (simp add: apply_input_snapshot_def Let_def transferred_to_gen_def input_at_def persist_sync_def)

lemma evict_sorted:
  "sorted stamps \<Longrightarrow> evict_old_transfers now stamps = filter (\<lambda>ts. now - ROLLING_WINDOW_S \<le> ts) stamps"
  unfolding evict_old_transfers_def
  by (induction stamps) (auto intro!: filter_True [symmetric])

text \<open>
  The 24-hour count.  As long as the wall clock has not stepped back behind the recorded
  transfers, the published count after a sample is the number of recorded transfers (this sample's
  included) of the last 24 hours, and the window keeps exactly those.
\<close>

theorem count_24h_is_window:
  assumes "sorted (rs_transfer_timestamps s)" and "list_all (\<lambda>ts. ts \<le> t) (rs_transfer_timestamps s)"
  shows "let s' = fst (apply_input_snapshot rl t i s);
             recorded = rs_transfer_timestamps s @
               (if transferred_to_gen (sn_position (rs_snap s)) (in_position i) then [t] else [])
         in rs_transfer_timestamps s' = filter (\<lambda>ts. t - 24 * 3600 \<le> ts) recorded \<and>
            sn_transfer_count_24h (rs_snap s') = int (length (filter (\<lambda>ts. t - 24 * 3600 \<le> ts) recorded)) \<and>
            sorted (rs_transfer_timestamps s')"
proof -
  define recorded where "recorded = rs_transfer_timestamps s @
    (if transferred_to_gen (sn_position (rs_snap s)) (in_position i) then [t] else [])"
  have srt: "sorted recorded"
    using assms by (auto simp: recorded_def sorted_append list_all_iff)
  have "rs_transfer_timestamps (fst (apply_input_snapshot rl t i s)) = evict_old_transfers t recorded"
    by (simp add: apply_input_snapshot_def Let_def recorded_def)
  also have "\<dots> = filter (\<lambda>ts. t - 24 * 3600 \<le> ts) recorded"
    by (simp add: evict_sorted [OF srt])
  finally have "rs_transfer_timestamps (fst (apply_input_snapshot rl t i s)) =
    filter (\<lambda>ts. t - 24 * 3600 \<le> ts) recorded" .
  then show ?thesis
    by (simp add: Let_def recorded_def [symmetric] sorted_wrt_filter srt)
qed

lemma count_24h_is_window_witness:
  "sn_transfer_count_24h (rs_snap (fst (apply_input_snapshot True 100000 (input_at ''generator'')
     (store_1\<lparr>rs_transfer_timestamps := [1, 50000], rs_snap := default_snapshot\<lparr>sn_position := ''utility''\<rparr>\<rparr>)))) = 2"
  using count_24h_is_window [where t = 100000 and rl = True and i = "input_at ''generator''"
      and s = "store_1\<lparr>rs_transfer_timestamps := [1, 50000], rs_snap := default_snapshot\<lparr>sn_position := ''utility''\<rparr>\<rparr>"]
  by (simp add: Let_def transferred_to_gen_def input_at_def)

end
