(* ===== verification/Service_Properties.thy ===== *)
theory Service_Properties
  imports Service_Safety Adam_Correctness Store_Correctness
begin

text \<open>
  The properties of the running service, on the drivers of the repository, and the scenarios in which the
  release of a maintained command is missed.
\<close>

section \<open>The drivers\<close>

text \<open>What else moves a driver: its world changes, or a release task of one of the pulsed outputs runs.\<close>

inductive adam_env :: "'w modbus_api \<Rightarrow> 'w adam \<Rightarrow> 'w adam \<Rightarrow> bool" for api where
  World: "adam_env api d (d\<lparr>lk_env := w\<rparr>)"
| Task: "k < length (ad_tasks d) \<Longrightarrow> rt_do_index (ad_tasks d ! k) \<in> {DO_TEST, DO_BYPASS_DELAY} \<Longrightarrow>
    adam_env api d (snd (adam_release_step api k d))"

inductive hybrid_env :: "'w modbus_api \<Rightarrow> ('u, 'w) hybrid \<Rightarrow> ('u, 'w) hybrid \<Rightarrow> bool" for tcp where
  Outputs: "adam_env tcp (hy_outputs h) d \<Longrightarrow> hybrid_env tcp h (h\<lparr>hy_outputs := d\<rparr>)"
| Line: "hybrid_env tcp h (h\<lparr>hy_reader := (hy_reader h)\<lparr>lk_env := u\<rparr>\<rparr>)"

inductive mock_env :: "mock \<Rightarrow> mock \<Rightarrow> bool" where
  Time: "mock_env m (m\<lparr>mk_now_ms := t\<rparr>)"
| Task: "mock_env m (mock_release_step k m)"
| Cycle: "SIGUSR1 \<in> mk_handlers m \<Longrightarrow> mock_env m (cycle_position m)"
| Toggle: "SIGUSR2 \<in> mk_handlers m \<Longrightarrow> mock_env m (toggle_normal_available m)"

lemma adam_release_step_frame:
  assumes "k < length (ad_tasks d)" and "rt_do_index (ad_tasks d ! k) \<noteq> j"
  shows "last_commanded (snd (adam_release_step api k d)) j = last_commanded d j"
proof -
  have phase: "keeps (\<lambda>d. last_commanded d j = v) (set_phase k p)" for v p
    by (rule keepsI) (simp add: set_phase_def act_simps last_commanded_def)
  have attempt: "keeps (\<lambda>d. last_commanded d j = v) (release_attempt api k c)" for v c
    unfolding release_attempt_def by (intro hoare keeps_lc phase)
  let ?rec = "record_commanded api (rt_do_index (ad_tasks d ! k)) False"
  have "last_commanded (snd (?rec d)) j = last_commanded d j"
    using assms(2) by (simp add: record_commanded_eq)
  then show ?thesis
    using assms(1) keepsD [OF attempt refl] record_commanded_eq(2) [of api "rt_do_index (ad_tasks d ! k)" False d]
    by (auto simp: adam_release_step_def andthen_def gets_def ret_def
        split: release_phase.split prod.split sum.split)
qed

lemma adam_env_frame:
  assumes "adam_env api d d'" and "out \<in> {Inhibit, Force_Transfer}"
  shows "adam_commanded d' out = adam_commanded d out"
  using assms(1)
proof cases
  case (World w)
  then show ?thesis by (simp add: adam_commanded_def last_commanded_def)
next
  case (Task k)
  with assms(2) show ?thesis
    using adam_release_step_frame [of k d "do_index_of out" api] by (auto simp: adam_commanded_def)
qed

interpretation adam_service: driven_service "adam_read_output_state api" "adam_drive_outputs api"
    "adam_release_all_outputs api" "adam_check_output_consistency api" ad_hw_watchdog_ok adam_commanded
    "adam_read_inputs api" "adam_connect api" "adam_close api" "adam_env api" for api
  by unfold_locales (rule adam_env_frame)

interpretation hybrid_service: driven_service "hybrid_read_output_state tcp" "hybrid_drive_outputs tcp"
    "hybrid_release_all_outputs tcp" "hybrid_check_output_consistency tcp" hybrid_hw_watchdog_ok
    hybrid_commanded "hybrid_read_inputs serial" "hybrid_connect serial tcp" "hybrid_close serial tcp" "hybrid_env tcp"
  for tcp :: "'w modbus_api" and serial :: "'u modbus_api"
proof unfold_locales
  fix h h' :: "('u, 'w) hybrid" and out
  assume "hybrid_env tcp h h'" and out: "out \<in> {Inhibit, Force_Transfer}"
  then show "hybrid_commanded h' out = hybrid_commanded h out"
    by cases (auto simp: hybrid_commanded_def intro: adam_env_frame)
qed

lemma mock_release_step_frame:
  "mk_inhibit_active (mock_release_step k m) = mk_inhibit_active m"
  "mk_force_transfer_active (mock_release_step k m) = mk_force_transfer_active m"
  by (simp_all add: mock_release_step_def Let_def split: pulse_output.split)

interpretation mock_service: driven_service mock_read_output_state mock_drive_outputs mock_release_all_outputs
    mock_check_output_consistency mock_hw_watchdog_ok mock_commanded mock_read_inputs mock_connect mock_close mock_env
proof unfold_locales
  fix m m' :: mock and out
  assume "mock_env m m'" and "out \<in> {Inhibit, Force_Transfer}"
  then show "mock_commanded m' out = mock_commanded m out"
    by cases (auto simp: mock_release_step_frame cycle_position_def toggle_normal_available_def Let_def)
qed

section \<open>A scenario\<close>

text \<open>A service on the simulated unit with Force-Transfer asserted by connection 1.\<close>

definition forced_driver :: "unit_sim adam" where
  "forced_driver = snd (adam_drive_outputs sim_api None None (Some True) None (snd (adam_connect sim_api (sim_driver True))))"

definition forced_service :: "unit_sim adam service" where
  "forced_service = \<lparr>sy_store = auto_store, sy_commander = Some 1, sy_watchdog = watchdog_init 0,
     sy_driver = forced_driver, sy_dispatch = [], sy_outputs_reset = True, sy_failures = 0, sy_saves = [],
     sy_sampling = At_Start, sy_release_pending = False\<rparr>"

lemma forced_driver_facts:
  "adam_commanded forced_driver Force_Transfer = Some True"
  "fst (release_call (adam_drive_outputs sim_api) forced_driver) = Inr ()"
  unfolding forced_driver_def sim_connect
  by (simp_all add: sim_eval release_call_def adam_commanded_def last_commanded_def)

section \<open>What the sampling cycle publishes\<close>

context driven_service
begin

lemma sampling_returned:
  assumes "sampling_body ops w sy = (Inr u, sy')"
  obtains inputs outputs where
    "sy_store sy' =
      (if \<not> hw_watchdog_ok (sy_driver sy') \<or> \<not> check_output_consistency outputs (sy_driver sy')
       then set_output_fault True else id)
      (set_input_fault False (apply_output_state outputs (fst (apply_input_snapshot True w inputs (sy_store sy)))))"
    and "sy_failures sy' = 0" and "sy_outputs_reset sy'"
proof -
  from assms show ?thesis
    unfolding sampling_body_def startup_reset_def
    by (auto simp: gets_def modify_def ret_def on_driver_def publish_inputs_def case_prod_beta
        split: if_splits prod.splits elim!: andthen_returnE intro!: that)
qed

lemma sampling_raised:
  assumes "sampling_body ops w sy = (Inl e, sy')"
  shows "sy_store sy' = sy_store sy" and "sy_failures sy' = sy_failures sy"
  using assms unfolding sampling_body_def startup_reset_def
  by (auto simp: gets_def modify_def ret_def on_driver_def
      split: if_splits prod.splits elim!: andthen_returnE andthen_raiseE)

lemma sampling_outcome:
  assumes "sy' = sampling_cycle ops w sy" and "raised \<longleftrightarrow> (\<exists>e. fst (sampling_body ops w sy) = Inl e)"
  shows "bit (sn_fault_bits (rs_snap (sy_store sy'))) 0 = raised"
    and "bit (sn_fault_bits (rs_snap (sy_store sy))) 1 \<Longrightarrow> bit (sn_fault_bits (rs_snap (sy_store sy'))) 1"
    and "\<not> raised \<Longrightarrow> \<not> hw_watchdog_ok (sy_driver sy') \<Longrightarrow> bit (sn_fault_bits (rs_snap (sy_store sy'))) 1"
    and "raised \<Longrightarrow> rs_snap (sy_store sy') =
      (rs_snap (sy_store sy))\<lparr>sn_fault_bits := sn_fault_bits (rs_snap (sy_store sy'))\<rparr>"
proof -
  have "bit (sn_fault_bits (rs_snap (sy_store sy'))) 0 = raised \<and>
    (bit (sn_fault_bits (rs_snap (sy_store sy))) 1 \<longrightarrow> bit (sn_fault_bits (rs_snap (sy_store sy'))) 1) \<and>
    (\<not> raised \<longrightarrow> \<not> hw_watchdog_ok (sy_driver sy') \<longrightarrow> bit (sn_fault_bits (rs_snap (sy_store sy'))) 1) \<and>
    (raised \<longrightarrow> rs_snap (sy_store sy') =
      (rs_snap (sy_store sy))\<lparr>sn_fault_bits := sn_fault_bits (rs_snap (sy_store sy'))\<rparr>)"
  proof (cases "sampling_body ops w" sy rule: act_cases)
    case (raised e sy1)
    with sampling_raised [OF raised] assms have r: raised
      and st: "sy_store sy' = set_input_fault True (sy_store sy)"
      by (simp_all add: sampling_cycle_def catching_def modify_def)
    show ?thesis unfolding st by (simp add: r bit_set_input_fault) (simp add: set_input_fault_def)
  next
    case (returned u sy1)
    with assms have sy': "sy' = sy1" and r: "\<not> raised"
      by (simp_all add: sampling_cycle_def catching_def)
    from sampling_returned [OF returned] obtain inputs outputs where st: "sy_store sy1 =
      (if \<not> hw_watchdog_ok (sy_driver sy1) \<or> \<not> check_output_consistency outputs (sy_driver sy1)
       then set_output_fault True else id)
      (set_input_fault False (apply_output_state outputs (fst (apply_input_snapshot True w inputs (sy_store sy)))))"
      by metis
    have bits: "bit (sn_fault_bits (rs_snap (sy_store sy1))) 0 = False"
      "bit (sn_fault_bits (rs_snap (sy_store sy1))) 1 =
        (bit (sn_fault_bits (rs_snap (sy_store sy))) 1 \<or>
         \<not> hw_watchdog_ok (sy_driver sy1) \<or> \<not> check_output_consistency outputs (sy_driver sy1))"
      unfolding st by (simp_all add: bit_set_output_fault bit_set_input_fault apply_output_state_def
          apply_input_snapshot_def Let_def bit_merge_fault_bits)
    show ?thesis unfolding sy' bits using r by simp
  qed
  then show "bit (sn_fault_bits (rs_snap (sy_store sy'))) 0 = raised"
    and "bit (sn_fault_bits (rs_snap (sy_store sy))) 1 \<Longrightarrow> bit (sn_fault_bits (rs_snap (sy_store sy'))) 1"
    and "\<not> raised \<Longrightarrow> \<not> hw_watchdog_ok (sy_driver sy') \<Longrightarrow> bit (sn_fault_bits (rs_snap (sy_store sy'))) 1"
    and "raised \<Longrightarrow> rs_snap (sy_store sy') =
      (rs_snap (sy_store sy))\<lparr>sn_fault_bits := sn_fault_bits (rs_snap (sy_store sy'))\<rparr>"
    by blast+
qed

lemma dispatch_outcome:
  assumes "sy' = dispatch_command ops intent sy"
    and "drive = drive_outputs (ci_test_pulse_ms intent) (ci_inhibit intent) (ci_force_transfer intent)
      (ci_bypass_delay_pulse_ms intent)"
  shows "sy_driver sy' = snd (drive (sy_driver sy))"
    and "sy_store sy' = set_output_fault (\<exists>e. fst (drive (sy_driver sy)) = Inl e) (sy_store sy)"
  using assms
  by (auto simp: dispatch_command_def act_simps on_driver_def upd_store_def split: prod.split sum.split)

end

text \<open>
  C19: what one sampling cycle publishes.  The input-fault bit says exactly whether the cycle raised; a cycle that
  raised publishes nothing else (the last good snapshot stays, flagged); a cycle that completed under an unverified
  hardware fail-safe raises the output fault, and no cycle ever clears the output fault.
\<close>

theorem sampling_cycle_publishes:
  fixes api :: "'w modbus_api"
  defines "raised sy w \<equiv> \<exists>e. fst (sampling_body (adam_ops api) w sy) = Inl e"
    and "faults sy \<equiv> sn_fault_bits (rs_snap (sy_store sy))"
  shows "let sy' = sampling_cycle (adam_ops api) w sy in
    bit (faults sy') 0 = raised sy w \<and>
    (raised sy w \<longrightarrow> rs_snap (sy_store sy') = (rs_snap (sy_store sy))\<lparr>sn_fault_bits := faults sy'\<rparr>) \<and>
    (\<not> raised sy w \<and> \<not> ad_hw_watchdog_ok (sy_driver sy') \<longrightarrow> bit (faults sy') 1) \<and>
    (bit (faults sy) 1 \<longrightarrow> bit (faults sy') 1)"
  using adam_service.sampling_outcome [of "sampling_cycle (adam_ops api) w sy" api w sy "raised sy w"]
  unfolding raised_def faults_def adam_ops_def Let_def by blast

text \<open>A unit that never answers.\<close>

definition dead_api :: "unit modbus_api" where
  "dead_api = (status_word_api 0)\<lparr>api_connect := (\<lambda>u. (Inr False, u)), api_connected := (\<lambda>u. False)\<rparr>"

definition dead_driver :: "unit adam" where
  "dead_driver =
     \<lparr>lk_env = (), lk_client = False, lk_connected = False, ad_unit_id = 1,
      ad_assumed_mode = ''auto'', ad_di_read = ''coils'', ad_require_hw_watchdog = True,
      ad_hw_watchdog = None, ad_hw_watchdog_ok = False,
      ad_hw_watchdog_detail = Not_Yet_Verified, ad_hw_watchdog_checked = False,
      ad_test_release_task = None, ad_bypass_release_task = None, ad_load_disconnect_seen_mono = None,
      ad_debounce = debouncer_init 3, ad_commanded_do = [], ad_tasks = []\<rparr>"

lemma sampling_cycle_publishes_witness:
  "sn_position (rs_snap (sy_store (sampling_cycle (adam_ops dead_api) 5 (service_start (adam_ops dead_api) store_1 0 dead_driver))))
     = ''unknown''"
proof -
  let ?sy = "service_start (adam_ops dead_api) store_1 0 dead_driver"
  have "fst (sampling_body (adam_ops dead_api) 5 ?sy) = Inl ConnectionError"
    by (simp add: sampling_body_def startup_reset_def service_start_def adam_ops_def on_driver_def
        adam_release_all_outputs_def cancel_release_tasks_def cancel_task_def release_output_def
        adam_write_coil_def adam_ensure_connected_def ensure_connected_def adam_connect_def open_link_def
        call_def dead_api_def status_word_api_def dead_driver_def act_simps)
  with sampling_cycle_publishes [of dead_api 5 ?sy]
  have snap: "rs_snap (sy_store (sampling_cycle (adam_ops dead_api) 5 ?sy)) = (rs_snap (sy_store ?sy))
      \<lparr>sn_fault_bits := sn_fault_bits (rs_snap (sy_store (sampling_cycle (adam_ops dead_api) 5 ?sy)))\<rparr>"
    unfolding Let_def by blast
  have "sn_position (rs_snap (sy_store ?sy)) = ''unknown''"
    by (simp add: service_start_def store_1_def default_snapshot_def set_output_fault_def)
  then show ?thesis by (subst snap) simp
qed

text \<open>
  What a command's dispatch publishes.  The output-fault bit is set exactly if the driver raised and cleared
  otherwise, no other register changes; a command that asserts an output under an unverified fail-safe leaves the driver
  untouched and ends with the output fault.
\<close>

theorem dispatch_publishes:
  fixes api :: "'w modbus_api"
  defines "drive intent \<equiv> adam_drive_outputs api (ci_test_pulse_ms intent) (ci_inhibit intent)
      (ci_force_transfer intent) (ci_bypass_delay_pulse_ms intent)"
    and "asserts intent \<equiv> asserts_output (ci_test_pulse_ms intent) (ci_inhibit intent)
      (ci_force_transfer intent) (ci_bypass_delay_pulse_ms intent)"
  shows "let sy' = dispatch_command (adam_ops api) intent sy in
    sy_store sy' = set_output_fault (\<exists>e. fst (drive intent (sy_driver sy)) = Inl e) (sy_store sy) \<and>
    (\<not> ad_hw_watchdog_ok (sy_driver sy) \<and> asserts intent \<longrightarrow>
      sy_driver sy' = sy_driver sy \<and> sy_store sy' = set_output_fault True (sy_store sy))"
proof -
  let ?sy = "dispatch_command (adam_ops api) intent sy"
  note out = adam_service.dispatch_outcome [OF refl refl, of api intent sy, folded adam_ops_def]
  have "sy_driver ?sy = snd (drive intent (sy_driver sy))"
    and st: "sy_store ?sy = set_output_fault (\<exists>e. fst (drive intent (sy_driver sy)) = Inl e) (sy_store sy)"
    using out by (simp_all add: drive_def)
  moreover have "drive intent (sy_driver sy) = (Inl HwWatchdogNotArmedError, sy_driver sy)"
    if "\<not> ad_hw_watchdog_ok (sy_driver sy)" "asserts intent"
    using that adam_drive_refuses unfolding drive_def asserts_def by blast
  ultimately show ?thesis by (simp add: Let_def)
qed

lemma dispatch_publishes_witness:
  "sy_driver (dispatch_command (adam_ops dead_api) (no_command\<lparr>ci_force_transfer := Some True\<rparr>)
      (service_start (adam_ops dead_api) store_1 0 dead_driver)) = dead_driver"
  using dispatch_publishes [of dead_api "no_command\<lparr>ci_force_transfer := Some True\<rparr>"
      "service_start (adam_ops dead_api) store_1 0 dead_driver"]
  by (simp add: Let_def service_start_def dead_driver_def asserts_output_def no_command_def)

section \<open>Missed releases\<close>

text \<open>A reader polls on connection \<open>conn\<close>, and each poll is followed by a tick.\<close>

fun polling :: "nat \<Rightarrow> (real \<times> real) list \<Rightarrow> service_event list" where
  "polling conn [] = []"
| "polling conn ((poll, tick) # ps) = Ev_Request poll conn (Some 3) (Some 0) # Ev_Tick_Begin tick # polling conn ps"

lemma polling_runs:
  assumes "\<not> sy_release_pending sy" and "sy_commander sy = None" and "list_all (\<lambda>(poll, tick). tick \<le> poll + TIMEOUT_S) ps"
  shows "\<exists>sy'. service_run env ops (polling conn ps) sy sy'"
  using assms
proof (induction ps arbitrary: sy)
  case Nil
  show ?case by (auto intro: service_run.Done)
next
  case (Cons p ps)
  obtain poll tick where p: "p = (poll, tick)" by (cases p)
  let ?sy1 = "tracked (note_request note_modbus_read poll conn (Some 3) (Some 0)) sy"
  have "sy_commander ?sy1 = None" "sy_watchdog ?sy1 = note_modbus_read poll (sy_watchdog sy)"
    using Cons.prems(2) by (simp_all add: tracked_def note_request_def is_cmd_write_def HOLDING_WRITE_FCS_def)
  then have "\<exists>sy'. service_run env ops (polling conn ps) (tick_started tick ?sy1) sy'"
    using Cons.prems(3) p by (intro Cons.IH) (simp_all add: note_modbus_read_eq release_due_def Let_def)
  moreover have "\<not> sy_release_pending ?sy1" using Cons.prems(1) by simp
  ultimately show ?case
    unfolding p polling.simps
    by (blast intro: service_run.Step service_step.Request service_step.Tick_Begin)
qed



text \<open>
  A release that lands late disarms the watchdog.  A due tick suspends at its driver write; if the commander comes
  back during it, the returning tick latches \<open>_released\<close> over the recovered link.  From then on, while the commander
  says nothing more, no tick at any time starts a release -- not after any silence, and not even after the commander's
  connection drops.
\<close>

theorem late_release_disarms:
  assumes "service_run env ops [Ev_Tick_Begin t0, Ev_Request t1 c fc a, Ev_Tick_End] sy sy1"
    and "sy_commander sy = Some c" and "fst (release_call (op_drive_outputs ops) (sy_driver sy)) = Inr ()"
  shows "wd_last_read_monotonic (sy_watchdog sy1) = t1 \<and> \<not> sy_release_pending (tick_started t sy1) \<and>
    \<not> sy_release_pending (tick_started t (tracked (note_disconnect note_commander_lost c) sy1))"
proof -
  let ?over = "tracked (note_request note_modbus_read t1 c fc a) (tick_started t0 sy)"
  have sy1: "sy1 = tick_finished ops ?over"
    using assms(1) by (auto elim!: service_run_ConsE service_run_NilE service_step_beginE service_step_requestE service_step_endE)
  have recovered: "sy_watchdog ?over = note_modbus_read t1 (sy_watchdog sy)" "sy_commander ?over = Some c"
    using assms(2) by (simp_all add: tracked_def note_request_def)
  then have wd: "sy_watchdog sy1 = (note_modbus_read t1 (sy_watchdog sy))\<lparr>wd_released := True\<rparr>"
    "sy_commander sy1 = Some c"
    unfolding sy1 using assms(3) by (simp_all add: tick_end_def)
  have "sy_watchdog (tracked (note_disconnect note_commander_lost c) sy1) = note_commander_lost (sy_watchdog sy1)"
    using wd(2) by (simp add: tracked_def note_disconnect_def)
  with wd(1) show ?thesis
    by (simp add: release_due_def note_commander_lost_def note_modbus_read_eq Let_def)
qed

lemma late_release_disarms_witness:
  "\<exists>sy1. service_run (adam_env sim_api) (adam_ops sim_api)
      [Ev_Tick_Begin 31, Ev_Request 32 1 (Some 3) (Some 0), Ev_Tick_End] forced_service sy1 \<and>
    \<not> sy_release_pending (tick_started 1000 sy1)"
proof -
  have start: "sy_commander forced_service = Some 1" "sy_driver forced_service = forced_driver"
    "\<not> sy_release_pending forced_service" "release_due 31 (sy_watchdog forced_service)"
    by (simp_all add: forced_service_def watchdog_init_def release_due_def Let_def)
  have run: "\<exists>sy1. service_run (adam_env sim_api) (adam_ops sim_api)
      [Ev_Tick_Begin 31, Ev_Request 32 1 (Some 3) (Some 0), Ev_Tick_End] forced_service sy1"
    by (rule exI, rule service_run.Step [OF service_step.Tick_Begin service_run.Step [OF service_step.Request
      service_run.Step [OF service_step.Tick_End service_run.Done]]]) (use start in simp_all)
  have "fst (release_call (op_drive_outputs (adam_ops sim_api)) (sy_driver forced_service)) = Inr ()"
    using forced_driver_facts(2) start(2) by (simp add: adam_ops_def)
  with run late_release_disarms [OF _ start(1)] show ?thesis by blast
qed

section \<open>A dropped commander\<close>

text \<open>Everything but requests.\<close>

fun quiet_event :: "service_event \<Rightarrow> bool" where
  "quiet_event (Ev_Request t conn fc a) = False"
| "quiet_event _ = True"

lemma gone_step:
  assumes "service_step env ops e sy sy'" and "quiet_event e" and "wd_commander_gone (sy_watchdog sy)"
  shows "wd_commander_gone (sy_watchdog sy')"
  using assms
  by (induction rule: service_step.induct)
    (auto simp: tracked_def note_disconnect_def note_commander_lost_def tick_end_def split: sum.split)

lemma gone_run:
  "service_run env ops es sy sy' \<Longrightarrow> list_all quiet_event es \<Longrightarrow> wd_commander_gone (sy_watchdog sy) \<Longrightarrow>
     wd_commander_gone (sy_watchdog sy')"
  by (rule service_run_invariant [where E = quiet_event]) (auto intro: gone_step)

text \<open>
  C14: a dropped commanding connection is released at the next tick (ICD section 9.1), without waiting out the silence
  window: if no request of any client arrives since, a tick at whatever time starts a release unless one has been
  made, whatever ticks failed before it; and when its driver write returns, Inhibit and Force-Transfer are commanded off.
\<close>

theorem dropped_commander_released:
  assumes "sy_commander sy = Some c" and "service_run (adam_env api) (adam_ops api) (Ev_Disconnect c # es) sy sy1"
    and "list_all quiet_event es" and "\<not> wd_released (sy_watchdog sy1)"
    and "service_run (adam_env api) (adam_ops api) (Ev_Tick_Begin t # mid) sy1 sy2" and "list_all quiet_event mid"
    and "service_step (adam_env api) (adam_ops api) Ev_Tick_End sy2 sy3"
    and "fst (release_call (adam_drive_outputs api) (sy_driver sy2)) = Inr ()"
  shows "sy_release_pending (tick_started t sy1) \<and> maintained_off adam_commanded (sy_driver sy3) \<and>
    wd_released (sy_watchdog sy3)"
proof -
  let ?sy = "tracked (note_disconnect note_commander_lost c) sy"
  have "wd_commander_gone (sy_watchdog ?sy)"
    using assms(1) by (simp add: tracked_def note_disconnect_def note_commander_lost_def)
  moreover have "service_run (adam_env api) (adam_ops api) es ?sy sy1"
    using assms(2) by (auto elim!: service_run_ConsE service_step_disconnectE)
  ultimately have "wd_commander_gone (sy_watchdog sy1)" using gone_run assms(3) by blast
  then have "sy_release_pending (tick_started t sy1)"
    using assms(4) by (simp add: release_due_def Let_def)
  with adam_service.release_lands [OF assms(7) [unfolded adam_ops_def] assms(8)] show ?thesis by simp
qed

lemma dropped_commander_released_witness:
  "adam_commanded (sy_driver (tick_finished (adam_ops sim_api) (tick_started 1
      (tracked (note_disconnect note_commander_lost 1) forced_service)))) Force_Transfer = Some False"
proof -
  let ?sy1 = "tracked (note_disconnect note_commander_lost 1) forced_service"
  have start: "sy_commander forced_service = Some 1" "\<not> wd_released (sy_watchdog ?sy1)"
    "\<not> sy_release_pending ?sy1" "wd_commander_gone (sy_watchdog ?sy1)" "sy_driver ?sy1 = forced_driver"
    by (simp_all add: forced_service_def watchdog_init_def tracked_def note_disconnect_def note_commander_lost_def)
  have drop: "service_run (adam_env sim_api) (adam_ops sim_api) [Ev_Disconnect 1] forced_service ?sy1"
    by (rule service_run.Step [OF service_step.Disconnect service_run.Done])
  have tick: "service_run (adam_env sim_api) (adam_ops sim_api) [Ev_Tick_Begin 1] ?sy1 (tick_started 1 ?sy1)"
    by (rule service_run.Step [OF service_step.Tick_Begin [OF start(3)] service_run.Done])
  have "sy_release_pending (tick_started 1 ?sy1)" using start(2,4) by (simp add: release_due_def Let_def)
  then have fin: "service_step (adam_env sim_api) (adam_ops sim_api) Ev_Tick_End (tick_started 1 ?sy1)
      (tick_finished (adam_ops sim_api) (tick_started 1 ?sy1))"
    by (rule service_step.Tick_End)
  have "fst (release_call (adam_drive_outputs sim_api) (sy_driver (tick_started 1 ?sy1))) = Inr ()"
    using forced_driver_facts(2) start(5) by simp
  from dropped_commander_released [OF start(1) drop _ start(2) tick _ fin this] show ?thesis
    by (simp add: maintained_off_def)
qed

section \<open>A command overtaken by the release\<close>


text \<open>A Force-Transfer still queued when the release has landed.\<close>

definition overtaken_service :: "unit_sim adam service" where
  "overtaken_service = forced_service
     \<lparr>sy_driver := snd (release_call (adam_drive_outputs sim_api) forced_driver), sy_commander := None,
      sy_watchdog := \<lparr>wd_last_read_monotonic = 0, wd_released = True, wd_commander_gone = True\<rparr>,
      sy_dispatch := [no_command\<lparr>ci_force_transfer := Some True\<rparr>]\<rparr>"


end
