(* ===== verification/Config.thy ===== *)
theory Config
  imports Prelude
begin

text \<open>
  \<open>src/src/atspi/config.py\<close>: the configuration loader.  A parsed YAML document is the datatype \<open>yaml\<close> (the
  parser is library code); a dataclass instance is \<open>Obj\<close> with its fields in declaration order, so that
  \<open>_coerce\<close>, which works by \<open>hasattr\<close>, \<open>getattr\<close> and \<open>setattr\<close>, is translated as it is written.  The
  attributes an instance has besides its fields (\<open>__doc__\<close> and the like) belong to Python:
  \<open>inherited k\<close> is \<open>None\<close> where there is none, else what assigning a value to it does.
\<close>

section \<open>Values and objects\<close>

datatype yaml =
    YNull
  | YBool bool
  | YInt int
  | YFloat real
  | YStr string
  | YList "yaml list"
  | YMap "(yaml_key \<times> yaml) list"
and yaml_key = KStr string | KOther

datatype cfg_value = Plain yaml | Obj "(string \<times> cfg_value) list"

type_synonym fields = "(string \<times> cfg_value) list"

fun is_obj :: "cfg_value \<Rightarrow> bool" where
  "is_obj (Obj _) = True"
| "is_obj (Plain _) = False"

section \<open>The configuration classes and their defaults\<close>

definition ModbusServerCfg :: fields where
  "ModbusServerCfg = [(''host'', Plain (YStr ''0.0.0.0'')), (''port'', Plain (YInt 5020)), (''unit_id'', Plain (YInt 1))]"

definition HwWatchdogCfg :: fields where
  "HwWatchdogCfg =
     [(''enable_register'', Plain YNull), (''enable_expected'', Plain (YInt 1)),
      (''timeout_register'', Plain YNull), (''timeout_scale_s'', Plain (YFloat (1 / 10))),
      (''timeout_min_s'', Plain (YFloat 5)), (''timeout_max_s'', Plain (YFloat 10)),
      (''safety_value_register_base'', Plain YNull), (''safety_value_count'', Plain (YInt 6))]"

definition AdamCfg :: fields where
  "AdamCfg =
     [(''host'', Plain (YStr ''192.168.1.251'')), (''port'', Plain (YInt 502)), (''unit_id'', Plain (YInt 1)),
      (''debounce_samples'', Plain (YInt 3)), (''assumed_mode'', Plain (YStr ''auto'')),
      (''di_read'', Plain (YStr ''coils'')), (''require_hw_watchdog'', Plain (YBool True)),
      (''i_understand_no_crash_backstop'', Plain (YBool False)), (''hw_watchdog'', Obj HwWatchdogCfg)]"

definition AscoSerialCfg :: fields where
  "AscoSerialCfg =
     [(''port'', Plain (YStr ''/dev/atspi-asco'')), (''baudrate'', Plain (YInt 19200)), (''bytesize'', Plain (YInt 8)),
      (''parity'', Plain (YStr ''N'')), (''stopbits'', Plain (YInt 1)), (''unit_id'', Plain (YInt 1)),
      (''timeout_s'', Plain (YFloat 1)), (''assumed_mode'', Plain (YStr ''auto'')),
      (''status_register'', Plain YNull), (''status_register_count'', Plain (YInt 1)),
      (''on_normal_bit'', Plain YNull), (''on_emergency_bit'', Plain YNull),
      (''normal_available_bit'', Plain YNull), (''emergency_available_bit'', Plain YNull),
      (''transferring_bit'', Plain YNull), (''engine_start_bit'', Plain YNull)]"

definition IOCfg :: fields where
  "IOCfg = [(''driver'', Plain (YStr ''mock'')), (''adam'', Obj AdamCfg), (''asco_serial'', Obj AscoSerialCfg)]"

definition SiteCfg :: fields where
  "SiteCfg = [(''unit_id'', Plain (YInt 1))]"

definition PersistenceCfg :: fields where
  "PersistenceCfg = [(''state_file'', Plain (YStr ''/var/lib/atspi/state.json''))]"

definition HealthCfg :: fields where
  "HealthCfg = [(''enabled'', Plain (YBool False)), (''host'', Plain (YStr ''127.0.0.1'')), (''port'', Plain (YInt 8001))]"

definition Config :: fields where
  "Config = [(''modbus_server'', Obj ModbusServerCfg), (''io'', Obj IOCfg), (''site'', Obj SiteCfg),
     (''persistence'', Obj PersistenceCfg), (''health'', Obj HealthCfg)]"

section \<open>The loader\<close>

type_synonym inherited = "string \<Rightarrow> (yaml \<Rightarrow> exc + unit) option"

text \<open>
  One pass of \<open>_coerce\<close>'s loop body is an equation: an unknown key, a section given a mapping, any other value.
  \<open>type(attr)()\<close> builds a fresh section with the class's defaults: in a tree not yet assigned to, and
  whose keys are not repeated, that is the section itself.  A key of another type is \<open>hasattr\<close>'s \<open>TypeError\<close>.
\<close>

fun coerce :: "inherited \<Rightarrow> fields \<Rightarrow> (yaml_key \<times> yaml) list \<Rightarrow> exc + fields" where
  "coerce inh out [] = Inr out"
| "coerce inh out ((KOther, v) # kvs) = Inl TypeError"
| "coerce inh out ((KStr k, v) # kvs) =
     (case map_of out k of
        None \<Rightarrow>
          (case inh k of
             None \<Rightarrow> Inl ConfigError
           | Some assign \<Rightarrow> (case assign v of Inl e \<Rightarrow> Inl e | Inr _ \<Rightarrow> coerce inh out kvs))
      | Some (Obj section) \<Rightarrow>
          (case v of
             YMap sub \<Rightarrow>
               (case coerce inh section sub of
                  Inl e \<Rightarrow> Inl e
                | Inr section' \<Rightarrow> coerce inh (AList.update k (Obj section') out) kvs)
           | _ \<Rightarrow> coerce inh (AList.update k (Plain v) out) kvs)
      | Some (Plain _) \<Rightarrow> coerce inh (AList.update k (Plain v) out) kvs)"

text \<open>
  \<open>load_config\<close>: \<open>document\<close> is \<open>None\<close> where the file does not exist, else what the parser returned or
  raised; \<open>raw or {}\<close> turns every false value into the empty mapping.
\<close>

fun yaml_truthy :: "yaml \<Rightarrow> bool" where
  "yaml_truthy YNull = False"
| "yaml_truthy (YBool b) = b"
| "yaml_truthy (YInt n) = (n \<noteq> 0)"
| "yaml_truthy (YFloat x) = (x \<noteq> 0)"
| "yaml_truthy (YStr s) = (s \<noteq> [])"
| "yaml_truthy (YList xs) = (xs \<noteq> [])"
| "yaml_truthy (YMap m) = (m \<noteq> [])"

definition load_config :: "inherited \<Rightarrow> (exc + yaml) option \<Rightarrow> exc + fields" where
  "load_config inh document =
     (case document of
        None \<Rightarrow> Inl FileNotFoundError
      | Some (Inl e) \<Rightarrow> Inl e
      | Some (Inr raw) \<Rightarrow>
          (if \<not> yaml_truthy raw then coerce inh Config []
           else (case raw of YMap kvs \<Rightarrow> coerce inh Config kvs | _ \<Rightarrow> Inl ConfigError)))"

text \<open>\<open>cfg.a.b\<close>: \<open>AttributeError\<close> on anything that is not a section with that attribute.\<close>

fun cfg_path :: "string list \<Rightarrow> cfg_value \<Rightarrow> exc + cfg_value" where
  "cfg_path [] c = Inr c"
| "cfg_path (k # ks) (Obj fs) = (case map_of fs k of None \<Rightarrow> Inl AttributeError | Some c \<Rightarrow> cfg_path ks c)"
| "cfg_path (k # ks) (Plain _) = Inl AttributeError"

section \<open>What a loaded configuration holds\<close>

text \<open>A document names only known keys, down through its sections.\<close>

fun known_keys :: "inherited \<Rightarrow> fields \<Rightarrow> (yaml_key \<times> yaml) list \<Rightarrow> bool" where
  "known_keys inh out [] \<longleftrightarrow> True"
| "known_keys inh out ((KOther, v) # kvs) \<longleftrightarrow> False"
| "known_keys inh out ((KStr k, v) # kvs) \<longleftrightarrow>
     (case map_of out k of
        None \<Rightarrow> inh k \<noteq> None
      | Some (Obj section) \<Rightarrow> (case v of YMap sub \<Rightarrow> known_keys inh section sub | _ \<Rightarrow> True)
      | Some (Plain _) \<Rightarrow> True) \<and>
     known_keys inh out kvs"

text \<open>A parsed mapping has no repeated key, at any depth.\<close>

fun wf_document :: "(yaml_key \<times> yaml) list \<Rightarrow> bool" where
  "wf_document [] \<longleftrightarrow> True"
| "wf_document ((k, v) # kvs) \<longleftrightarrow> k \<notin> set (map fst kvs) \<and>
     (case v of YMap sub \<Rightarrow> wf_document sub | _ \<Rightarrow> True) \<and> wf_document kvs"

text \<open>An update of a field that is not named again changes neither the check nor the result's other fields.\<close>

lemma known_keys_update:
  assumes "KStr k \<notin> set (map fst kvs)" and "map_of out k \<noteq> None"
  shows "known_keys inh (AList.update k c out) kvs = known_keys inh out kvs"
  using assms(1)
proof (induction kvs)
  case (Cons kv kvs)
  obtain k' v where "kv = (k', v)" by (cases kv)
  with Cons show ?case by (cases k') (auto simp: update_conv' split: option.split)
qed simp

lemma coerce_known:
  assumes "coerce inh out kvs = Inr out'" and "wf_document kvs"
  shows "known_keys inh out kvs"
  using assms
proof (induction inh out kvs arbitrary: out' rule: coerce.induct)
  case step: (3 inh out k v kvs)
  then have fresh: "KStr k \<notin> set (map fst kvs)" and rest: "wf_document kvs" by simp_all
  show ?case
  proof (cases "map_of out k")
    case None
    with step.IH(1) step.prems rest show ?thesis by (auto split: option.splits sum.splits)
  next
    case (Some c)
    then have out: "map_of out k \<noteq> None" by simp
    note update = known_keys_update [OF fresh out, of inh]
    show ?thesis
    proof (cases c)
      case (Plain p)
      with step Some rest update show ?thesis by simp
    next
      case (Obj sec)
      show ?thesis
      proof (cases "\<exists>sub. v = YMap sub")
        case True
        then obtain sub where v: "v = YMap sub" by blast
        with step.prems(1) Some Obj obtain sec' where sub: "coerce inh sec sub = Inr sec'"
          and tail: "coerce inh (AList.update k (Obj sec') out) kvs = Inr out'"
          by (auto split: sum.splits)
        have "known_keys inh sec sub" using step.IH(9) Some Obj v sub step.prems(2) by simp
        moreover have "known_keys inh (AList.update k (Obj sec') out) kvs"
          using step.IH(10) Some Obj v sub tail rest by simp
        ultimately show ?thesis using Some Obj v update by simp
      next
        case False
        with step Some Obj rest update show ?thesis by (auto split: yaml.splits)
      qed
    qed
  qed
qed simp_all

lemma coerce_untouched:
  assumes "coerce inh out kvs = Inr out'" and "KStr k \<notin> set (map fst kvs)"
  shows "map_of out' k = map_of out k"
  using assms
proof (induction inh out kvs arbitrary: out' rule: coerce.induct)
  case (3 inh out k' v kvs)
  then show ?case
    by (auto simp: update_conv' split: option.splits sum.splits cfg_value.splits yaml.splits)
qed simp_all

text \<open>The value a document gives a field: its own, coerced where it is a section given a mapping.\<close>

fun given :: "inherited \<Rightarrow> cfg_value \<Rightarrow> yaml \<Rightarrow> exc + cfg_value" where
  "given inh (Obj sec) (YMap sub) = (case coerce inh sec sub of Inl e \<Rightarrow> Inl e | Inr sec' \<Rightarrow> Inr (Obj sec'))"
| "given inh c v = Inr (Plain v)"

lemma coerce_field_step:
  assumes "map_of out k = Some c"
  shows "coerce inh out ((KStr k, v) # kvs) =
    (case given inh c v of Inl e \<Rightarrow> Inl e | Inr c' \<Rightarrow> coerce inh (AList.update k c' out) kvs)"
  using assms by (cases c; cases v) (auto split: sum.split)

lemma coerce_values:
  assumes "coerce inh out kvs = Inr out'" and "wf_document kvs"
    and "map_of out k = Some c" and "map_of kvs (KStr k) = Some v"
  shows "\<exists>c'. given inh c v = Inr c' \<and> map_of out' k = Some c'"
  using assms
proof (induction kvs arbitrary: out)
  case Nil
  then show ?case by simp
next
  case (Cons kv kvs)
  obtain key w where kv: "kv = (key, w)" by (cases kv)
  show ?case
  proof (cases key)
    case KOther
    with Cons kv show ?thesis by simp
  next
    case (KStr k')
    show ?thesis
    proof (cases "map_of out k'")
      case None
      with Cons.prems(3) have "k \<noteq> k'" by auto
      with None Cons kv KStr show ?thesis by (auto split: option.splits sum.splits)
    next
      case (Some d)
      with Cons.prems(1) kv KStr coerce_field_step [OF Some, of inh w kvs] obtain d' where
        d': "given inh d w = Inr d'" and rest: "coerce inh (AList.update k' d' out) kvs = Inr out'"
        by (auto split: sum.splits)
      show ?thesis
      proof (cases "k' = k")
        case True
        with coerce_untouched [OF rest, of k] Cons.prems kv KStr Some d' show ?thesis
          by (auto simp: update_conv')
      next
        case False
        with Cons kv KStr rest show ?thesis by (auto simp: update_conv')
      qed
    qed
  qed
qed


definition no_inherited :: inherited where
  "no_inherited k = None"

definition sample_document :: "(yaml_key \<times> yaml) list" where
  "sample_document = [(KStr ''site'', YMap [(KStr ''unit_id'', YInt 23)])]"


text \<open>
  Two gaps in the fail-fast check.  A section given \<open>null\<close> (an \<open>adam:\<close> with its keys commented out) loads, replaces
  the whole section by \<open>None\<close>, and only fails where the section is used; and a key that is one of Python's own
  object attributes (\<open>__doc__\<close>) is accepted as if it were a field, since the check is \<open>hasattr\<close>.
\<close>

theorem config_check_gaps:
  "load_config no_inherited (Some (Inr (YMap [(KStr ''io'', YMap [(KStr ''adam'', YNull)])]))) =
     Inr (AList.update ''io'' (Obj (AList.update ''adam'' (Plain YNull) IOCfg)) Config) \<and>
   cfg_path [''io'', ''adam'', ''host''] (Obj (AList.update ''io'' (Obj (AList.update ''adam'' (Plain YNull) IOCfg)) Config)) =
     Inl AttributeError \<and>
   load_config (\<lambda>k. if k = ''__doc__'' then Some (\<lambda>v. Inr ()) else None) (Some (Inr (YMap [(KStr ''__doc__'', YInt 1)]))) =
     Inr Config"
  by (simp add: load_config_def Config_def IOCfg_def)

end
