(* ===== verification/Startup.thy ===== *)
theory Startup
  imports Config Hybrid Mock Persistence Adam_Correctness
begin

text \<open>
  What \<open>src/src/atspi/__main__.py\<close> does with the configuration before the service runs: the waiver check, the
  construction of the driver, and the two state-file one-shots.  A configuration value whose type is not the
  one its field declares is outside the model: reading it through \<open>int_at\<close> and the like is a \<open>TypeError\<close>.
\<close>

section \<open>Reading the configuration\<close>

definition bind_exc :: "exc + 'a \<Rightarrow> ('a \<Rightarrow> exc + 'b) \<Rightarrow> exc + 'b" where
  [simp]: "bind_exc r f = (case r of Inl e \<Rightarrow> Inl e | Inr x \<Rightarrow> f x)"

fun truthy_value :: "cfg_value \<Rightarrow> bool" where
  "truthy_value (Plain v) = yaml_truthy v"
| "truthy_value (Obj fs) = True"

definition truthy_at :: "string list \<Rightarrow> cfg_value \<Rightarrow> exc + bool" where
  "truthy_at path cfg = bind_exc (cfg_path path cfg) (\<lambda>c. Inr (truthy_value c))"

definition string_at :: "string list \<Rightarrow> cfg_value \<Rightarrow> exc + string" where
  "string_at path cfg = bind_exc (cfg_path path cfg)
     (\<lambda>c. case c of Plain (YStr s) \<Rightarrow> Inr s | _ \<Rightarrow> Inl TypeError)"

definition int_at :: "string list \<Rightarrow> cfg_value \<Rightarrow> exc + int" where
  "int_at path cfg = bind_exc (cfg_path path cfg)
     (\<lambda>c. case c of Plain (YInt n) \<Rightarrow> Inr n | _ \<Rightarrow> Inl TypeError)"

definition opt_int_at :: "string list \<Rightarrow> cfg_value \<Rightarrow> exc + int option" where
  "opt_int_at path cfg = bind_exc (cfg_path path cfg)
     (\<lambda>c. case c of Plain YNull \<Rightarrow> Inr None | Plain (YInt n) \<Rightarrow> Inr (Some n) | _ \<Rightarrow> Inl TypeError)"

definition real_at :: "string list \<Rightarrow> cfg_value \<Rightarrow> exc + real" where
  "real_at path cfg = bind_exc (cfg_path path cfg)
     (\<lambda>c. case c of Plain (YFloat x) \<Rightarrow> Inr x | Plain (YInt n) \<Rightarrow> Inr (of_int n) | _ \<Rightarrow> Inl TypeError)"

section \<open>The waiver check\<close>

text \<open>\<open>_enforce_hw_watchdog_waiver\<close>: a driver name that is not a string is in neither of the two.\<close>

definition hardware_driver :: "string list \<Rightarrow> cfg_value \<Rightarrow> exc + bool" where
  "hardware_driver path cfg = bind_exc (cfg_path path cfg)
     (\<lambda>c. Inr (c = Plain (YStr ''adam'') \<or> c = Plain (YStr ''hybrid'')))"

definition enforce_hw_watchdog_waiver :: "cfg_value \<Rightarrow> exc + unit" where
  "enforce_hw_watchdog_waiver cfg =
     bind_exc (hardware_driver [''io'', ''driver''] cfg) (\<lambda>hw.
     if \<not> hw then Inr ()
     else bind_exc (truthy_at [''io'', ''adam'', ''require_hw_watchdog''] cfg) (\<lambda>required.
     if required then Inr ()
     else bind_exc (truthy_at [''io'', ''adam'', ''i_understand_no_crash_backstop''] cfg) (\<lambda>acknowledged.
     if acknowledged then Inr () else Inl ConfigError)))"

section \<open>Building the driver\<close>

definition build_hw_watchdog_config :: "cfg_value \<Rightarrow> exc + HwWatchdogConfig" where
  "build_hw_watchdog_config cfg =
     (let key = (\<lambda>k. [''io'', ''adam'', ''hw_watchdog'', k]) in
      bind_exc (opt_int_at (key ''enable_register'') cfg) (\<lambda>enable_reg.
      bind_exc (int_at (key ''enable_expected'') cfg) (\<lambda>expected.
      bind_exc (opt_int_at (key ''timeout_register'') cfg) (\<lambda>timeout_reg.
      bind_exc (real_at (key ''timeout_scale_s'') cfg) (\<lambda>scale.
      bind_exc (real_at (key ''timeout_min_s'') cfg) (\<lambda>tmin.
      bind_exc (real_at (key ''timeout_max_s'') cfg) (\<lambda>tmax.
      bind_exc (opt_int_at (key ''safety_value_register_base'') cfg) (\<lambda>base.
      bind_exc (int_at (key ''safety_value_count'') cfg) (\<lambda>cnt.
      Inr \<lparr>enable_register = enable_reg, enable_expected = expected, timeout_register = timeout_reg,
           timeout_scale_s = scale, timeout_min_s = tmin, timeout_max_s = tmax,
           safety_value_register_base = base, safety_value_count = cnt\<rparr>)))))))))"

definition build_adam_driver :: "cfg_value \<Rightarrow> 'w \<Rightarrow> exc + 'w adam" where
  "build_adam_driver cfg w =
     bind_exc (int_at [''io'', ''adam'', ''unit_id''] cfg) (\<lambda>unit_id.
     bind_exc (int_at [''io'', ''adam'', ''debounce_samples''] cfg) (\<lambda>samples.
     bind_exc (string_at [''io'', ''adam'', ''assumed_mode''] cfg) (\<lambda>mode.
     bind_exc (string_at [''io'', ''adam'', ''di_read''] cfg) (\<lambda>di_read.
     bind_exc (truthy_at [''io'', ''adam'', ''require_hw_watchdog''] cfg) (\<lambda>required.
     bind_exc (build_hw_watchdog_config cfg) (\<lambda>wd.
     adam_init unit_id samples mode di_read required (Some wd) w))))))"

definition build_asco_config :: "cfg_value \<Rightarrow> exc + AscoSerialConfig" where
  "build_asco_config cfg =
     (let key = (\<lambda>k. [''io'', ''asco_serial'', k]) in
      bind_exc (int_at (key ''unit_id'') cfg) (\<lambda>unit_id.
      bind_exc (string_at (key ''assumed_mode'') cfg) (\<lambda>mode.
      bind_exc (opt_int_at (key ''status_register'') cfg) (\<lambda>status.
      bind_exc (int_at (key ''status_register_count'') cfg) (\<lambda>cnt.
      bind_exc (opt_int_at (key ''on_normal_bit'') cfg) (\<lambda>on_normal.
      bind_exc (opt_int_at (key ''on_emergency_bit'') cfg) (\<lambda>on_emergency.
      bind_exc (opt_int_at (key ''normal_available_bit'') cfg) (\<lambda>normal.
      bind_exc (opt_int_at (key ''emergency_available_bit'') cfg) (\<lambda>emergency.
      bind_exc (opt_int_at (key ''transferring_bit'') cfg) (\<lambda>transferring.
      bind_exc (opt_int_at (key ''engine_start_bit'') cfg) (\<lambda>engine.
      Inr \<lparr>as_unit_id = unit_id, as_assumed_mode = mode, status_register = status,
           status_register_count = cnt, on_normal_bit = on_normal, on_emergency_bit = on_emergency,
           normal_available_bit = normal, emergency_available_bit = emergency,
           transferring_bit = transferring, engine_start_bit = engine\<rparr>)))))))))))"

datatype ('u, 'w) built_driver = Built_Mock mock | Built_Adam "'w adam" | Built_Hybrid "('u, 'w) hybrid"

definition build_io_driver :: "cfg_value \<Rightarrow> 'u \<Rightarrow> 'w \<Rightarrow> exc + ('u, 'w) built_driver" where
  "build_io_driver cfg u w =
     bind_exc (cfg_path [''io'', ''driver''] cfg) (\<lambda>name.
     if name = Plain (YStr ''mock'') then Inr (Built_Mock mock_init)
     else if name = Plain (YStr ''adam'') then bind_exc (build_adam_driver cfg w) (\<lambda>d. Inr (Built_Adam d))
     else if name = Plain (YStr ''hybrid'') then
       bind_exc (build_asco_config cfg) (\<lambda>ac.
       bind_exc (asco_init ac u) (\<lambda>reader.
       bind_exc (build_adam_driver cfg w) (\<lambda>d.
       Inr (Built_Hybrid \<lparr>hy_reader = reader, hy_outputs = d\<rparr>))))
     else Inl ValueError)"

fun outputs_of :: "('u, 'w) built_driver \<Rightarrow> 'w adam option" where
  "outputs_of (Built_Mock m) = None"
| "outputs_of (Built_Adam d) = Some d"
| "outputs_of (Built_Hybrid h) = Some (hy_outputs h)"

section \<open>The state-file one-shots\<close>

text \<open>
  \<open>_export_state\<close> and \<open>_import_state\<close>, after \<open>load_config\<close>, on one file system; \<open>acc\<close> is what keeps the process from the
  source.  The result is the exit code.  An import looks whether the source exists and parses before it loads it: only
  \<open>JSONDecodeError\<close> is caught there.
\<close>

definition export_state :: "string \<Rightarrow> string \<Rightarrow> string \<Rightarrow> access \<Rightarrow> (save_env, int) act" where
  "export_state state_file target rnd acc =
     andthen (gets (\<lambda>s. state_file_load state_file acc (sv_fs s))) (\<lambda>loaded.
     andthen (lift_result loaded) (\<lambda>persisted.
     andthen (state_file_save target rnd persisted) (\<lambda>_.
     ret 0)))"

definition import_state :: "string \<Rightarrow> string \<Rightarrow> string \<Rightarrow> access \<Rightarrow> (save_env, int) act" where
  "import_state source state_file rnd acc =
     andthen (gets (\<lambda>s. path_exists acc (contents source (sv_fs s)))) (\<lambda>exists.
     andthen (lift_result exists) (\<lambda>there.
     if \<not> there then ret 2
     else
       andthen (gets (\<lambda>s. read_document acc (contents source (sv_fs s)))) (\<lambda>parsed.
       case parsed of
         Inl e \<Rightarrow> if e = JSONDecodeError then ret 2 else raise e
       | Inr _ \<Rightarrow>
           andthen (gets (\<lambda>s. state_file_load source acc (sv_fs s))) (\<lambda>loaded.
           andthen (lift_result loaded) (\<lambda>persisted.
           andthen (state_file_save state_file rnd persisted) (\<lambda>_.
           ret 0))))))"

section \<open>Properties\<close>

lemma build_adam_driver_armed:
  assumes "build_adam_driver cfg w = Inr d"
  shows "truthy_at [''io'', ''adam'', ''require_hw_watchdog''] cfg = Inr (\<not> ad_hw_watchdog_ok d)"
    and "ad_require_hw_watchdog d = (\<not> ad_hw_watchdog_ok d)" and "lk_env d = w" and "ad_commanded_do d = []"
  using assms by (auto simp: build_adam_driver_def adam_init_def split: sum.splits if_splits)

text \<open>
  C26: no deployment starts with its outputs unguarded by accident.  If the service gets past the waiver check and builds a driver
  with relays behind it, and that driver would already assert an output before any readback has
  verified the unit, then the configuration both waives the readback and sets the second acknowledgement.
\<close>

theorem unguarded_start_needs_both_waivers:
  assumes "enforce_hw_watchdog_waiver cfg = Inr ()" and "build_io_driver cfg u w = Inr b"
    and "outputs_of b = Some d" and "ad_hw_watchdog_ok d"
  shows "truthy_at [''io'', ''adam'', ''require_hw_watchdog''] cfg = Inr False \<and>
    truthy_at [''io'', ''adam'', ''i_understand_no_crash_backstop''] cfg = Inr True"
proof -
  from assms(2,3) obtain name where name: "cfg_path [''io'', ''driver''] cfg = Inr name"
    "name = Plain (YStr ''adam'') \<or> name = Plain (YStr ''hybrid'')" and d: "build_adam_driver cfg w = Inr d"
    by (auto simp: build_io_driver_def split: sum.splits if_splits)
  from build_adam_driver_armed(1) [OF d] assms(4)
  have req: "truthy_at [''io'', ''adam'', ''require_hw_watchdog''] cfg = Inr False" by simp
  have "hardware_driver [''io'', ''driver''] cfg = Inr True" using name by (auto simp: hardware_driver_def)
  with req assms(1) show ?thesis
    by (auto simp: enforce_hw_watchdog_waiver_def split: sum.splits if_splits)
qed

definition waived_config :: cfg_value where
  "waived_config = Obj (AList.update ''io'' (Obj (AList.update ''driver'' (Plain (YStr ''adam''))
     (AList.update ''adam'' (Obj (AList.update ''require_hw_watchdog'' (Plain (YBool False))
       (AList.update ''i_understand_no_crash_backstop'' (Plain (YBool True)) AdamCfg))) IOCfg))) Config)"

lemmas cfg_eval = waived_config_def Config_def IOCfg_def AdamCfg_def HwWatchdogCfg_def AscoSerialCfg_def
  build_io_driver_def build_adam_driver_def build_hw_watchdog_config_def int_at_def opt_int_at_def
  real_at_def string_at_def truthy_at_def hardware_driver_def enforce_hw_watchdog_waiver_def adam_init_def
  VALID_ASSUMED_MODES_def DI_READ_FN_def Let_def

lemma unguarded_start_needs_both_waivers_witness:
  "truthy_at [''io'', ''adam'', ''i_understand_no_crash_backstop''] waived_config = Inr True"
proof -
  have "enforce_hw_watchdog_waiver waived_config = Inr ()" by (simp add: cfg_eval)
  moreover obtain d where "build_io_driver waived_config () () = Inr (Built_Adam d)" "ad_hw_watchdog_ok d"
    by (simp add: cfg_eval)
  ultimately show ?thesis
    using unguarded_start_needs_both_waivers [of waived_config "()" "()" "Built_Adam d" d] by simp
qed

text \<open>
  What an import comes to, before it writes: a source that is absent or is not JSON is refused; one that cannot be looked at, read
  or loaded raises; any other one is saved over the live file.
\<close>

lemma import_state_cases:
  assumes "import_state source state_file rnd acc s = (result, s')"
  obtains (refused) "acc = Stat_Ignored \<or> acc \<noteq> Stat_Fails \<and> contents source (sv_fs s) = None \<or>
      acc = Accessible \<and> contents source (sv_fs s) = Some (Garbage Bad_Syntax)" "result = Inr 2" "s' = s"
  | (unread) e where "acc = Stat_Fails \<and> e = OSError \<or> acc = Read_Fails \<and> contents source (sv_fs s) \<noteq> None \<and> e = OSError \<or>
      acc = Accessible \<and> (\<exists>g. contents source (sv_fs s) = Some (Garbage g) \<and> g \<noteq> Bad_Syntax \<and> e = parse_error g)" "result = Inl e" "s' = s"
  | (unloaded) j e where "acc = Accessible" "contents source (sv_fs s) = Some (Doc j)"
      "state_file_load source acc (sv_fs s) = Inl e" "result = Inl e" "s' = s"
  | (loaded) j p r where "acc = Accessible" "contents source (sv_fs s) = Some (Doc j)"
      "state_file_load source acc (sv_fs s) = Inr p" "state_file_save state_file rnd p s = (r, s')"
      "result = (case r of Inl e \<Rightarrow> Inl e | Inr _ \<Rightarrow> Inr 0)"
proof (cases "acc = Accessible \<and> (\<exists>j. contents source (sv_fs s) = Some (Doc j))")
  case True
  then obtain j where acc: "acc = Accessible" and j: "contents source (sv_fs s) = Some (Doc j)" by blast
  have run: "import_state source state_file rnd acc s = (case state_file_load source acc (sv_fs s) of
      Inl e \<Rightarrow> (Inl e, s)
    | Inr p \<Rightarrow> (case state_file_save state_file rnd p s of (r, s') \<Rightarrow> (case r of Inl e \<Rightarrow> Inl e | Inr _ \<Rightarrow> Inr 0, s')))"
    using acc j by (simp add: import_state_def act_simps path_exists_def read_document_def split: sum.split prod.split)
  show ?thesis
  proof (cases "state_file_load source acc (sv_fs s)")
    case (Inl e)
    with run assms acc j show ?thesis by (intro unloaded) auto
  next
    case (Inr p)
    obtain r s1 where save: "state_file_save state_file rnd p s = (r, s1)" by fastforce
    with Inr run assms acc j show ?thesis by (intro loaded [of j p r]) simp_all
  qed
next
  case False
  show ?thesis
  proof (cases acc)
    case Accessible
    show ?thesis
    proof (cases "contents source (sv_fs s)")
      case None
      with Accessible assms show ?thesis by (intro refused) (simp_all add: import_state_def act_simps path_exists_def)
    next
      case (Some c)
      with False Accessible obtain g where c: "contents source (sv_fs s) = Some (Garbage g)" by (cases c) auto
      with Accessible assms show ?thesis
        by (cases "g = Bad_Syntax"; cases g)
          (auto simp: import_state_def act_simps path_exists_def read_document_def intro: refused unread)
    qed
  next
    case Read_Fails
    with assms show ?thesis
      by (cases "contents source (sv_fs s)")
        (auto simp: import_state_def act_simps path_exists_def read_document_def intro: refused unread)
  qed (use assms in \<open>auto simp: import_state_def act_simps path_exists_def intro: refused unread\<close>)
qed

text \<open>
  C31: importing a state file.  The exit code is 2 exactly for a source that is absent or is not JSON; then, and whenever
  the source cannot be read or parsed at all, nothing is touched.  A source that is JSON and that \<open>load\<close> accepts is imported --
  the exit code is 0 and the live file has become one that loads as exactly what the source loads as -- unless
  the write raises \<open>OSError\<close>; there is no other exit code.
\<close>

theorem import_outcome:
  assumes "ok_env state_file s" and "import_state source state_file rnd acc s = (result, s')"
  shows "(result = Inr 2 \<longleftrightarrow> acc = Stat_Ignored \<or> acc \<noteq> Stat_Fails \<and> contents source (sv_fs s) = None \<or>
      acc = Accessible \<and> contents source (sv_fs s) = Some (Garbage Bad_Syntax)) \<and>
    ((\<nexists>j. acc = Accessible \<and> contents source (sv_fs s) = Some (Doc j)) \<longrightarrow> result \<noteq> Inr 0 \<and> s' = s) \<and>
    (\<forall>j p. contents source (sv_fs s) = Some (Doc j) \<longrightarrow> state_file_load source acc (sv_fs s) = Inr p \<longrightarrow> acc = Accessible \<longrightarrow>
      result = Inr 0 \<and> state_file_load state_file Accessible (sv_fs s') = Inr p \<or> (\<exists>e. result = Inl e \<and> is_OSError e)) \<and>
    (\<forall>code. result = Inr code \<longrightarrow> code \<in> {0, 2})"
  using assms(2)
proof (cases rule: import_state_cases)
  case (loaded j p r)
  show ?thesis
  proof (cases r)
    case (Inl e)
    with state_disk.save_fails [OF assms(1), of rnd p e s'] loaded show ?thesis by auto
  next
    case (Inr u)
    with state_disk.save_load [OF assms(1), of rnd p s'] loaded show ?thesis by auto
  qed
qed auto

lemma import_outcome_witness:
  "\<exists>s'. import_state ''missing.json'' ''state.json'' ''r'' Accessible (fresh_env (\<lambda>_. False)) = (Inr 2, s') \<and>
    s' = fresh_env (\<lambda>_. False)"
proof -
  let ?s = "fresh_env (\<lambda>_. False)"
  have ok: "ok_env ''state.json'' ?s"
    by (simp add: ok_env_def saving_def fresh_env_def durable_in_def empty_fs_def)
  obtain result s' where run: "import_state ''missing.json'' ''state.json'' ''r'' Accessible ?s = (result, s')" by fastforce
  have "contents ''missing.json'' (sv_fs ?s) = None" by (simp add: contents_def fresh_env_def empty_fs_def)
  with import_outcome [OF ok run] run show ?thesis by auto
qed

text \<open>
  An import can still wipe the live state.  The check is that the source parses as JSON, but \<open>load\<close> turns a
  document whose fields do not decode into the zero state: such a source is imported with exit code 0, and
  the live file, which counted 9 transfers, then loads as zero.
\<close>

theorem import_wipes_on_bad_field:
  defines "bad \<equiv> Doc (JObj [(''transfer_count_lifetime'', JStr ''n/a'')])"
  defines "both \<equiv> fresh_env (\<lambda>_. False)
    \<lparr>sv_fs := write_file ''backup.json'' bad (create_file ''backup.json''
       (fs_holding (Doc (asdict_state (zero_state\<lparr>ps_transfer_count_lifetime := 9\<rparr>)))))\<rparr>"
  shows "state_file_load ''state.json'' Accessible (sv_fs both) = Inr (zero_state\<lparr>ps_transfer_count_lifetime := 9\<rparr>) \<and>
    fst (import_state ''backup.json'' ''state.json'' ''r'' Accessible both) = Inr 0 \<and>
    state_file_load ''state.json'' Accessible (sv_fs (snd (import_state ''backup.json'' ''state.json'' ''r'' Accessible both))) =
      Inr zero_state"
proof -
  let ?w = "zero_state\<lparr>ps_transfer_count_lifetime := 9\<rparr>"
  have live: "contents ''state.json'' (sv_fs both) = Some (Doc (asdict_state ?w))"
    and source: "contents ''backup.json'' (sv_fs both) = Some bad"
    by (simp_all add: both_def contents_def write_file_def create_file_def set_entry_def fs_holding_def empty_fs_def)
  have decoded: "state_file_load ''backup.json'' Accessible (sv_fs both) = Inr zero_state"
    using source by (simp add: state_file_load_def path_exists_def read_document_def bad_def get_default_def py_int_of_string_def
        strip_def is_space_def parse_unsigned_def is_digit_def load_catches_def)
  have saved: "fst (state_file_save ''state.json'' ''r'' zero_state both) = Inr () \<and>
      contents ''state.json'' (sv_fs (snd (state_file_save ''state.json'' ''r'' zero_state both))) =
        Some (Doc (asdict_state zero_state))"
    by (simp add: save_eval both_def contents_def)
  then obtain s' where s': "state_file_save ''state.json'' ''r'' zero_state both = (Inr (), s')"
    by (metis prod.collapse)
  have "import_state ''backup.json'' ''state.json'' ''r'' Accessible both = (Inr 0, s')"
    using source decoded s' by (simp add: import_state_def act_simps path_exists_def read_document_def bad_def)
  then show ?thesis using load_contents [OF live] load_contents saved s' by simp
qed

end
