(* ===== verification/Health.thy ===== *)
theory Health
  imports Safety
begin

text \<open>
  \<open>src/src/atspi/health.py\<close> and \<open>src/src/atspi/notify.py\<close>: the JSON status built from the register store and the routing of the
  HTTP endpoint, and the systemd notifications.  The endpoint runs in a thread of its own and \<open>build_status\<close> takes
  the store's lock for one register at a time, so each of its reads sees the store and the clocks of its own moment.
  That thread, which serves one connection at a time, and its stopping are modelled; the sockets are not.
\<close>

section \<open>The status document\<close>

definition POSITION_NAMES :: "(int \<times> string) list" where
  "POSITION_NAMES = [(0, ''utility''), (1, ''generator''), (2, ''transferring''), (3, ''unknown'')]"

definition MODE_NAMES :: "(int \<times> string) list" where
  "MODE_NAMES = [(0, ''auto''), (1, ''manual''), (2, ''test''), (3, ''unknown'')]"

text \<open>A name outside the table is \<open>unknown(n)\<close>.\<close>

datatype named = Name string | Unknown_Value int

definition name_of :: "(int \<times> string) list \<Rightarrow> int \<Rightarrow> named" where
  "name_of table v = (case map_of table v of Some n \<Rightarrow> Name n | None \<Rightarrow> Unknown_Value v)"

text \<open>What one read sees: the store under the lock, and the two clocks.\<close>

type_synonym observation = "RegisterStore \<times> real \<times> int"

fun register_seen :: "int \<Rightarrow> observation \<Rightarrow> int" where
  "register_seen addr (store, now_mono, now_wall) = read_register addr now_mono now_wall store"

definition u32_from_pair :: "int \<Rightarrow> observation \<Rightarrow> observation \<Rightarrow> int" where
  "u32_from_pair base_addr seen1 seen2 =
     (let hi = register_seen base_addr seen1;
          lo = register_seen (base_addr + 1) seen2
      in push_bit 16 hi OR lo)"

definition decode_fault_bits :: "int \<Rightarrow> string list" where
  "decode_fault_bits bits =
     (if bits AND FAULT_INPUT \<noteq> 0 then [''input_fault''] else []) @
     (if bits AND FAULT_OUTPUT \<noteq> 0 then [''output_fault''] else []) @
     (if bits AND FAULT_MODE_UNKNOWN \<noteq> 0 then [''mode_unknown''] else []) @
     (if bits AND FAULT_CALIBRATION \<noteq> 0 then [''calibration''] else [])"

record status =
  st_version :: string
  st_icd_version :: "int \<times> int"
  st_unit_id :: int
  st_uptime_s :: int
  st_position :: named
  st_ats_mode :: named
  st_fault_raw :: int
  st_fault_active :: "string list"
  st_transfer_count_lifetime :: int
  st_transfer_count_24h :: int
  st_last_modbus_read_age_s :: real
  st_watchdog_released :: bool

text \<open>
  \<open>seen n\<close> is what the \<open>n\<close>-th register read of the call sees and \<open>watchdog_now\<close>, \<open>wd\<close> what the watchdog's snapshot does.
  The age is rounded to two digits (here by \<open>round\<close>, whose ties differ from Python's).
\<close>

definition build_status :: "(nat \<Rightarrow> observation) \<Rightarrow> real \<Rightarrow> watchdog \<Rightarrow> status" where
  "build_status seen watchdog_now wd =
     (let position_value = register_seen ADDR_POSITION (seen 0);
          mode_value = register_seen ADDR_ATS_MODE (seen 1);
          fault_bits = register_seen ADDR_FAULT_SUMMARY (seen 2)
      in case watchdog_snapshot watchdog_now wd of (last_read_age_s, released) \<Rightarrow>
        \<lparr>st_version = VERSION, st_icd_version = ICD_VERSION, st_unit_id = register_seen ADDR_UNIT_ID (seen 3),
         st_uptime_s = u32_from_pair ADDR_UPTIME_S (seen 4) (seen 5),
         st_position = name_of POSITION_NAMES position_value,
         st_ats_mode = name_of MODE_NAMES mode_value,
         st_fault_raw = fault_bits, st_fault_active = decode_fault_bits fault_bits,
         st_transfer_count_lifetime = u32_from_pair ADDR_TRANSFER_COUNT_LIFETIME (seen 6) (seen 7),
         st_transfer_count_24h = u32_from_pair ADDR_TRANSFER_COUNT_24H (seen 8) (seen 9),
         st_last_modbus_read_age_s = of_int (round (last_read_age_s * 100)) / 100,
         st_watchdog_released = released\<rparr>)"

text \<open>The route: the HTTP status code and the body, if it is the status.\<close>

definition do_GET :: "string \<Rightarrow> exc + status \<Rightarrow> int \<times> status option" where
  "do_GET path body =
     (if path \<notin> {''/health'', ''/health/''} then (404, None)
      else (case body of Inl e \<Rightarrow> (500, None) | Inr st \<Rightarrow> (200, Some st)))"

section \<open>Systemd notifications\<close>

text \<open>The address of \<open>$NOTIFY_SOCKET\<close>: unset or empty is none, a leading \<open>@\<close> stands for a null byte.\<close>

definition socket_path :: "string option \<Rightarrow> string option" where
  "socket_path env =
     (case env of None \<Rightarrow> None
      | Some addr \<Rightarrow>
          (case addr of [] \<Rightarrow> None
           | c # cs \<Rightarrow> if c = CHR ''@'' then Some (char_of (0 :: nat) # cs) else Some addr))"

definition notify :: "string option \<Rightarrow> (string \<Rightarrow> string \<Rightarrow> ('s, unit) act) \<Rightarrow> string \<Rightarrow> ('s, bool) act" where
  "notify env send message =
     (case socket_path env of
        None \<Rightarrow> ret False
      | Some addr \<Rightarrow> catching (andthen (send addr message) (\<lambda>_. ret True))
          (\<lambda>e. if is_OSError e then ret False else raise e))"

definition notify_ready :: "string option \<Rightarrow> (string \<Rightarrow> string \<Rightarrow> ('s, unit) act) \<Rightarrow> ('s, bool) act" where
  "notify_ready env send = notify env send ''READY=1''"

definition notify_watchdog :: "string option \<Rightarrow> (string \<Rightarrow> string \<Rightarrow> ('s, unit) act) \<Rightarrow> ('s, bool) act" where
  "notify_watchdog env send = notify env send ''WATCHDOG=1''"

text \<open>
  \<open>watchdog_loop\<close>, cancelled in its \<open>n\<close>-th sleep: a ping before each of them.  Without a socket it returns at once, pinging
  nothing.
\<close>

fun ping_rounds :: "('s, bool) act \<Rightarrow> nat \<Rightarrow> ('s, unit) act" where
  "ping_rounds ping 0 = ret ()"
| "ping_rounds ping (Suc n) = andthen ping (\<lambda>_. ping_rounds ping n)"

definition watchdog_loop :: "string option \<Rightarrow> (string \<Rightarrow> string \<Rightarrow> ('s, unit) act) \<Rightarrow> nat \<Rightarrow> ('s, unit) act" where
  "watchdog_loop env send n =
     (case socket_path env of None \<Rightarrow> ret () | Some addr \<Rightarrow> ping_rounds (notify_watchdog env send) n)"

lemma notify_survives:
  assumes "raises_only is_OSError (send addr message)" and "socket_path env = Some addr"
  shows "\<exists>b. fst (notify env send message s) = Inr b"
  using raises_only_fst [OF assms(1), of s] assms(2)
  by (auto simp: notify_def act_simps split: prod.splits sum.splits)

text \<open>A socket that fails with \<open>OSError\<close> never ends the loop.\<close>

lemma watchdog_loop_survives:
  assumes "\<And>addr message. raises_only is_OSError (send addr message)"
  shows "fst (watchdog_loop env send n s) = Inr ()"
proof (cases "socket_path env")
  case (Some addr)
  have "fst (ping_rounds (notify_watchdog env send) n s) = Inr ()"
  proof (induction n arbitrary: s)
    case (Suc n)
    have "\<exists>b. fst (notify env send ''WATCHDOG=1'' s) = Inr b" by (rule notify_survives [OF assms Some])
    with Suc show ?case
      by (cases "notify env send ''WATCHDOG=1'' s") (auto simp: notify_watchdog_def andthen_def)
  qed (simp add: ret_def)
  with Some show ?thesis by (simp add: watchdog_loop_def)
qed (simp add: watchdog_loop_def ret_def)

section \<open>What external monitoring sees\<close>

lemma position_named:
  "name_of POSITION_NAMES (position_to_value p) =
     Name (if p \<in> {''utility'', ''generator'', ''transferring''} then p else ''unknown'')"
  by (auto simp: name_of_def POSITION_NAMES_def position_to_value_def)

lemma mode_named:
  "name_of MODE_NAMES (mode_to_value m) =
     Name (if m \<in> {''auto'', ''manual'', ''test''} then m else ''unknown'')"
  by (auto simp: name_of_def MODE_NAMES_def mode_to_value_def)

lemma and_one_bit: "((x :: int) AND 2 ^ n \<noteq> 0) = bit x n"
proof -
  have "bit (x AND 2 ^ n) j \<longleftrightarrow> bit x n \<and> j = n" for j
    by (auto simp: bit_simps)
  then show ?thesis
    by (metis bit_0_eq bit_eqI bot_apply bot_bool_def)
qed

lemma decode_fault_bits_mem:
  "''input_fault'' \<in> set (decode_fault_bits b) \<longleftrightarrow> bit b 0"
  "''output_fault'' \<in> set (decode_fault_bits b) \<longleftrightarrow> bit b 1"
  "''mode_unknown'' \<in> set (decode_fault_bits b) \<longleftrightarrow> bit b 2"
  "''calibration'' \<in> set (decode_fault_bits b) \<longleftrightarrow> bit b 3"
  using and_one_bit [of b 0] and_one_bit [of b 1] and_one_bit [of b 2] and_one_bit [of b 3]
  by (auto simp: decode_fault_bits_def)

lemma seen_registers:
  "register_seen ADDR_POSITION r = position_to_value (sn_position (rs_snap (fst r)))"
  "register_seen ADDR_ATS_MODE r = mode_to_value (sn_ats_mode (rs_snap (fst r)))"
  "register_seen ADDR_FAULT_SUMMARY r = fault_summary (rs_snap (fst r))"
  by (cases r; simp add: read_register_def Let_def)+

lemma lifetime_pair:
  "u32_from_pair ADDR_TRANSFER_COUNT_LIFETIME r1 r2 =
     pair_u32 (hi_word (sn_transfer_count_lifetime (rs_snap (fst r1)))) (lo_word (sn_transfer_count_lifetime (rs_snap (fst r2))))"
  by (cases r1; cases r2; simp add: u32_from_pair_def read_register_def Let_def pair_u32_def del: push_bit_eq_mult)

lemma count_24h_pair:
  "u32_from_pair ADDR_TRANSFER_COUNT_24H r1 r2 =
     pair_u32 (hi_word (sn_transfer_count_24h (rs_snap (fst r1)))) (lo_word (sn_transfer_count_24h (rs_snap (fst r2))))"
  by (cases r1; cases r2; simp add: u32_from_pair_def read_register_def Let_def pair_u32_def del: push_bit_eq_mult)

text \<open>The uptime moves with the clock alone.\<close>

lemma uptime_pair:
  "u32_from_pair ADDR_UPTIME_S (s, m1, w1) (s, m2, w2) = pair_u32 (hi_word (uptime_s m1 s)) (lo_word (uptime_s m2 s))"
  by (simp add: u32_from_pair_def read_register_def Let_def pair_u32_def del: push_bit_eq_mult)

text \<open>
  The health endpoint tells the truth about the switch, each field as of its own read.  The position and mode it names
  are the store's (any other string is \<open>unknown\<close>), never a raw number; the active faults are exactly the defined
  bits of the snapshot, with the mode-reject latch shown as an input fault; and a transfer count whose two halves were
  read from one count is that count modulo 2^32.
\<close>

theorem build_status_agrees:
  "let st = build_status seen t wd; n = (\<lambda>i. rs_snap (fst (seen i))) in
     st_position st = Name (if sn_position (n 0) \<in> {''utility'', ''generator'', ''transferring''} then sn_position (n 0) else ''unknown'') \<and>
     st_ats_mode st = Name (if sn_ats_mode (n 1) \<in> {''auto'', ''manual'', ''test''} then sn_ats_mode (n 1) else ''unknown'') \<and>
     (''input_fault'' \<in> set (st_fault_active st) \<longleftrightarrow> bit (sn_fault_bits (n 2)) 0 \<or> sn_mode_reject_active (n 2)) \<and>
     (''output_fault'' \<in> set (st_fault_active st) \<longleftrightarrow> bit (sn_fault_bits (n 2)) 1) \<and>
     (''mode_unknown'' \<in> set (st_fault_active st) \<longleftrightarrow> bit (sn_fault_bits (n 2)) 2) \<and>
     (''calibration'' \<in> set (st_fault_active st) \<longleftrightarrow> bit (sn_fault_bits (n 2)) 3) \<and>
     (sn_transfer_count_lifetime (n 6) = sn_transfer_count_lifetime (n 7) \<longrightarrow>
        st_transfer_count_lifetime st = sn_transfer_count_lifetime (n 6) mod 2 ^ 32) \<and>
     (sn_transfer_count_24h (n 8) = sn_transfer_count_24h (n 9) \<longrightarrow>
        st_transfer_count_24h st = sn_transfer_count_24h (n 8) mod 2 ^ 32) \<and>
     st_watchdog_released st = wd_released wd"
  unfolding build_status_def Let_def watchdog_snapshot_def prod.case status.simps seen_registers position_named
    mode_named decode_fault_bits_mem bit_fault_summary lifetime_pair count_24h_pair
  by (auto simp: pair_u32_words)

text \<open>
  A transfer published between the two reads of the lifetime count: the document shows the new count, except when
  the low half carries -- then it shows the old high half with the new low half, a count short by 65536.
\<close>

theorem health_count_torn:
  assumes "transferred_to_gen (sn_position (rs_snap s)) (in_position inputs)"
    and "n = sn_transfer_count_lifetime (rs_snap s)"
  shows "u32_from_pair ADDR_TRANSFER_COUNT_LIFETIME (s, m1, w1) (fst (apply_input_snapshot lp w inputs s), m2, w2) =
    (if n mod 65536 = 65535 then (n - 65535) mod 2 ^ 32 else (n + 1) mod 2 ^ 32)"
proof -
  have "sn_transfer_count_lifetime (rs_snap (fst (apply_input_snapshot lp w inputs s))) = n + 1"
    using assms by (simp add: apply_input_snapshot_def Let_def)
  then have pair: "u32_from_pair ADDR_TRANSFER_COUNT_LIFETIME (s, m1, w1) (fst (apply_input_snapshot lp w inputs s), m2, w2) =
      pair_u32 (hi_word n) (lo_word (n + 1))"
    unfolding lifetime_pair by (simp add: assms(2))
  show ?thesis
  proof (cases "n mod 65536 = 65535")
    case True
    then obtain q where q: "n = 65536 * q + 65535" by (metis mult_div_mod_eq)
    then have "n div 65536 = (n - 65535) div 65536" "(n + 1) mod 65536 = (n - 65535) mod 65536" by simp_all
    then have "pair_u32 (hi_word n) (lo_word (n + 1)) = pair_u32 (hi_word (n - 65535)) (lo_word (n - 65535))"
      by (simp only: lo_word_eq hi_word_eq)
    with True show ?thesis unfolding pair pair_u32_words by simp
  next
    case False
    have "n + 1 = 65536 * (n div 65536) + (n mod 65536 + 1)" by simp
    moreover have "n mod 65536 + 1 < 65536" using False pos_mod_bound [of 65536 n] by linarith
    ultimately have "(n + 1) div 65536 = n div 65536"
      by (intro int_div_pos_eq [where r = "n mod 65536 + 1"]) simp_all
    then have "n div 65536 = (n + 1) div 65536" by (rule sym)
    then have "pair_u32 (hi_word n) (lo_word (n + 1)) = pair_u32 (hi_word (n + 1)) (lo_word (n + 1))"
      by (simp only: hi_word_eq)
    with False show ?thesis unfolding pair pair_u32_words by simp
  qed
qed

section \<open>The server's thread\<close>

text \<open>
  \<open>HealthServer\<close> around the standard library's \<open>HTTPServer\<close>: its thread polls for a connection and handles it, one at a
  time, until it has seen the stop request, which it looks for between two connections only.  A handler reads its request
  without a timeout: how long it takes is the client's affair (\<open>Http_Done\<close>).
\<close>

datatype http_thread = Not_Started | Polling | Handling | Ended

record health_server =
  hs_thread :: http_thread
  hs_stop_requested :: bool
  hs_listening :: bool

datatype http_event = Http_Accept | Http_Done | Http_End

text \<open>One step of the thread; \<open>None\<close> where it cannot happen.\<close>

fun http_step :: "http_event \<Rightarrow> health_server \<Rightarrow> health_server option" where
  "http_step Http_Accept h =
     (if hs_thread h = Polling \<and> \<not> hs_stop_requested h then Some (h\<lparr>hs_thread := Handling\<rparr>) else None)"
| "http_step Http_Done h = (if hs_thread h = Handling then Some (h\<lparr>hs_thread := Polling\<rparr>) else None)"
| "http_step Http_End h =
     (if hs_thread h = Polling \<and> hs_stop_requested h then Some (h\<lparr>hs_thread := Ended\<rparr>) else None)"

fun http_run :: "http_event list \<Rightarrow> health_server \<Rightarrow> health_server option" where
  "http_run [] h = Some h"
| "http_run (e # es) h = (case http_step e h of None \<Rightarrow> None | Some h' \<Rightarrow> http_run es h')"

text \<open>The constructor binds the socket (\<open>bound\<close>), \<open>start\<close> starts the thread.\<close>

definition health_server_init :: "exc + unit \<Rightarrow> exc + health_server" where
  "health_server_init bound =
     (case bound of
        Inl e \<Rightarrow> Inl e
      | Inr _ \<Rightarrow> Inr \<lparr>hs_thread = Not_Started, hs_stop_requested = False, hs_listening = True\<rparr>)"

definition health_server_start :: "health_server \<Rightarrow> health_server" where
  "health_server_start h = h\<lparr>hs_thread := Polling\<rparr>"

definition start_health_server :: "exc + unit \<Rightarrow> exc + health_server" where
  "start_health_server bound = (case health_server_init bound of Inl e \<Rightarrow> Inl e | Inr h \<Rightarrow> Inr (health_server_start h))"

text \<open>
  \<open>stop\<close>: \<open>shutdown()\<close> sets the request and waits for the thread to end, however long that takes; the caller is the event loop,
  which does nothing else meanwhile.  \<open>None\<close>: it has not returned after \<open>es\<close>.
\<close>

definition health_server_stop :: "http_event list \<Rightarrow> health_server \<Rightarrow> health_server option" where
  "health_server_stop es h =
     (case http_run es (h\<lparr>hs_stop_requested := True\<rparr>) of
        None \<Rightarrow> None
      | Some h' \<Rightarrow> if hs_thread h' = Ended then Some (h'\<lparr>hs_listening := False\<rparr>) else None)"

lemma http_run_append: "http_run (es @ es') h = (case http_run es h of None \<Rightarrow> None | Some h' \<Rightarrow> http_run es' h')"
  by (induction es h rule: http_run.induct) (auto split: option.split)

text \<open>Once requested, a stop needs of the outside at most the end of the connection being handled.\<close>

lemma stop_returns:
  "hs_thread h = Polling \<Longrightarrow> health_server_stop [Http_End] h \<noteq> None"
  "hs_thread h = Handling \<Longrightarrow> health_server_stop [Http_Done, Http_End] h \<noteq> None"
  by (simp_all add: health_server_stop_def)

lemma handling_stays:
  assumes "http_run es h = Some h'" and "hs_thread h = Handling" and "Http_Done \<notin> set es"
  shows "hs_thread h' = Handling"
proof (cases es)
  case (Cons e es')
  with assms show ?thesis by (cases e) simp_all
qed (use assms in simp)

text \<open>But it does need that: a connection left open is waited for.\<close>

lemma stop_waits:
  assumes "hs_thread h = Handling" and "health_server_stop es h = Some h'"
  shows "Http_Done \<in> set es"
proof (rule ccontr)
  assume "Http_Done \<notin> set es"
  moreover from assms(2) obtain h1 where "http_run es (h\<lparr>hs_stop_requested := True\<rparr>) = Some h1" "hs_thread h1 = Ended"
    by (auto simp: health_server_stop_def split: option.splits if_splits)
  ultimately show False using handling_stays [of es _ h1] assms(1) by fastforce
qed

end
