(* ===== verification/Deployment.thy ===== *)
theory Deployment
  imports Service_Properties Startup Health
begin

text \<open>
  From the configuration document to the running service: \<open>_amain\<close> of \<open>src/src/atspi/__main__.py\<close> up to the creation of
  its tasks.  \<open>built_driver\<close> is whichever driver the configuration names; it meets the driver interface because
  each of the three does, so the locale \<open>driven_service\<close> applies to a service on a driver chosen at run time.
\<close>

section \<open>A driver chosen at run time\<close>

fun on_built :: "(mock, 'a) act \<Rightarrow> ('w adam, 'a) act \<Rightarrow> (('u, 'w) hybrid, 'a) act \<Rightarrow> (('u, 'w) built_driver, 'a) act" where
  "on_built f g h (Built_Mock m) = (case f m of (r, m') \<Rightarrow> (r, Built_Mock m'))"
| "on_built f g h (Built_Adam d) = (case g d of (r, d') \<Rightarrow> (r, Built_Adam d'))"
| "on_built f g h (Built_Hybrid y) = (case h y of (r, y') \<Rightarrow> (r, Built_Hybrid y'))"

fun of_built :: "(mock \<Rightarrow> 'a) \<Rightarrow> ('w adam \<Rightarrow> 'a) \<Rightarrow> (('u, 'w) hybrid \<Rightarrow> 'a) \<Rightarrow> ('u, 'w) built_driver \<Rightarrow> 'a" where
  "of_built f g h (Built_Mock m) = f m"
| "of_built f g h (Built_Adam d) = g d"
| "of_built f g h (Built_Hybrid y) = h y"

definition built_connect :: "'u modbus_api \<Rightarrow> 'w modbus_api \<Rightarrow> (('u, 'w) built_driver, bool) act" where
  "built_connect serial tcp = on_built mock_connect (adam_connect tcp) (hybrid_connect serial tcp)"

definition built_close :: "'u modbus_api \<Rightarrow> 'w modbus_api \<Rightarrow> (('u, 'w) built_driver, unit) act" where
  "built_close serial tcp = on_built mock_close (adam_close tcp) (hybrid_close serial tcp)"

definition built_read_inputs :: "'u modbus_api \<Rightarrow> 'w modbus_api \<Rightarrow> (('u, 'w) built_driver, InputSnapshot) act" where
  "built_read_inputs serial tcp = on_built mock_read_inputs (adam_read_inputs tcp) (hybrid_read_inputs serial)"

definition built_read_output_state :: "'w modbus_api \<Rightarrow> (('u, 'w) built_driver, OutputState) act" where
  "built_read_output_state tcp =
     on_built mock_read_output_state (adam_read_output_state tcp) (hybrid_read_output_state tcp)"

definition built_drive_outputs :: "'w modbus_api \<Rightarrow> int option \<Rightarrow> bool option \<Rightarrow> bool option \<Rightarrow> int option \<Rightarrow>
    (('u, 'w) built_driver, unit) act" where
  "built_drive_outputs tcp t i f b =
     on_built (mock_drive_outputs t i f b) (adam_drive_outputs tcp t i f b) (hybrid_drive_outputs tcp t i f b)"

definition built_release_all_outputs :: "'w modbus_api \<Rightarrow> (('u, 'w) built_driver, unit) act" where
  "built_release_all_outputs tcp =
     on_built mock_release_all_outputs (adam_release_all_outputs tcp) (hybrid_release_all_outputs tcp)"

definition built_check_output_consistency :: "'w modbus_api \<Rightarrow> OutputState \<Rightarrow> ('u, 'w) built_driver \<Rightarrow> bool" where
  "built_check_output_consistency tcp actual =
     of_built (mock_check_output_consistency actual) (adam_check_output_consistency tcp actual)
       (hybrid_check_output_consistency tcp actual)"

definition built_hw_watchdog_ok :: "('u, 'w) built_driver \<Rightarrow> bool" where
  "built_hw_watchdog_ok = of_built mock_hw_watchdog_ok ad_hw_watchdog_ok hybrid_hw_watchdog_ok"

definition built_commanded :: "('u, 'w) built_driver \<Rightarrow> command_output \<Rightarrow> bool option" where
  "built_commanded = of_built mock_commanded adam_commanded hybrid_commanded"

definition built_ops :: "'u modbus_api \<Rightarrow> 'w modbus_api \<Rightarrow> ('u, 'w) built_driver driver_ops" where
  "built_ops serial tcp =
     \<lparr>op_connect = built_connect serial tcp, op_close = built_close serial tcp,
      op_read_inputs = built_read_inputs serial tcp, op_read_output_state = built_read_output_state tcp,
      op_drive_outputs = built_drive_outputs tcp, op_release_all_outputs = built_release_all_outputs tcp,
      op_check_output_consistency = built_check_output_consistency tcp, op_hw_watchdog_ok = built_hw_watchdog_ok\<rparr>"

inductive built_env :: "'w modbus_api \<Rightarrow> ('u, 'w) built_driver \<Rightarrow> ('u, 'w) built_driver \<Rightarrow> bool" for tcp where
  Mock_Moves: "mock_env m m' \<Longrightarrow> built_env tcp (Built_Mock m) (Built_Mock m')"
| Adam_Moves: "adam_env tcp d d' \<Longrightarrow> built_env tcp (Built_Adam d) (Built_Adam d')"
| Hybrid_Moves: "hybrid_env tcp y y' \<Longrightarrow> built_env tcp (Built_Hybrid y) (Built_Hybrid y')"

lemmas built_defs = built_read_inputs_def built_read_output_state_def built_drive_outputs_def
  built_release_all_outputs_def built_hw_watchdog_ok_def built_commanded_def

lemma on_built_fst:
  "fst (on_built f g h b) = of_built (fst \<circ> f) (fst \<circ> g) (fst \<circ> h) b"
  by (cases b) (simp_all split: prod.split)

lemma built_commanded_on:
  "built_commanded (snd (on_built f g h b)) =
     of_built (mock_commanded \<circ> snd \<circ> f) (adam_commanded \<circ> snd \<circ> g) (hybrid_commanded \<circ> snd \<circ> h) b"
  by (cases b) (simp_all add: built_commanded_def split: prod.split)

lemma on_built_returnE:
  assumes "on_built f g h b = (r, b')"
  obtains m m' where "b = Built_Mock m" "b' = Built_Mock m'" "f m = (r, m')"
  | d d' where "b = Built_Adam d" "b' = Built_Adam d'" "g d = (r, d')"
  | y y' where "b = Built_Hybrid y" "b' = Built_Hybrid y'" "h y = (r, y')"
  using assms by (cases b) (auto split: prod.splits)

interpretation built: io_driver "built_read_output_state tcp" "built_drive_outputs tcp"
    "built_release_all_outputs tcp" "built_check_output_consistency tcp" built_hw_watchdog_ok
    built_commanded "built_read_inputs serial tcp" "built_connect serial tcp" "built_close serial tcp"
  for tcp :: "'w modbus_api" and serial :: "'u modbus_api"
proof unfold_locales
  fix s s' :: "('u, 'w) built_driver" and t b :: "int option" and i f :: "bool option" and v and out
  show "built_drive_outputs tcp t i f b s = (Inl HwWatchdogNotArmedError, s)"
    if "\<not> built_hw_watchdog_ok s" "asserts_output t i f b"
    using that by (cases s) (simp_all add: built_defs mock.refuse_assert adam.refuse_assert hybrid.refuse_assert)
  show "fst (built_drive_outputs tcp t i f b s) \<noteq> Inl HwWatchdogNotArmedError" if "\<not> asserts_output t i f b"
    unfolding built_drive_outputs_def on_built_fst
    using that by (cases s) (simp_all add: mock.release_permitted adam.release_permitted hybrid.release_permitted)
  show "fst (built_release_all_outputs tcp s) \<noteq> Inl HwWatchdogNotArmedError"
    unfolding built_release_all_outputs_def on_built_fst
    by (cases s) (simp_all add: mock.release_all_permitted adam.release_all_permitted hybrid.release_all_permitted)
  show "built_drive_outputs tcp t (Some v) f b s = (Inr (), s') \<Longrightarrow> built_commanded s' Inhibit = Some v"
    unfolding built_drive_outputs_def
    by (erule on_built_returnE)
      (auto simp: built_commanded_def dest: mock.drive_inhibit adam.drive_inhibit hybrid.drive_inhibit)
  show "built_drive_outputs tcp t i (Some v) b s = (Inr (), s') \<Longrightarrow> built_commanded s' Force_Transfer = Some v"
    unfolding built_drive_outputs_def
    by (erule on_built_returnE)
      (auto simp: built_commanded_def dest: mock.drive_force adam.drive_force hybrid.drive_force)
  show "built_release_all_outputs tcp s = (Inr (), s') \<Longrightarrow> built_commanded s' out = Some False"
    unfolding built_release_all_outputs_def
    by (erule on_built_returnE)
      (simp_all add: built_commanded_def mock.release_all adam.release_all hybrid.release_all
        del: mock_commanded.simps)
  show "built_commanded (snd (built_drive_outputs tcp t None f b s)) Inhibit = built_commanded s Inhibit"
    unfolding built_drive_outputs_def built_commanded_on
    by (cases s) (simp_all add: built_commanded_def mock.drive_inhibit_frame adam.drive_inhibit_frame
        hybrid.drive_inhibit_frame del: mock_commanded.simps)
  show "built_commanded (snd (built_drive_outputs tcp t i None b s)) Force_Transfer = built_commanded s Force_Transfer"
    unfolding built_drive_outputs_def built_commanded_on
    by (cases s) (simp_all add: built_commanded_def mock.drive_force_frame adam.drive_force_frame
        hybrid.drive_force_frame del: mock_commanded.simps)
  show "built_commanded (snd (built_release_all_outputs tcp s)) out \<in> {built_commanded s out, Some False}"
    unfolding built_release_all_outputs_def built_commanded_on
    using mock.release_all_frame adam.release_all_frame hybrid.release_all_frame
    by (cases s) (simp_all add: built_commanded_def del: mock_commanded.simps)
  show "built_commanded (snd (built_read_output_state tcp s)) = built_commanded s"
    unfolding built_read_output_state_def built_commanded_on
    by (cases s) (simp_all add: built_commanded_def mock.read_outputs_frame adam.read_outputs_frame
        hybrid.read_outputs_frame)
  show "built_commanded (snd (built_read_inputs serial tcp s)) = built_commanded s"
    unfolding built_read_inputs_def built_commanded_on
    by (cases s) (simp_all add: built_commanded_def mock.read_inputs_frame adam.read_inputs_frame
        hybrid.read_inputs_frame)
  show "built_commanded (snd (built_connect serial tcp s)) = built_commanded s"
    unfolding built_connect_def built_commanded_on
    by (cases s) (simp_all add: built_commanded_def mock.connect_frame adam.connect_frame hybrid.connect_frame)
  show "built_commanded (snd (built_close serial tcp s)) = built_commanded s"
    unfolding built_close_def built_commanded_on
    by (cases s) (simp_all add: built_commanded_def mock.close_frame adam.close_frame hybrid.close_frame)
qed

interpretation built_service: driven_service "built_read_output_state tcp" "built_drive_outputs tcp"
    "built_release_all_outputs tcp" "built_check_output_consistency tcp" built_hw_watchdog_ok
    built_commanded "built_read_inputs serial tcp" "built_connect serial tcp" "built_close serial tcp" "built_env tcp"
  for tcp :: "'w modbus_api" and serial :: "'u modbus_api"
proof unfold_locales
  fix b b' :: "('u, 'w) built_driver" and out
  assume "built_env tcp b b'" and out: "out \<in> {Inhibit, Force_Transfer}"
  then show "built_commanded b' out = built_commanded b out"
    by cases (simp_all add: built_commanded_def mock_service.env_frame [OF _ out] adam_service.env_frame [OF _ out]
        hybrid_service.env_frame [OF _ out])
qed

text \<open>An output that is commanded off stays off while no method is called: release tasks only ever switch off.\<close>

lemma adam_release_keeps_off:
  "keeps (\<lambda>d. last_commanded d j = Some False) (adam_release_step api k)"
proof -
  have rec: "keeps (\<lambda>d. last_commanded d j = Some False) (record_commanded api i False)" for i
    by (rule keepsI) (simp add: record_commanded_eq)
  have phase: "keeps (\<lambda>d. last_commanded d j = Some False) (set_phase k p)" for p
    by (rule keepsI) (simp add: set_phase_def act_simps last_commanded_def)
  have attempt: "keeps (\<lambda>d. last_commanded d j = Some False) (release_attempt api k c)" for c
    unfolding release_attempt_def by (intro hoare keeps_lc phase)
  show ?thesis
    unfolding adam_release_step_def by (auto intro!: hoare rec attempt split: release_phase.split)
qed

lemma adam_env_keeps_off:
  assumes "adam_env api d d'" and "adam_commanded d out = Some False"
  shows "adam_commanded d' out = Some False"
  using assms
proof cases
  case (Task k)
  with assms(2) keepsD [OF adam_release_keeps_off] show ?thesis by (auto simp: adam_commanded_def)
qed (auto simp: adam_commanded_def last_commanded_def)

lemma built_env_keeps_off:
  assumes "built_env tcp b b'" and "built_commanded b out = Some False"
  shows "built_commanded b' out = Some False"
  using assms
proof cases
  case (Mock_Moves m m')
  from Mock_Moves(3) have "mock_commanded m' out = Some False" if "mock_commanded m out = Some False"
    using that by cases
      (cases out; auto simp: mock_release_step_def cycle_position_def toggle_normal_available_def Let_def split: pulse_output.split)+
  with Mock_Moves assms(2) show ?thesis by (simp add: built_commanded_def del: mock_commanded.simps)
next
  case (Adam_Moves d d')
  with assms(2) adam_env_keeps_off show ?thesis by (auto simp: built_commanded_def)
next
  case (Hybrid_Moves y y')
  from Hybrid_Moves(3) assms(2) Hybrid_Moves(1,2) show ?thesis
    by cases (auto simp: built_commanded_def hybrid_commanded_def intro: adam_env_keeps_off)
qed

section \<open>Starting the service\<close>

text \<open>
  \<open>_amain\<close> up to its tasks: \<open>document\<close> is what the parser makes of the configuration file, \<open>u\<close> and \<open>w\<close> the serial line and
  the network, \<open>disk\<close> the file system and \<open>acc\<close> what keeps the process from the state file, if anything.  An exception ends the
  process, a failed connection does not.
\<close>

definition start_service ::
    "'u modbus_api \<Rightarrow> 'w modbus_api \<Rightarrow> inherited \<Rightarrow> (exc + yaml) option \<Rightarrow> 'u \<Rightarrow> 'w \<Rightarrow> fs \<Rightarrow> access \<Rightarrow> real \<Rightarrow> int \<Rightarrow>
      exc + ('u, 'w) built_driver service" where
  "start_service serial tcp inh document u w disk acc now_mono now_wall =
     bind_exc (load_config inh document) (\<lambda>loaded.
     bind_exc (int_at [''site'', ''unit_id''] (Obj loaded)) (\<lambda>unit_id.
     bind_exc (enforce_hw_watchdog_waiver (Obj loaded)) (\<lambda>_.
     bind_exc (build_io_driver (Obj loaded) u w) (\<lambda>driver.
     case built_connect serial tcp driver of (link, d) \<Rightarrow>
     bind_exc link (\<lambda>_.
     bind_exc (string_at [''persistence'', ''state_file''] (Obj loaded)) (\<lambda>path.
     bind_exc (state_file_load path acc disk) (\<lambda>persisted.
     bind_exc (store_init unit_id (Some persisted) now_mono now_wall) (\<lambda>store.
     Inr (service_start (built_ops serial tcp) store now_mono d)))))))))"

lemma start_serviceE:
  assumes "start_service serial tcp inh document u w disk acc now_mono now_wall = Inr sy"
  obtains path persisted store unit_id d where
    "state_file_load path acc disk = Inr persisted"
    "store_init unit_id (Some persisted) now_mono now_wall = Inr store"
    "sy = service_start (built_ops serial tcp) store now_mono d"
  using assms unfolding start_service_def
  by (auto split: sum.splits prod.splits intro: that)

lemma store_init_facts:
  assumes "store_init unit_id (Some p) now_mono now_wall = Inr store"
  shows "sn_ats_mode (rs_snap store) = ''unknown''" and "sn_fault_bits (rs_snap store) = 0"
    and "sn_mode_reject_active (rs_snap store) = False"
    and "sn_transfer_count_lifetime (rs_snap store) = ps_transfer_count_lifetime p"
  using assms by (auto simp: store_init_def default_snapshot_def Let_def split: sum.splits)

lemma started_gated:
  assumes "start_service serial tcp inh document u w disk acc now_mono now_wall = Inr sy"
  shows "gated sy"
  using assms by (rule start_serviceE) (auto simp: gated_def service_start_def store_init_facts(1))

section \<open>Properties of a deployment\<close>

text \<open>
  C2: the comms-loss rule (ICD section 8.3), on whichever driver the configuration built.  Let \<open>c\<close> be the commanding
  connection, last heard at \<open>t0\<close> and silent since -- while other connections poll at will, queued commands are still
  dispatched, the loop samples, the unit and the network misbehave, ticks come and fail.  Then a tick later than
  \<open>t0\<close> + 30 s starts a release unless one has been made, and when its driver write returns, Inhibit and Force-Transfer
  are commanded off; they stay off, with the release latched, as long as the silence lasts and no late command is
  dispatched.
\<close>

theorem silence_releases_maintained:
  assumes "sy_commander sy = Some c" and "wd_last_read_monotonic (sy_watchdog sy) = t0"
    and "service_run (built_env tcp) (built_ops serial tcp) before sy sy1" and "list_all (silent_event c) before"
    and "\<not> wd_released (sy_watchdog sy1)" and "t0 + TIMEOUT_S < t"
    and "service_step (built_env tcp) (built_ops serial tcp) (Ev_Tick_Begin t) sy1 sy2"
    and "service_run (built_env tcp) (built_ops serial tcp) mid sy2 sy3" and "list_all (silent_event c) mid"
    and "service_step (built_env tcp) (built_ops serial tcp) Ev_Tick_End sy3 sy4"
    and "fst (release_call (built_drive_outputs tcp) (sy_driver sy3)) = Inr ()"
    and "service_run (built_env tcp) (built_ops serial tcp) after sy4 sy5"
    and "list_all (\<lambda>e. silent_event c e \<and> \<not> dispatches e) after"
  shows "sy_release_pending sy2 \<and> maintained_off built_commanded (sy_driver sy4) \<and>
    maintained_off built_commanded (sy_driver sy5) \<and> wd_released (sy_watchdog sy5)"
proof -
  have start: "built_service.silent_since c t0 sy"
    using assms(1,2) by (simp add: built_service.silent_since_def)
  note due = built_service.silence_is_due [OF start assms(3) [unfolded built_ops_def] assms(4-7) [unfolded built_ops_def]]
  from built_service.silence_releases [OF conjunct2 [OF due] assms(8-13) [unfolded built_ops_def]] due
  show ?thesis by (simp add: built_service.landed_def)
qed

text \<open>A service on the simulated unit with Force-Transfer asserted by connection 1.\<close>

definition forced_deployment :: "(unit, unit_sim) built_driver service" where
  "forced_deployment = \<lparr>sy_store = auto_store, sy_commander = Some 1, sy_watchdog = watchdog_init 0,
     sy_driver = Built_Adam forced_driver, sy_dispatch = [], sy_outputs_reset = True, sy_failures = 0, sy_saves = [],
     sy_sampling = At_Start, sy_release_pending = False\<rparr>"

lemma silence_releases_maintained_witness:
  "built_commanded (sy_driver (tick_finished (built_ops dead_api sim_api) (tick_started 31 forced_deployment)))
     Force_Transfer = Some False"
proof -
  let ?ops = "built_ops dead_api sim_api :: (unit, unit_sim) built_driver driver_ops"
  let ?poll = "[Ev_Request 5 2 (Some 3) (Some 0)]"
  have poll: "service_run (built_env sim_api) ?ops ?poll forced_deployment forced_deployment"
  proof (rule service_run.Step [OF _ service_run.Done])
    have "tracked (note_request note_modbus_read 5 2 (Some 3) (Some 0)) forced_deployment = forced_deployment"
      by (simp add: tracked_def note_request_def is_cmd_write_def HOLDING_WRITE_FCS_def forced_deployment_def)
    with service_step.Request [of "built_env sim_api" ?ops 5 2 "Some 3" "Some 0" forced_deployment]
    show "service_step (built_env sim_api) ?ops (Ev_Request 5 2 (Some 3) (Some 0)) forced_deployment forced_deployment"
      by simp
  qed
  have start: "sy_commander forced_deployment = Some 1" "wd_last_read_monotonic (sy_watchdog forced_deployment) = 0"
    "\<not> wd_released (sy_watchdog forced_deployment)" "\<not> sy_release_pending forced_deployment"
    "sy_driver forced_deployment = Built_Adam forced_driver"
    by (simp_all add: forced_deployment_def watchdog_init_def)
  have quiet: "list_all (silent_event 1) ?poll" by (simp add: is_cmd_write_def HOLDING_WRITE_FCS_def)
  have tick: "service_step (built_env sim_api) ?ops (Ev_Tick_Begin 31) forced_deployment (tick_started 31 forced_deployment)"
    using start(4) by (rule service_step.Tick_Begin)
  have "sy_release_pending (tick_started 31 forced_deployment)"
    using start(2,3) by (simp add: release_due_def Let_def)
  then have fin: "service_step (built_env sim_api) ?ops Ev_Tick_End (tick_started 31 forced_deployment)
      (tick_finished ?ops (tick_started 31 forced_deployment))"
    by (rule service_step.Tick_End)
  have released: "fst (release_call (built_drive_outputs sim_api) (sy_driver (tick_started 31 forced_deployment))) = Inr ()"
    using forced_driver_facts(2) start(5) by (simp add: release_call_def built_drive_outputs_def case_prod_beta)
  from silence_releases_maintained [OF start(1,2) poll quiet start(3) _ tick service_run.Done _ fin released service_run.Done]
  show ?thesis by (simp add: maintained_off_def)
qed

text \<open>
  C3: no command of any client reaches the driver before the startup reset has landed (ICD section 9.3).  Whatever
  the configuration, from the service's start and in any interleaving of requests, writes, ticks, the sampling loop's
  steps and driver events: while the reset is outstanding no intent is queued and none has been dispatched; and the step
  in which it lands leaves all four command outputs commanded off.
\<close>

theorem startup_reset_gates_commands:
  assumes "start_service serial tcp inh document u w disk acc now_mono now_wall = Inr sy0"
    and "service_run (built_env tcp) (built_ops serial tcp) es sy0 sy"
    and "\<not> sy_outputs_reset sy"
  shows "sy_dispatch sy = [] \<and> (\<forall>i. Ev_Dispatch i \<notin> set es) \<and>
    (\<forall>e sy' out. service_step (built_env tcp) (built_ops serial tcp) e sy sy' \<longrightarrow> sy_outputs_reset sy' \<longrightarrow>
      built_commanded (sy_driver sy') out = Some False)"
proof -
  from gated_run [OF assms(2) started_gated [OF assms(1)] assms(3)]
  have "sy_dispatch sy = [] \<and> (\<forall>i. Ev_Dispatch i \<notin> set es)" .
  moreover have "built_commanded (sy_driver sy') out = Some False"
    if "service_step (built_env tcp) (built_ops serial tcp) e sy sy'" "sy_outputs_reset sy'" for e sy' out
    using built_service.reset_landed [OF that(1) [unfolded built_ops_def] assms(3) that(2)] .
  ultimately show ?thesis by blast
qed

text \<open>Concretely: a default configuration (the mock driver) on a disk without a state file.\<close>

definition fresh_start :: "exc + (unit, unit_sim) built_driver service" where
  "fresh_start = start_service dead_api sim_api no_inherited (Some (Inr (YMap []))) () (sim_unit True) empty_fs Accessible 0 0"

lemma fresh_start_runs:
  obtains sy where "fresh_start = Inr sy" and "sy_driver sy = Built_Mock connected_mock" and "\<not> sy_outputs_reset sy"
    and "sn_transfer_count_lifetime (rs_snap (sy_store sy)) = 0"
proof -
  have "fresh_start = (case store_init 1 (Some zero_state) 0 0 of Inl e \<Rightarrow> Inl e
      | Inr store \<Rightarrow> Inr (service_start (built_ops dead_api sim_api) store 0 (Built_Mock connected_mock)))"
    by (simp add: fresh_start_def start_service_def load_config_def Config_def IOCfg_def SiteCfg_def
        PersistenceCfg_def int_at_def string_at_def enforce_hw_watchdog_waiver_def hardware_driver_def
        build_io_driver_def built_connect_def mock_connected state_file_load_def path_exists_def contents_def empty_fs_def)
  moreover obtain store where store: "store_init 1 (Some zero_state) 0 0 = Inr store"
    by (simp add: store_init_def fw_version_VERSION Let_def)
  ultimately show ?thesis
    using store_init_facts(4) [OF store]
    by (intro that) (auto simp: service_start_def zero_state_def set_output_fault_def)
qed

lemma startup_reset_gates_commands_witness:
  "\<exists>sy. fresh_start = Inr sy \<and> sy_dispatch (commanded_by 0x103 [1] sy) = []"
proof -
  obtain sy where sy: "fresh_start = Inr sy" "\<not> sy_outputs_reset sy" by (rule fresh_start_runs)
  have "service_run (built_env sim_api) (built_ops dead_api sim_api) [Ev_Set_Values 0x103 [1]] sy (commanded_by 0x103 [1] sy)"
    by (rule service_run.Step [OF service_step.Set_Values service_run.Done])
  from startup_reset_gates_commands [OF sy(1) [unfolded fresh_start_def] this] sy show ?thesis by auto
qed

text \<open>
  What a started service publishes before its first sampling cycle.  The output-fault bit of the fault summary says
  exactly whether the hardware fail-safe is unverified (no other fault is raised); the lifetime counter a client
  reads is the persisted one, as 32 bits; and no write of any client yields a command, since the mode is
  not yet known.
\<close>

theorem started_service_publishes:
  assumes "start_service serial tcp inh document u w disk acc now_mono now_wall = Inr sy"
  shows "read_register ADDR_FAULT_SUMMARY t wall (sy_store sy) =
      (if built_hw_watchdog_ok (sy_driver sy) then 0 else FAULT_OUTPUT) \<and>
    (\<exists>path persisted. state_file_load path acc disk = Inr persisted \<and>
      pair_u32 (read_register ADDR_TRANSFER_COUNT_LIFETIME t wall (sy_store sy))
        (read_register (ADDR_TRANSFER_COUNT_LIFETIME + 1) t wall (sy_store sy)) =
      ps_transfer_count_lifetime persisted mod 2 ^ 32) \<and>
    fst (set_values address vals (sy_store sy)) = []"
  using assms
proof (rule start_serviceE)
  fix path p store unit_id d
  assume load: "state_file_load path acc disk = Inr p"
    and init: "store_init unit_id (Some p) now_mono now_wall = Inr store"
    and sy: "sy = service_start (built_ops serial tcp) store now_mono d"
  note facts = store_init_facts [OF init]
  have driver: "sy_driver sy = d" by (simp add: sy service_start_def)
  have st: "sy_store sy = (if built_hw_watchdog_ok d then store else set_output_fault True store)"
    by (simp add: sy service_start_def built_ops_def)
  have "read_register ADDR_FAULT_SUMMARY t wall (sy_store sy) =
      (if built_hw_watchdog_ok (sy_driver sy) then 0 else FAULT_OUTPUT)"
    unfolding driver st by (simp add: read_register_def fault_summary_def set_output_fault_def facts FAULT_OUTPUT_def)
  moreover have "pair_u32 (read_register ADDR_TRANSFER_COUNT_LIFETIME t wall (sy_store sy))
      (read_register (ADDR_TRANSFER_COUNT_LIFETIME + 1) t wall (sy_store sy)) =
      ps_transfer_count_lifetime p mod 2 ^ 32"
    unfolding st using pair_u32_words by (simp add: read_register_def set_output_fault_def facts)
  moreover have "fst (set_values address vals (sy_store sy)) = []"
    unfolding set_values_def st by (rule unknown_mode_no_intent) (simp add: facts)
  ultimately show ?thesis using load by blast
qed

lemma started_service_publishes_witness:
  "\<exists>sy. fresh_start = Inr sy \<and> read_register ADDR_FAULT_SUMMARY 3 3 (sy_store sy) = 0"
proof -
  obtain sy where sy: "fresh_start = Inr sy" "sy_driver sy = Built_Mock connected_mock" by (rule fresh_start_runs)
  from started_service_publishes [OF sy(1) [unfolded fresh_start_def], of 3 3] sy show ?thesis
    by (auto simp: built_hw_watchdog_ok_def mock_hw_watchdog_ok_def)
qed

end
