(* ===== verification/Adam_Pulses.thy ===== *)
theory Adam_Pulses
  imports Adam_Correctness
begin

text \<open>
  The pulsed outputs of the ADAM driver: one pending release per output, releases that are retried until
  the write lands, stuck-relay detection of an overstaying pulse, and a defect of the release path.
\<close>

section \<open>One release task\<close>

definition task_pending :: "'w adam \<Rightarrow> nat \<Rightarrow> bool" where
  "task_pending d k \<longleftrightarrow> k < length (ad_tasks d) \<and> \<not> task_done (ad_tasks d ! k)"

text \<open>The world has moved on to \<open>w\<close> and the event loop runs task \<open>k\<close>.\<close>

definition wake :: "'w modbus_api \<Rightarrow> nat \<Rightarrow> 'w \<Rightarrow> 'w adam \<Rightarrow> 'w adam" where
  "wake api k w d = snd (adam_release_step api k (d\<lparr>lk_env := w\<rparr>))"

fun wakes :: "'w modbus_api \<Rightarrow> nat \<Rightarrow> 'w list \<Rightarrow> 'w adam \<Rightarrow> 'w adam" where
  "wakes api k [] d = d"
| "wakes api k (w # ws) d = wakes api k ws (wake api k w d)"

definition timer_expired :: "'w modbus_api \<Rightarrow> 'w \<Rightarrow> release_phase \<Rightarrow> bool" where
  "timer_expired api w p =
     (case p of Pulsing due \<Rightarrow> due \<le> api_monotonic api w | Retrying due \<Rightarrow> due \<le> api_monotonic api w | _ \<Rightarrow> True)"

lemma write_coil_tasks:
  assumes "adam_write_coil api a b d = (r, d')"
  shows "ad_tasks d' = ad_tasks d" "ad_commanded_do d' = ad_commanded_do d"
    "ad_test_release_task d' = ad_test_release_task d" "ad_bypass_release_task d' = ad_bypass_release_task d"
  using write_coil_view [of api a b d] assms by (simp_all add: task_view_def)

text \<open>What a pass of the loop leaves in the task, by the outcome of its coil write.\<close>

lemma release_attempt_eq:
  assumes "adam_write_coil api coil False d = (r, d')"
  shows "snd (release_attempt api k coil d) = d'\<lparr>ad_tasks := (ad_tasks d)[k := (ad_tasks d ! k)\<lparr>rt_phase :=
    (case r of Inr _ \<Rightarrow> Released
     | Inl e \<Rightarrow> if is_OSError e then Retrying (now api d' + 1 / 4) else Died)\<rparr>]\<rparr>"
  using assms write_coil_tasks [OF assms]
  by (cases r) (auto simp: release_attempt_def set_phase_def act_simps)

text \<open>The driver as the loop enters it: OFF is recorded first on the wake-up that ends the pulse.\<close>

definition at_release :: "'w modbus_api \<Rightarrow> nat \<Rightarrow> 'w adam \<Rightarrow> 'w adam" where
  "at_release api k d =
     (case rt_phase (ad_tasks d ! k) of
        Pulsing _ \<Rightarrow> snd (record_commanded api (rt_do_index (ad_tasks d ! k)) False d) | _ \<Rightarrow> d)"

lemma at_release_tasks [simp]: "ad_tasks (at_release api k d) = ad_tasks d"
  by (simp add: at_release_def record_commanded_def act_simps split: release_phase.split)

lemma release_step_eq:
  assumes "task_pending d k" and "timer_expired api (lk_env d) (rt_phase (ad_tasks d ! k))"
  shows "snd (adam_release_step api k d) =
    snd (release_attempt api k (rt_coil (ad_tasks d ! k)) (at_release api k d))"
  using assms
  by (cases "rt_phase (ad_tasks d ! k)")
    (auto simp: adam_release_step_def task_pending_def timer_expired_def task_done_def at_release_def
      andthen_def gets_def now_def record_commanded_def modify_def ret_def)

lemma done_step: "\<not> task_pending d k \<Longrightarrow> snd (adam_release_step api k d) = d"
  by (auto simp: adam_release_step_def task_pending_def task_done_def act_simps split: release_phase.splits)

section \<open>Releases are retried until they land\<close>

text \<open>The coil write task \<open>k\<close> makes in the world \<open>w\<close>, if it is pending and its timer has expired.\<close>

definition release_write :: "'w modbus_api \<Rightarrow> nat \<Rightarrow> 'w \<Rightarrow> 'w adam \<Rightarrow> (exc + unit) list" where
  "release_write api k w d =
     (if task_pending d k \<and> timer_expired api w (rt_phase (ad_tasks d ! k))
      then [fst (adam_write_coil api (rt_coil (ad_tasks d ! k)) False (at_release api k (d\<lparr>lk_env := w\<rparr>)))]
      else [])"

fun release_writes :: "'w modbus_api \<Rightarrow> nat \<Rightarrow> 'w list \<Rightarrow> 'w adam \<Rightarrow> (exc + unit) list" where
  "release_writes api k [] d = []"
| "release_writes api k (w # ws) d = release_write api k w d @ release_writes api k ws (wake api k w d)"

lemma pending_env [simp]: "task_pending (d\<lparr>lk_env := w\<rparr>) k = task_pending d k"
  by (simp add: task_pending_def)

lemma early_step:
  assumes "\<not> timer_expired api (lk_env d) (rt_phase (ad_tasks d ! k))"
  shows "snd (adam_release_step api k d) = d"
  using assms
  by (auto simp: adam_release_step_def timer_expired_def act_simps now_def split: release_phase.splits)

lemma wake_phase:
  assumes "task_pending d k"
  shows "release_write api k w d = [] \<Longrightarrow> task_pending (wake api k w d) k"
    and "release_write api k w d = [Inl e] \<Longrightarrow> is_OSError e \<Longrightarrow> task_pending (wake api k w d) k"
    and "release_write api k w d = [Inl e] \<Longrightarrow> \<not> is_OSError e \<Longrightarrow> rt_phase (ad_tasks (wake api k w d) ! k) = Died"
    and "release_write api k w d = [Inr ()] \<Longrightarrow> rt_phase (ad_tasks (wake api k w d) ! k) = Released"
proof -
  let ?d = "at_release api k (d\<lparr>lk_env := w\<rparr>)"
  let ?coil = "rt_coil (ad_tasks d ! k)"
  let ?expired = "timer_expired api w (rt_phase (ad_tasks d ! k))"
  obtain r d' where wr: "adam_write_coil api ?coil False ?d = (r, d')" by fastforce
  have k: "k < length (ad_tasks d)" using assms by (simp add: task_pending_def)
  have rw: "release_write api k w d = (if ?expired then [r] else [])"
    using assms wr by (simp add: release_write_def)
  have early: "wake api k w d = d\<lparr>lk_env := w\<rparr>" if "\<not> ?expired"
    unfolding wake_def by (rule early_step) (use that in simp)
  have eq: "wake api k w d = snd (release_attempt api k ?coil ?d)" if ?expired
    unfolding wake_def using release_step_eq [of "d\<lparr>lk_env := w\<rparr>" k api] assms that by simp
  note tasks = release_attempt_eq [OF wr, of k]
  show "task_pending (wake api k w d) k" if "release_write api k w d = []"
    using that rw early assms by (cases ?expired) simp_all
  show "task_pending (wake api k w d) k" if "release_write api k w d = [Inl e]" and "is_OSError e"
  proof -
    from that rw have ?expired "r = Inl e" by (auto split: if_splits)
    then show ?thesis using k that(2) by (simp add: eq tasks task_pending_def task_done_def)
  qed
  show "rt_phase (ad_tasks (wake api k w d) ! k) = Died" if "release_write api k w d = [Inl e]" and "\<not> is_OSError e"
  proof -
    from that rw have ?expired "r = Inl e" by (auto split: if_splits)
    then show ?thesis using k that(2) by (simp add: eq tasks)
  qed
  show "rt_phase (ad_tasks (wake api k w d) ! k) = Released" if "release_write api k w d = [Inr ()]"
  proof -
    from that rw have ?expired "r = Inr ()" by (auto split: if_splits)
    then show ?thesis using k by (simp add: eq tasks)
  qed
qed

lemma release_write_cases:
  obtains "release_write api k w d = []" | r where "release_write api k w d = [r]"
proof -
  have "release_write api k w d = [] \<or> (\<exists>r. release_write api k w d = [r])"
    by (simp add: release_write_def)
  with that show ?thesis by blast
qed

lemma finished_task_stays:
  "\<not> task_pending d k \<Longrightarrow>
     ad_tasks (wakes api k ws d) ! k = ad_tasks d ! k \<and> release_writes api k ws d = []"
proof (induction ws arbitrary: d)
  case (Cons w ws)
  then have "wake api k w d = d\<lparr>lk_env := w\<rparr>"
    unfolding wake_def by (intro done_step) simp
  with Cons show ?case by (simp add: release_write_def)
qed simp

lemma ended_phase [simp]:
  "rt_phase (ad_tasks d ! k) = Released \<Longrightarrow> \<not> task_pending d k"
  "rt_phase (ad_tasks d ! k) = Died \<Longrightarrow> \<not> task_pending d k"
  by (simp_all add: task_pending_def task_done_def)

text \<open>
  C11: a pulse's release is retried until an OFF write decides it.  Let the release task of a pulse be woken at any sequence of
  moments, and consider the OFF writes it makes.  As long as they fail with \<open>OSError\<close>s (an unreachable or erroring unit) it
  stays pending, however many there are; the first that does not is its last: if the unit accepted it the output is
  released, and if it raised anything else the task is dead.
\<close>

theorem pulse_release_retried_until_written:
  assumes "task_pending d k"
  shows "case dropWhile (\<lambda>r. \<exists>e. r = Inl e \<and> is_OSError e) (release_writes api k ws d) of
      [] \<Rightarrow> task_pending (wakes api k ws d) k
    | r # rest \<Rightarrow> rest = [] \<and> rt_phase (ad_tasks (wakes api k ws d) ! k) = (if r = Inr () then Released else Died)"
  using assms
proof (induction ws arbitrary: d)
  case Nil
  then show ?case by simp
next
  case (Cons w ws)
  let ?d = "wake api k w d"
  note step = wake_phase [OF Cons.prems, of api w]
  show ?case
  proof (cases rule: release_write_cases [of api k w d])
    case 1
    with Cons.IH [OF step(1)] show ?thesis by (simp cong: list.case_cong)
  next
    case (2 r)
    show ?thesis
    proof (cases "\<exists>e. r = Inl e \<and> is_OSError e")
      case True
      with 2 step(2) Cons.IH [of ?d] show ?thesis by (auto cong: list.case_cong)
    next
      case False
      then have ended: "rt_phase (ad_tasks ?d ! k) = (if r = Inr () then Released else Died)"
        using 2 step(3,4) by (cases r) auto
      then have "\<not> task_pending ?d k" by (simp split: if_splits)
      from finished_task_stays [OF this, of api ws] 2 False ended show ?thesis by auto
    qed
  qed
qed

text \<open>A pulse of Test on the simulated unit, then an outage over the end of its window.\<close>

definition sim_armed :: "unit_sim adam" where
  "sim_armed = snd (adam_connect sim_api (sim_driver True))"

definition sim_pulsing :: "unit_sim adam" where
  "sim_pulsing = snd (adam_drive_outputs sim_api (Some 700) None None None sim_armed)"

definition sim_at :: "real \<Rightarrow> bool \<Rightarrow> unit_sim" where
  "sim_at t fails = (sim_unit True)\<lparr>us_alive := True, us_writes_fail := fails, us_coils := [(16, True)], us_clock := t\<rparr>"

lemma sim_pulsing_eq:
  "sim_pulsing = sim_armed
     \<lparr>lk_env := sim_at 0 False, ad_test_release_task := Some 0, ad_commanded_do := [(0, True, 0)],
      ad_tasks := [\<lparr>rt_coil = 16, rt_do_index = 0, rt_phase = Pulsing (7 / 10)\<rparr>]\<rparr>"
  unfolding sim_pulsing_def sim_armed_def sim_connect
  by (simp add: sim_eval adam_pulse_def pulse_guard_def pulse_commit_def release_slot_def slot_pending_def
      schedule_release_def set_release_slot_def pulse_ms_def sim_at_def)

lemmas sim_pulse_eval = sim_pulsing_eq sim_armed_def sim_connect sim_eval sim_at_def wake_def
  adam_release_step_def release_attempt_def set_phase_def

lemma pulse_release_retried_until_written_witness:
  "rt_phase (ad_tasks (wakes sim_api 0 [sim_at 1 True, sim_at (11 / 10) True, sim_at 2 False] sim_pulsing) ! 0) = Released"
proof -
  let ?ws = "[sim_at 1 True, sim_at (11 / 10) True, sim_at 2 False]"
  have "release_writes sim_api 0 ?ws sim_pulsing = [Inl OSError, Inr ()]"
    by (simp add: sim_pulse_eval release_write_def task_pending_def task_done_def timer_expired_def
        at_release_def)
  moreover have "task_pending sim_pulsing 0"
    by (simp add: sim_pulsing_eq task_pending_def task_done_def)
  ultimately show ?thesis
    using pulse_release_retried_until_written [of sim_pulsing 0 sim_api ?ws] by simp
qed

section \<open>An overstaying pulse is a stuck relay\<close>

text \<open>
  A pulse that outlives its window is reported.  From the wake-up that ends the window, and
  whatever becomes of the release write, the driver's record says OFF: half a second later a read-back that
  still shows the output on is inconsistent, so the sampling loop publishes the output fault.
\<close>

theorem overstaying_pulse_flagged:
  assumes "k < length (ad_tasks d)" and "rt_phase (ad_tasks d ! k) = Pulsing due" and "due \<le> now api d"
    and "actual_for_do actual (rt_do_index (ad_tasks d ! k)) = Some True"
    and "now api d + OUTPUT_SETTLING_S \<le> api_monotonic api w"
  shows "\<not> adam_check_output_consistency api actual ((snd (adam_release_step api k d))\<lparr>lk_env := w\<rparr>)"
proof -
  let ?i = "rt_do_index (ad_tasks d ! k)" and ?coil = "rt_coil (ad_tasks d ! k)"
  let ?d = "at_release api k d"
  obtain r d' where wr: "adam_write_coil api ?coil False ?d = (r, d')" by fastforce
  have "snd (adam_release_step api k d) = snd (release_attempt api k ?coil ?d)"
    by (rule release_step_eq) (use assms(1-3) in \<open>simp_all add: task_pending_def task_done_def timer_expired_def now_def\<close>)
  then have "ad_commanded_do (snd (adam_release_step api k d)) = ad_commanded_do ?d"
    using release_attempt_eq [OF wr, of k] write_coil_tasks(2) [OF wr] by simp
  moreover have "ad_commanded_do ?d = AList.update ?i (False, now api d) (ad_commanded_do d)"
    using assms(2) by (simp add: at_release_def record_commanded_def act_simps)
  moreover have "(?i, False, now api d) \<in> set (AList.update ?i (False, now api d) (ad_commanded_do d))"
    by (metis fun_upd_same map_of_SomeD update_conv')
  ultimately show ?thesis using assms(4,5)
    by (fastforce simp: adam_check_output_consistency_def list_all_iff now_def)
qed

lemma overstaying_pulse_flagged_witness:
  "\<not> adam_check_output_consistency sim_api \<lparr>out_test_active = True, out_inhibit_active = False,
      out_force_transfer_active = False, out_bypass_delay_active = False\<rparr>
    ((snd (adam_release_step sim_api 0 (sim_pulsing\<lparr>lk_env := sim_at 1 True\<rparr>)))\<lparr>lk_env := sim_at 2 True\<rparr>)"
  by (rule overstaying_pulse_flagged [where due = "7 / 10"])
    (simp_all add: sim_pulsing_eq now_def sim_at_def sim_unit_def sim_api_def actual_for_do_def)

section \<open>One pending release per output\<close>

text \<open>Every pending release is the one its output's slot names.\<close>

definition slots_cover :: "'w adam \<Rightarrow> bool" where
  "slots_cover d \<longleftrightarrow> (\<forall>k. task_pending d k \<longrightarrow>
     rt_do_index (ad_tasks d ! k) \<in> {DO_TEST, DO_BYPASS_DELAY} \<and>
     release_slot (rt_do_index (ad_tasks d ! k)) d = Some k)"

lemma slots_cover_view: "task_view d = task_view d' \<Longrightarrow> slots_cover d \<longleftrightarrow> slots_cover d'"
  by (simp add: task_view_def slots_cover_def task_pending_def release_slot_def)

lemma slots_cover_updates [simp]:
  "slots_cover (d\<lparr>ad_commanded_do := cs\<rparr>) = slots_cover d"
  "slots_cover (d\<lparr>ad_debounce := db\<rparr>) = slots_cover d"
  "slots_cover (d\<lparr>ad_load_disconnect_seen_mono := t\<rparr>) = slots_cover d"
  by (simp_all add: slots_cover_def task_pending_def release_slot_def)

lemma keeps_slots_view:
  fixes m :: "('w adam, 'a) act"
  assumes "\<And>v. keeps (\<lambda>d. task_view d = v) m"
  shows "keeps slots_cover m"
proof (rule keepsI)
  fix s :: "'w adam" assume "slots_cover s"
  moreover have "task_view (snd (m s)) = task_view s" using keepsD [OF assms refl] .
  ultimately show "slots_cover (snd (m s))" using slots_cover_view by blast
qed

lemma slots_cover_fewer:
  assumes "slots_cover d"
    and "length ts = length (ad_tasks d)"
    and "\<And>k. k < length ts \<Longrightarrow> rt_do_index (ts ! k) = rt_do_index (ad_tasks d ! k)"
    and "\<And>k. k < length ts \<Longrightarrow> task_done (ad_tasks d ! k) \<Longrightarrow> task_done (ts ! k)"
  shows "slots_cover (d\<lparr>ad_tasks := ts\<rparr>)"
  using assms unfolding slots_cover_def task_pending_def release_slot_def by fastforce

lemma cancel_task_props:
  "length (cancel_task slot ts) = length ts"
  "k < length ts \<Longrightarrow> rt_do_index (cancel_task slot ts ! k) = rt_do_index (ts ! k)"
  "k < length ts \<Longrightarrow> task_done (ts ! k) \<Longrightarrow> task_done (cancel_task slot ts ! k)"
  "slot = Some k \<Longrightarrow> k < length ts \<Longrightarrow> task_done (cancel_task slot ts ! k)"
  by (auto simp: cancel_task_def nth_list_update task_done_def split: option.split)

lemma cancel_clears:
  assumes "slots_cover d" and "cancel_release_tasks d = (r, d')"
  shows "\<not> task_pending d' k"
proof
  assume pend: "task_pending d' k"
  let ?t1 = "cancel_task (ad_test_release_task d) (ad_tasks d)"
  have d': "d' = d\<lparr>ad_tasks := cancel_task (ad_bypass_release_task d) ?t1\<rparr>"
    using assms(2) by (simp add: cancel_release_tasks_def modify_def)
  with pend have k: "k < length (ad_tasks d)" and undone: "\<not> task_done (cancel_task (ad_bypass_release_task d) ?t1 ! k)"
    by (simp_all add: task_pending_def cancel_task_props(1))
  then have "\<not> task_done (?t1 ! k)" using cancel_task_props(1,3) by metis
  with k have "task_pending d k" using cancel_task_props(3) unfolding task_pending_def by metis
  with assms(1) have "ad_test_release_task d = Some k \<or> ad_bypass_release_task d = Some k"
    by (auto simp: slots_cover_def release_slot_def split: if_splits)
  then show False
    using undone \<open>\<not> task_done (?t1 ! k)\<close> k cancel_task_props(1,4) by metis
qed

lemma slots_cover_cancel: "keeps slots_cover cancel_release_tasks"
  by (rule keepsI)
    (auto simp: cancel_release_tasks_def modify_def cancel_task_props intro!: slots_cover_fewer)

lemma slots_cover_schedule:
  assumes "slots_cover d" and "\<not> slot_pending (release_slot i d) (ad_tasks d)"
    and "i \<in> {DO_TEST, DO_BYPASS_DELAY}"
  shows "slots_cover (snd (schedule_release api i ms d))"
proof -
  let ?n = "length (ad_tasks d)"
  have other: "rt_do_index (ad_tasks d ! k) \<noteq> i" if "task_pending d k" for k
    using assms(1,2) that by (auto simp: slots_cover_def slot_pending_def task_pending_def)
  show ?thesis
    unfolding slots_cover_def
  proof (intro allI impI)
    fix k assume pend: "task_pending (snd (schedule_release api i ms d)) k"
    show "rt_do_index (ad_tasks (snd (schedule_release api i ms d)) ! k) \<in> {DO_TEST, DO_BYPASS_DELAY} \<and>
        release_slot (rt_do_index (ad_tasks (snd (schedule_release api i ms d)) ! k))
          (snd (schedule_release api i ms d)) = Some k"
    proof (cases "k = ?n")
      case True
      with assms(3) show ?thesis
        by (auto simp: schedule_release_def modify_def set_release_slot_def release_slot_def)
    next
      case False
      with pend have "task_pending d k"
        by (auto simp: schedule_release_def modify_def set_release_slot_def task_pending_def nth_append split: if_splits)
      with assms(1,3) False other [OF this] show ?thesis
        by (auto simp: schedule_release_def modify_def set_release_slot_def release_slot_def
            slots_cover_def task_pending_def nth_append split: if_splits)
    qed
  qed
qed

lemma slots_cover_pulsed:
  fixes api :: "'w modbus_api"
  assumes i: "i \<in> {DO_TEST, DO_BYPASS_DELAY}"
  shows "keeps slots_cover (adam_pulsed api i ms)"
proof -
  have "keeps slots_cover (adam_pulse api i m)" for m
  proof (rule keepsI)
    fix d :: "'w adam" assume inv: "slots_cover d"
    show "slots_cover (snd (adam_pulse api i m d))"
    proof (cases "slot_pending (release_slot i d) (ad_tasks d)")
      case True
      with inv show ?thesis by (simp add: adam_pulse_def pulse_guard_def act_simps)
    next
      case False
      then have go: "adam_pulse api i m d = pulse_commit api i m d"
        by (simp add: adam_pulse_def pulse_guard_def act_simps)
      obtain r d1 where wr: "adam_write_coil api (DO_COIL_BASE + int i) True d = (r, d1)" by fastforce
      have view: "task_view d1 = task_view d"
        using write_coil_view [of api "DO_COIL_BASE + int i" True d] wr by simp
      then have d1: "slots_cover d1" "\<not> slot_pending (release_slot i d1) (ad_tasks d1)"
        using inv False slots_cover_view [OF view] view
        by (auto simp: task_view_def release_slot_def split: if_splits)
      let ?d2 = "snd (record_commanded api i True d1)"
      have "slots_cover ?d2" "\<not> slot_pending (release_slot i ?d2) (ad_tasks ?d2)"
        using d1 by (cases "i = 0"; simp add: record_commanded_def modify_def release_slot_def)+
      then have "slots_cover (snd (schedule_release api i (pulse_ms m) ?d2))"
        by (rule slots_cover_schedule [OF _ _ i])
      then show ?thesis
        using wr d1(1) by (cases r) (simp_all add: go pulse_commit_def andthen_def record_commanded_def modify_def)
    qed
  qed
  then show ?thesis unfolding adam_pulsed_def by (intro hoare)
qed

lemma slots_cover_record: "keeps slots_cover (record_commanded api i b)"
  unfolding record_commanded_def by (rule keeps_modify) simp

lemma slots_cover_step:
  fixes api :: "'w modbus_api"
  assumes "slots_cover d"
  shows "slots_cover (adam_op_step api op d)"
proof -
  note link = keeps_slots_view [OF keeps_view(1)] keeps_slots_view [OF keeps_view(4)]
    keeps_slots_view [OF keeps_view(5)] keeps_slots_view [OF keeps_view_write] keeps_slots_view [OF keeps_view(7)]
    slots_cover_record slots_cover_cancel
  have maintained: "keeps slots_cover (adam_maintained api i b)" for i b
    unfolding adam_maintained_def by (intro hoare link)
  have release: "keeps slots_cover (release_output api i)" for i
    unfolding release_output_def by (intro hoare link)
  have step: "keeps slots_cover (adam_release_step api k)" for k
  proof (rule keepsI)
    fix d :: "'w adam" assume inv: "slots_cover d"
    show "slots_cover (snd (adam_release_step api k d))"
    proof (cases "task_pending d k \<and> timer_expired api (lk_env d) (rt_phase (ad_tasks d ! k))")
      case False
      then have "snd (adam_release_step api k d) = d" using done_step early_step by blast
      with inv show ?thesis by simp
    next
      case True
      let ?d = "at_release api k d" and ?coil = "rt_coil (ad_tasks d ! k)"
      obtain r d' where wr: "adam_write_coil api ?coil False ?d = (r, d')" by fastforce
      have "slots_cover ?d"
        using inv by (auto simp: at_release_def record_commanded_def modify_def split: release_phase.split)
      moreover have "task_view d' = task_view ?d" using write_coil_view [of api ?coil False ?d] wr by simp
      ultimately have inv': "slots_cover d'" using slots_cover_view by blast
      have tasks: "ad_tasks d' = ad_tasks d" using write_coil_tasks(1) [OF wr] by simp
      show ?thesis
        using True release_step_eq [of d k api] release_attempt_eq [OF wr, of k] tasks
        by (auto intro!: slots_cover_fewer [OF inv'] simp: nth_list_update task_pending_def)
    qed
  qed
  have ops: "keeps slots_cover (adam_close api)" "keeps slots_cover (adam_read_inputs api)"
    "keeps slots_cover (adam_read_output_state api)" "keeps slots_cover (adam_release_all_outputs api)"
    unfolding adam_close_def adam_read_inputs_def adam_inputs_from_def adam_latch_inputs_def adam_read_output_state_def adam_outputs_from_def
      adam_release_all_outputs_def
    by (intro hoare link release; simp)+
  have drive: "keeps slots_cover (adam_drive_outputs api t i f b)" for t i f b
    unfolding adam_drive_outputs_def by (intro hoare maintained slots_cover_pulsed) simp_all
  show ?thesis
    using assms by (cases op) (auto intro: keepsD [OF link(1)] keepsD [OF ops(1)] keepsD [OF ops(2)]
        keepsD [OF ops(3)] keepsD [OF ops(4)] keepsD [OF drive] keepsD [OF step])
qed

lemma tasks_after_cancel:
  assumes "slots_cover d"
  shows "\<not> task_pending (snd (adam_release_all_outputs api d)) k" "\<not> task_pending (snd (adam_close api d)) k"
proof -
  obtain d1 where cancel: "cancel_release_tasks d = (Inr (), d1)"
    by (simp add: cancel_release_tasks_def modify_def)
  note clear = cancel_clears [OF assms cancel]
  have "keeps (\<lambda>d. \<not> task_pending d k) (adam_write_coil api a b)" for a b
    by (rule keepsI) (use write_coil_view in \<open>metis (no_types, lifting) task_pending_def task_view_def prod.inject\<close>)
  then have "keeps (\<lambda>d. \<not> task_pending d k) (release_output api i)" for i
    unfolding release_output_def record_commanded_def by (intro hoare) (auto simp: task_pending_def)
  then have "keeps (\<lambda>d. \<not> task_pending d k) (andthen (release_output api DO_TEST) (\<lambda>_.
     andthen (release_output api DO_FORCE_TRANSFER) (\<lambda>_.
     andthen (release_output api DO_INHIBIT) (\<lambda>_. release_output api DO_BYPASS_DELAY))))"
    by (intro hoare)
  from keepsD [OF this clear] show "\<not> task_pending (snd (adam_release_all_outputs api d)) k"
    using cancel by (simp add: adam_release_all_outputs_def andthen_def)
  have "keeps (\<lambda>d. \<not> task_pending d k) (close_link api)"
    by (intro keeps_close_link) (simp_all add: task_pending_def)
  from keepsD [OF this clear] show "\<not> task_pending (snd (adam_close api d)) k"
    using cancel by (simp add: adam_close_def andthen_def)
qed

text \<open>
  Pulses do not stack, and releasing everything leaves nothing behind.  After any run of a freshly built
  driver (its calls not interleaved with one another) each pulsed output has at most one pending
  release, and \<open>release_all_outputs\<close> and \<open>close\<close> leave no pending release at all, even where their
  Modbus traffic fails: no half-finished pulse runs on behind them.
\<close>

theorem pulses_never_stack:
  assumes "adam_init slave debounce mode di_read required config w = Inr d0"
  shows "(task_pending (adam_run api ops d0) j \<and> task_pending (adam_run api ops d0) k \<and>
      rt_do_index (ad_tasks (adam_run api ops d0) ! j) = rt_do_index (ad_tasks (adam_run api ops d0) ! k) \<longrightarrow>
      j = k) \<and>
    \<not> task_pending (adam_op_step api Op_Release_All (adam_run api ops d0)) k \<and>
    \<not> task_pending (adam_op_step api Op_Close (adam_run api ops d0)) k"
proof -
  have "slots_cover d0"
    using assms by (auto simp: adam_init_def slots_cover_def task_pending_def split: if_splits)
  with slots_cover_step have inv: "slots_cover (adam_run api ops d0)" by (rule adam_run_invariant)
  let ?d = "adam_run api ops d0"
  have slot: "release_slot (rt_do_index (ad_tasks ?d ! m)) ?d = Some m" if "task_pending ?d m" for m
    using inv that by (simp add: slots_cover_def)
  have "j = k" if "task_pending ?d j" "task_pending ?d k" "rt_do_index (ad_tasks ?d ! j) = rt_do_index (ad_tasks ?d ! k)"
    using slot [OF that(1)] slot [OF that(2)] unfolding that(3) by (metis option.inject)
  moreover have "\<not> task_pending (adam_op_step api Op_Release_All ?d) k"
      "\<not> task_pending (adam_op_step api Op_Close ?d) k"
    unfolding adam_op_step.simps by (rule tasks_after_cancel [OF inv])+
  ultimately show ?thesis by (intro conjI impI) simp_all
qed

lemma pulses_never_stack_witness:
  "\<not> task_pending (adam_op_step sim_api Op_Release_All
      (adam_run sim_api [Op_Connect, Op_Drive (Some 700) None None (Some 500)] (sim_driver True))) 0"
proof -
  have "adam_init 1 3 ''auto'' ''coils'' True (Some sim_config) (sim_unit True) = Inr (sim_driver True)"
    by (simp add: adam_init_def sim_driver_eq VALID_ASSUMED_MODES_def DI_READ_FN_def)
  from pulses_never_stack [OF this] show ?thesis by blast
qed

section \<open>A stranded pulse\<close>

text \<open>
  C40: a pulse can be stranded.  The retry loop catches \<open>OSError\<close> only, but its write may reconnect, and the self-check the
  reconnect runs indexes into the unit's reply.  So let a pulse's release be due when the link turns out to be down, let the
  reconnect succeed, and let the unit answer the self-check's first read with no register (the check required and
  configured).  Then the release task is dead: the unit has been asked for that register and nothing else -- no OFF has been
  written --, and whatever happens later the task writes none.
\<close>

theorem stranded_pulse:
  assumes "task_pending d k" and "timer_expired api w (rt_phase (ad_tasks d ! k))"
    and "lk_client d" and "\<not> api_connected api w"
    and "lk_connected d" and "api_connect api w = (Inr True, w1)"
    and "ad_require_hw_watchdog d" and "ad_hw_watchdog d = Some cfg"
    and "enable_register cfg = Some e" and "timeout_register cfg \<noteq> None" and "safety_value_register_base cfg \<noteq> None"
    and "api_read_holding api e 1 (ad_unit_id d) w1 = (Inr (Response []), w2)"
  shows "lk_env (wake api k w d) = w2 \<and> rt_phase (ad_tasks (wake api k w d) ! k) = Died \<and>
    release_writes api k ws (wake api k w d) = [] \<and> rt_phase (ad_tasks (wakes api k ws (wake api k w d)) ! k) = Died"
proof -
  let ?d = "at_release api k (d\<lparr>lk_env := w\<rparr>)" and ?coil = "rt_coil (ad_tasks d ! k)"
  have view: "lk_env ?d = w" "lk_client ?d" "lk_connected ?d" "ad_require_hw_watchdog ?d" "ad_hw_watchdog ?d = Some cfg"
    "ad_unit_id ?d = ad_unit_id d"
    using assms by (simp_all add: at_release_def record_commanded_def act_simps split: release_phase.split)
  obtain t b where cfg: "timeout_register cfg = Some t" "safety_value_register_base cfg = Some b"
    using assms(10,11) by blast
  have wr: "adam_write_coil api ?coil False ?d = (Inl IndexError, ?d\<lparr>lk_env := w2, lk_connected := True\<rparr>)"
    using assms(4,6,9,12) view cfg
    by (simp add: adam_write_coil_def adam_ensure_connected_def ensure_connected_def adam_connect_def open_link_def
        adam_verify_hw_watchdog_def adam_hw_readback_def adam_read_holding_register_def adam_read_holding_registers_def
        checked_response_def call_def py_take_def py_index_def act_simps)
  have "wake api k w d = snd (release_attempt api k ?coil ?d)"
    unfolding wake_def using release_step_eq [of "d\<lparr>lk_env := w\<rparr>" k api] assms(1,2) by simp
  with release_attempt_eq [OF wr, of k] assms(1)
  have "lk_env (wake api k w d) = w2" "rt_phase (ad_tasks (wake api k w d) ! k) = Died"
    by (simp_all add: task_pending_def)
  with finished_task_stays [of "wake api k w d" k api ws] show ?thesis by simp
qed

text \<open>A unit that has been power-cycled and answers with no register: the Test relay is still on.\<close>

lemma stranded_pulse_witness:
  "us_coils (lk_env (wake sim_api 0 ((sim_at 1 False)\<lparr>us_alive := False, us_mute := True\<rparr>) sim_pulsing)) =
     [(DO_COIL_BASE + int DO_TEST, True)]"
proof -
  let ?w = "(sim_at 1 False)\<lparr>us_alive := False, us_mute := True\<rparr>" and ?w1 = "(sim_at 1 False)\<lparr>us_mute := True\<rparr>"
  have "task_pending sim_pulsing 0" "timer_expired sim_api ?w (rt_phase (ad_tasks sim_pulsing ! 0))"
    by (simp_all add: sim_pulsing_eq task_pending_def task_done_def timer_expired_def sim_api_def sim_at_def)
  moreover have "lk_client sim_pulsing" "lk_connected sim_pulsing" "ad_require_hw_watchdog sim_pulsing"
    "ad_hw_watchdog sim_pulsing = Some sim_config" "ad_unit_id sim_pulsing = 1"
    unfolding sim_pulsing_eq sim_armed_def sim_connect by (simp_all add: sim_driver_eq)
  moreover have "api_connect sim_api ?w = (Inr True, ?w1)" "\<not> api_connected sim_api ?w"
    "api_read_holding sim_api 0 1 1 ?w1 = (Inr (Response []), ?w1)"
    by (simp_all add: sim_api_def sim_registers_def sim_at_def)
  ultimately have "lk_env (wake sim_api 0 ?w sim_pulsing) = ?w1"
    using stranded_pulse [of sim_pulsing 0 sim_api ?w ?w1 sim_config 0 ?w1]
    by (simp add: sim_config_def default_hw_watchdog_config_def)
  then show ?thesis by (simp add: sim_at_def)
qed

end
