(* ===== verification/Store_Durability.thy ===== *)
theory Store_Durability
  imports Store_Correctness
begin

text \<open>
  Durability of the lifetime counter: the register store as a client of \<open>StateFile\<close>.  The store's
  save requests are performed on a storage that satisfies the \<open>state_storage\<close> contract; a run
  interleaves sampling cycles with the thread pool completing queued saves.  What holds on a reliable
  disk, and the two ways the published count gets ahead of the file.
\<close>

section \<open>Runs of samples and executor saves\<close>

datatype persist_event = P_Sample int InputSnapshot | P_Executor nat

fun persist_step :: "(PersistedState \<Rightarrow> ('f, unit) act) \<Rightarrow> persist_event \<Rightarrow>
    RegisterStore \<times> PersistedState list \<times> 'f \<Rightarrow> RegisterStore \<times> PersistedState list \<times> 'f" where
  "persist_step save (P_Sample t i) (s, qf) =
     (case apply_input_snapshot True t i s of (s', a) \<Rightarrow> (s', perform_persist save a qf))"
| "persist_step save (P_Executor k) (s, qf) = (s, executor_run save k qf)"

lemma persist_sample:
  "persist_step save (P_Sample t i) (s, qf) = (fst (apply_input_snapshot True t i s),
     perform_persist save (snd (apply_input_snapshot True t i s)) qf)"
  by (simp split: prod.split)

declare persist_step.simps(1) [simp del]
declare persist_sample [simp]

text \<open>The runs in which no save is pending when a transfer is sampled.\<close>

fun drained_run :: "(PersistedState \<Rightarrow> ('f, unit) act) \<Rightarrow> persist_event list \<Rightarrow>
    RegisterStore \<times> PersistedState list \<times> 'f \<Rightarrow> bool" where
  "drained_run save [] _ \<longleftrightarrow> True"
| "drained_run save (e # es) sqf \<longleftrightarrow>
     (case e of P_Sample t i \<Rightarrow>
        transferred_to_gen (sn_position (rs_snap (fst sqf))) (in_position i) \<longrightarrow> fst (snd sqf) = []
      | P_Executor _ \<Rightarrow> True) \<and>
     drained_run save es (persist_step save e sqf)"

lemma snd_apply_input:
  "snd (apply_input_snapshot rl t i s) =
     (if rs_state_file s \<and> transferred_to_gen (sn_position (rs_snap s)) (in_position i)
      then Save_Now (persisted_of (fst (apply_input_snapshot rl t i s)))
      else if rs_state_file s \<and> retransferred_to_util (sn_position (rs_snap s)) (in_position i)
      then persist_async_safe rl (fst (apply_input_snapshot rl t i s))
      else No_Save)"
  by (auto simp: apply_input_snapshot_def Let_def persist_sync_def)

lemma persisted_of_lifetime [simp]:
  "ps_transfer_count_lifetime (persisted_of s) = sn_transfer_count_lifetime (rs_snap s)"
  by (simp add: persisted_of_def)

section \<open>Over the storage contract\<close>

locale reliable_storage = state_storage +
  assumes save_returns: "ok f \<Longrightarrow> fst (save p f) = Inr ()"
begin

lemma save_blocking_stores:
  assumes "ok f"
  shows "load (save_blocking save p f) = Inr p" and "ok (save_blocking save p f)"
proof -
  from save_returns [OF assms] have r: "save p f = (Inr (), snd (save p f))"
    by (metis prod.collapse)
  then have "save_blocking save p f = snd (save p f)"
    by (simp add: save_blocking_def catching_def split: prod.split sum.split)
      (metis fst_conv sum.distinct(1))
  with save_load [OF assms r] ok_save [OF assms]
  show "load (save_blocking save p f) = Inr p" "ok (save_blocking save p f)" by simp_all
qed

text \<open>The file and every pending save agree with the published lifetime count.\<close>

definition in_step :: "RegisterStore \<times> PersistedState list \<times> 'a \<Rightarrow> bool" where
  "in_step sqf = (case sqf of (s, q, f) \<Rightarrow> ok f \<and> rs_state_file s \<and>
     (\<exists>p. load f = Inr p \<and> ps_transfer_count_lifetime p = sn_transfer_count_lifetime (rs_snap s)) \<and>
     (\<forall>p \<in> set q. ps_transfer_count_lifetime p = sn_transfer_count_lifetime (rs_snap s)))"

lemma in_step_sample:
  assumes inv: "in_step (s, q, f)"
    and drained: "transferred_to_gen (sn_position (rs_snap s)) (in_position i) \<Longrightarrow> q = []"
  shows "in_step (persist_step save (P_Sample t i) (s, q, f))"
proof -
  define s' where "s' = fst (apply_input_snapshot True t i s)"
  have step: "persist_step save (P_Sample t i) (s, q, f) =
      (s', perform_persist save (snd (apply_input_snapshot True t i s)) (q, f))"
    by (simp add: s'_def)
  have life: "sn_transfer_count_lifetime (rs_snap s') = sn_transfer_count_lifetime (rs_snap s) +
      of_bool (transferred_to_gen (sn_position (rs_snap s)) (in_position i))"
    and sf: "rs_state_file s' = rs_state_file s" by (simp_all add: s'_def)
  from inv have f: "ok f" "rs_state_file s" by (simp_all add: in_step_def)
  show ?thesis
  proof (cases "transferred_to_gen (sn_position (rs_snap s)) (in_position i)")
    case True
    with f drained have "persist_step save (P_Sample t i) (s, q, f) = (s', [], save_blocking save (persisted_of s') f)"
      unfolding step by (simp add: snd_apply_input s'_def)
    with f sf save_blocking_stores [OF f(1), of "persisted_of s'"] show ?thesis by (simp add: in_step_def)
  next
    case False
    with inv f life sf show ?thesis
      unfolding step by (auto simp: snd_apply_input persist_async_safe_def in_step_def s'_def [symmetric])
  qed
qed

lemma in_step_executor:
  assumes "in_step (s, q, f)"
  shows "in_step (persist_step save (P_Executor k) (s, q, f))"
proof (cases "k < length q")
  case True
  with assms have "ok f" "ps_transfer_count_lifetime (q ! k) = sn_transfer_count_lifetime (rs_snap s)"
    by (auto simp: in_step_def)
  with save_blocking_stores [of f "q ! k"] True assms show ?thesis
    by (auto simp: in_step_def executor_run_def dest: in_set_takeD in_set_dropD)
next
  case False
  with assms show ?thesis by (simp add: executor_run_def)
qed

lemma in_step_run: "in_step sqf \<Longrightarrow> drained_run save es sqf \<Longrightarrow> in_step (fold (persist_step save) es sqf)"
proof (induction es arbitrary: sqf)
  case Nil
  then show ?case by simp
next
  case (Cons e es)
  obtain s q f where sqf: "sqf = (s, q, f)" by (cases sqf) auto
  have "in_step (persist_step save e sqf)"
    using Cons.prems in_step_sample in_step_executor by (cases e) (auto simp: sqf)
  with Cons show ?case by simp
qed

end

section \<open>The state file provides it\<close>

definition ok_disk :: "string \<Rightarrow> save_env \<Rightarrow> bool" where
  "ok_disk target s \<longleftrightarrow> ok_env target s \<and> sv_fails s = (\<lambda>_. False)"

lemma save_returns_no_failure:
  "sv_fails s = (\<lambda>_. False) \<Longrightarrow> fst (state_file_save target rnd p s) = Inr ()"
  by (simp add: save_eval)

lemma save_keeps_fails: "sv_fails (snd (state_file_save target rnd p s)) = sv_fails s"
  by (rule keepsD [where P = "\<lambda>t. sv_fails t = sv_fails s"])
    (auto simp: state_file_save_def sync_parent_dir_def ignoring_OSError_def Let_def intro!: hoare)

interpretation reliable_disk: reliable_storage "state_file_save target rnd"
  "\<lambda>s. state_file_load target Accessible (sv_fs s)" "ok_disk target" for target rnd
  by unfold_locales
    (auto simp: ok_disk_def save_keeps_fails save_returns_no_failure
       intro: state_disk.save_load state_disk.save_fails state_disk.ok_save)

definition lifetime_on_disk :: "string \<Rightarrow> save_env \<Rightarrow> int option" where
  "lifetime_on_disk target f = (case state_file_load target Accessible (sv_fs f) of
     Inr p \<Rightarrow> Some (ps_transfer_count_lifetime p) | Inl _ \<Rightarrow> None)"

lemma lifetime_on_disk_Some:
  "lifetime_on_disk target f = Some n \<longleftrightarrow>
     (\<exists>p. state_file_load target Accessible (sv_fs f) = Inr p \<and> ps_transfer_count_lifetime p = n)"
  by (auto simp: lifetime_on_disk_def split: sum.split)

section \<open>Properties\<close>

text \<open>
  C6: no reboot takes the lifetime count back.  On a disk whose system calls succeed, start with a file
  that holds the published count and let any sequence of sampling cycles and executor saves run in which
  no asynchronous save is pending at the moment a transfer is sampled: whenever the service is then
  restarted from the file, it publishes the count it published before.
\<close>

theorem count_survives_restart:
  assumes "ok_disk target f" and "rs_state_file s"
    and "lifetime_on_disk target f = Some (sn_transfer_count_lifetime (rs_snap s))"
    and "drained_run (state_file_save target rnd) es (s, [], f)"
    and "fold (persist_step (state_file_save target rnd)) es (s, [], f) = (s', q', f')"
  shows "\<exists>p. state_file_load target Accessible (sv_fs f') = Inr p \<and>
    (\<forall>u m w r. store_init u (Some p) m w = Inr r \<longrightarrow>
       sn_transfer_count_lifetime (rs_snap r) = sn_transfer_count_lifetime (rs_snap s'))"
proof -
  have "reliable_disk.in_step target (s, [], f)"
    using assms(1-3) by (auto simp: reliable_disk.in_step_def lifetime_on_disk_Some)
  from reliable_disk.in_step_run [OF this assms(4)] assms(5)
  obtain p where "state_file_load target Accessible (sv_fs f') = Inr p"
    and "ps_transfer_count_lifetime p = sn_transfer_count_lifetime (rs_snap s')"
    by (auto simp: reliable_disk.in_step_def)
  then show ?thesis
    by (auto simp: store_init_def Let_def default_snapshot_def split: sum.splits)
qed

text \<open>A store with a state file, on utility with a count of 3, and a disk that holds that count.\<close>

definition store_on :: "string \<Rightarrow> RegisterStore" where
  "store_on pos = store_1\<lparr>rs_state_file := True,
     rs_snap := default_snapshot\<lparr>sn_position := pos, sn_transfer_count_lifetime := 3\<rparr>\<rparr>"

definition disk_with_3 :: "(save_step \<Rightarrow> bool) \<Rightarrow> save_env" where
  "disk_with_3 F = \<lparr>sv_fs = fsync_dir (fsync_file ''state.json''
     (fs_holding (Doc (asdict_state (zero_state\<lparr>ps_transfer_count_lifetime := 3\<rparr>))))),
     sv_seen = [], sv_fails = F\<rparr>"

lemma disk_with_3_facts:
  "ok_disk ''state.json'' (disk_with_3 (\<lambda>_. False))"
  "lifetime_on_disk ''state.json'' (disk_with_3 F) = Some 3"
proof -
  show "ok_disk ''state.json'' (disk_with_3 (\<lambda>_. False))"
    by (simp add: ok_disk_def ok_env_def saving_def durable_in_def disk_with_3_def fs_holding_def save_eval)
  have "contents ''state.json'' (sv_fs (disk_with_3 F)) =
      Some (Doc (asdict_state (zero_state\<lparr>ps_transfer_count_lifetime := 3\<rparr>)))"
    by (simp add: disk_with_3_def fs_holding_def contents_def save_eval)
  from load_contents [OF this] show "lifetime_on_disk ''state.json'' (disk_with_3 F) = Some 3"
    by (simp add: lifetime_on_disk_def)
qed

lemma count_survives_restart_witness:
  "\<exists>p. state_file_load ''state.json'' Accessible (sv_fs (snd (snd (fold
       (persist_step (state_file_save ''state.json'' ''a'')) [P_Sample 9 (input_at ''generator'')]
       (store_on ''utility'', [], disk_with_3 (\<lambda>_. False)))))) = Inr p \<and>
     (\<forall>u m w r. store_init u (Some p) m w = Inr r \<longrightarrow> sn_transfer_count_lifetime (rs_snap r) = 4)"
proof -
  let ?r = "fold (persist_step (state_file_save ''state.json'' ''a'')) [P_Sample 9 (input_at ''generator'')]
       (store_on ''utility'', [], disk_with_3 (\<lambda>_. False))"
  have "?r = (fst ?r, fst (snd ?r), snd (snd ?r))" by simp
  note restart = count_survives_restart [OF disk_with_3_facts(1) _ _ _ this]
  have "sn_transfer_count_lifetime (rs_snap (fst ?r)) = 4"
    by (simp add: store_on_def transferred_to_gen_def input_at_def)
  with restart show ?thesis
    by (simp add: store_on_def disk_with_3_facts)
qed

text \<open>
  The drained-queue condition is needed.  A retransfer queues its save in the thread pool; if a
  transfer is sampled and saved synchronously before the pool gets to it, the stale save lands last: the
  file then holds the old count although the new one was saved and published, so a restart goes back by
  one.
\<close>

theorem stale_executor_save_wins:
  assumes "ok_disk target f" and "rs_state_file s" and "sn_position (rs_snap s) = ''generator''"
  shows "let r = fold (persist_step (state_file_save target rnd))
        [P_Sample t1 (input_at ''utility''), P_Sample t2 (input_at ''generator''), P_Executor 0] (s, [], f)
      in sn_transfer_count_lifetime (rs_snap (fst r)) = sn_transfer_count_lifetime (rs_snap s) + 1 \<and>
        lifetime_on_disk target (snd (snd r)) = Some (sn_transfer_count_lifetime (rs_snap s)) \<and>
        fst (snd r) = []"
proof -
  define s1 where "s1 = fst (apply_input_snapshot True t1 (input_at ''utility'') s)"
  define s2 where "s2 = fst (apply_input_snapshot True t2 (input_at ''generator'') s1)"
  define f1 where "f1 = save_blocking (state_file_save target rnd) (persisted_of s2) f"
  define f2 where "f2 = save_blocking (state_file_save target rnd) (persisted_of s1) f1"
  have a1: "apply_input_snapshot True t1 (input_at ''utility'') s = (s1, Save_In_Executor (persisted_of s1))"
    using assms(2,3) snd_apply_input [of True t1 "input_at ''utility''" s]
    by (simp add: s1_def prod_eq_iff transferred_to_gen_def retransferred_to_util_def input_at_def
        persist_async_safe_def)
  have a2: "apply_input_snapshot True t2 (input_at ''generator'') s1 = (s2, Save_Now (persisted_of s2))"
    using assms(2) snd_apply_input [of True t2 "input_at ''generator''" s1]
    by (simp add: s2_def s1_def prod_eq_iff transferred_to_gen_def input_at_def)
  have "ok_disk target f1"
    unfolding f1_def by (rule reliable_disk.save_blocking_stores(2) [OF assms(1)])
  then have "state_file_load target Accessible (sv_fs f2) = Inr (persisted_of s1)"
    unfolding f2_def by (rule reliable_disk.save_blocking_stores(1))
  moreover have "sn_transfer_count_lifetime (rs_snap s1) = sn_transfer_count_lifetime (rs_snap s)"
    and "sn_transfer_count_lifetime (rs_snap s2) = sn_transfer_count_lifetime (rs_snap s) + 1"
    by (simp_all add: s1_def s2_def transferred_to_gen_def input_at_def)
  ultimately show ?thesis
    by (simp add: Let_def a1 a2 executor_run_def lifetime_on_disk_def f1_def [symmetric] f2_def [symmetric])
qed

lemma stale_executor_save_wins_witness:
  "lifetime_on_disk ''state.json'' (snd (snd (fold (persist_step (state_file_save ''state.json'' ''a''))
      [P_Sample 5 (input_at ''utility''), P_Sample 6 (input_at ''generator''), P_Executor 0]
      (store_on ''generator'', [], disk_with_3 (\<lambda>_. False))))) = Some 3"
  using stale_executor_save_wins [OF disk_with_3_facts(1), of "store_on ''generator''" "''a''" 5 6]
  by (simp add: store_on_def Let_def)

text \<open>
  A failed save is published all the same.  When creating the temporary file raises \<open>OSError\<close>
  (disk full, read-only card), the sampled transfer still raises the published count while the
  file keeps the old one: the error is logged and dropped.
\<close>

theorem failed_save_still_published:
  assumes "sv_fails f Mkstemp" and "rs_state_file s"
    and "transferred_to_gen (sn_position (rs_snap s)) (in_position i)"
    and "lifetime_on_disk target f = Some (sn_transfer_count_lifetime (rs_snap s))"
  shows "let r = persist_step (state_file_save target rnd) (P_Sample t i) (s, [], f)
    in sn_transfer_count_lifetime (rs_snap (fst r)) = sn_transfer_count_lifetime (rs_snap s) + 1 \<and>
      lifetime_on_disk target (snd (snd r)) = Some (sn_transfer_count_lifetime (rs_snap s))"
proof -
  have "sv_fs (save_blocking (state_file_save target rnd) p f) = sv_fs f" for p
    using assms(1) by (simp add: save_blocking_def state_file_save_def syscall_def fs_step_def Let_def act_simps)
  then show ?thesis
    using assms(2-4) by (simp add: lifetime_on_disk_def Let_def snd_apply_input)
qed

lemma failed_save_still_published_witness:
  "lifetime_on_disk ''state.json'' (snd (snd (persist_step (state_file_save ''state.json'' ''a'')
     (P_Sample 7 (input_at ''generator'')) (store_on ''utility'', [], disk_with_3 (\<lambda>st. st = Mkstemp))))) = Some 3"
  using failed_save_still_published [of "disk_with_3 (\<lambda>st. st = Mkstemp)" "store_on ''utility''"
      "input_at ''generator''" "''state.json''" "''a''" 7]
  unfolding Let_def
  by (simp add: disk_with_3_facts store_on_def transferred_to_gen_def input_at_def)
    (simp add: disk_with_3_def)

end
