(* ===== verification/Bench.thy ===== *)
theory Bench
  imports Adam_Correctness
begin

text \<open>
  \<open>src/src/atspi/bench.py\<close>: the interactive wiring check.  Its state is the ADAM driver and the operator's remaining input
  lines; \<open>sleep\<close> is what \<open>asyncio.sleep\<close> lets happen (time passes, release tasks run, or an interrupt is
  raised) and is a parameter.  Of what is printed the summary is modelled: the table, the counts and the JSON copy of the
  results, with the texts of the details as constructors and without the channels' fixed descriptions.
\<close>

section \<open>Prompts\<close>

datatype answer = Yes | No | Skip

text \<open>
  \<open>str.lower\<close> on ASCII text; \<open>_prompt\<close> reads one line, and at the end of the input \<open>readline\<close> gives the empty
  string.
\<close>

definition lower :: "string \<Rightarrow> string" where
  "lower l = map (\<lambda>c. if 65 \<le> (of_char c :: nat) \<and> (of_char c :: nat) \<le> 90 then char_of ((of_char c :: nat) + 32) else c) l"

definition prompt :: "string list \<Rightarrow> string \<times> string list" where
  "prompt lines = (case lines of [] \<Rightarrow> ([], []) | l # ls \<Rightarrow> (lower (strip l), ls))"

text \<open>
  \<open>_ask_yes_no_skip\<close>: the body of the loop on one prompt's answer, and the loop.  An unrecognised answer asks again, and
  every turn consumes a line: at the end of the input the answer is empty, a "no", so the loop ends.
\<close>

definition recognise :: "string \<Rightarrow> answer option" where
  "recognise ans =
     (if ans = ''y'' \<or> ans = ''yes'' then Some Yes
      else if ans = ''n'' \<or> ans = ''no'' \<or> ans = [] then Some No
      else if ans = ''s'' \<or> ans = ''skip'' then Some Skip
      else None)"

function ask_yes_no_skip :: "string list \<Rightarrow> answer \<times> string list" where
  "ask_yes_no_skip lines =
     (case recognise (fst (prompt lines)) of
        Some a \<Rightarrow> (a, snd (prompt lines))
      | None \<Rightarrow> ask_yes_no_skip (snd (prompt lines)))"
  by pat_completeness auto
termination
  by (relation "measure length") (auto simp: prompt_def recognise_def split: list.splits if_splits)

declare ask_yes_no_skip.simps [simp del]

lemma ask_at_end [simp]: "ask_yes_no_skip [] = (No, [])"
  by (subst ask_yes_no_skip.simps) (simp add: prompt_def recognise_def)

section \<open>The checks\<close>

datatype outcome = Pass | Fail | Skipped

text \<open>The texts of \<open>CheckResult.detail\<close>, with what is formatted into them.\<close>

datatype check_detail =
    Operator_Skipped
  | Transient_Confirmed
  | No_Change_Not_Confirmed
  | Changed_As_Expected nat
  | Wrong_Channels nat "nat list"
  | Declined_To_Drive
  | Response_Confirmed
  | Confirmation_Skipped
  | No_Response

text \<open>A channel is DI (\<open>True\<close>) or DO with its number.\<close>

record check_result =
  cr_channel :: "bool \<times> nat"
  cr_outcome :: outcome
  cr_detail :: check_detail

text \<open>What \<open>_report\<close> prints: a line per result, the counts, the JSON copy if asked for; and its exit code.\<close>

record bench_report =
  br_table :: "(string \<times> (bool \<times> nat) \<times> check_detail) list"
  br_counts :: "nat \<times> nat \<times> nat"
  br_json :: "check_result list option"
  br_code :: int

record 'w bench =
  be_driver :: "'w adam"
  be_lines :: "string list"
  be_results :: "check_result list"
  be_report :: "bench_report option"

definition on_bench :: "('w adam, 'a) act \<Rightarrow> ('w bench, 'a) act" where
  "on_bench m = (\<lambda>b. case m (be_driver b) of (r, d) \<Rightarrow> (r, b\<lparr>be_driver := d\<rparr>))"

definition ask :: "('w bench, answer) act" where
  "ask = (\<lambda>b. case ask_yes_no_skip (be_lines b) of (a, ls) \<Rightarrow> (Inr a, b\<lparr>be_lines := ls\<rparr>))"

definition report_result :: "bool \<Rightarrow> nat \<Rightarrow> outcome \<times> check_detail \<Rightarrow> ('w bench, check_result) act" where
  "report_result input ch od = ret \<lparr>cr_channel = (input, ch), cr_outcome = fst od, cr_detail = snd od\<rparr>"

text \<open>The channels that differ between two reads: \<open>IndexError\<close> on a short read.\<close>

definition changed_channels :: "bool list \<Rightarrow> bool list \<Rightarrow> exc + nat list" where
  "changed_channels baseline new_state =
     (if length baseline < 6 \<or> length new_state < 6 then Inl IndexError
      else Inr (filter (\<lambda>i. baseline ! i \<noteq> new_state ! i) [0..<6]))"

definition read_dis :: "'w modbus_api \<Rightarrow> ('w bench, bool list) act" where
  "read_dis api = on_bench (adam_read_di_bits api 6)"

definition verify_di :: "'w modbus_api \<Rightarrow> nat \<Rightarrow> ('w bench, check_result) act" where
  "verify_di api ch =
     andthen (read_dis api) (\<lambda>baseline.
     andthen ask (\<lambda>ans.
     if ans = Skip then report_result True ch (Skipped, Operator_Skipped)
     else
       andthen (read_dis api) (\<lambda>new_state.
       andthen (lift_result (changed_channels baseline new_state)) (\<lambda>changed.
       if changed = [] then
         andthen ask (\<lambda>confirm.
         report_result True ch
           (case confirm of Yes \<Rightarrow> (Pass, Transient_Confirmed) | Skip \<Rightarrow> (Skipped, Operator_Skipped)
            | No \<Rightarrow> (Fail, No_Change_Not_Confirmed)))
       else if changed = [ch] then report_result True ch (Pass, Changed_As_Expected ch)
       else report_result True ch (Fail, Wrong_Channels ch changed)))))"

text \<open>\<open>try: body finally: cleanup\<close>: an exception of the body is raised again after the cleanup.\<close>

definition finally_do :: "('s, 'a) act \<Rightarrow> ('s, unit) act \<Rightarrow> ('s, 'a) act" where
  "finally_do body cleanup =
     (\<lambda>s. case body s of
        (Inr x, s') \<Rightarrow> andthen cleanup (\<lambda>_. ret x) s'
      | (Inl e, s') \<Rightarrow> andthen cleanup (\<lambda>_. raise e) s')"

definition DO_ASSERT_HOLD_S :: real where [simp]: "DO_ASSERT_HOLD_S = 2"

definition exercise_do :: "'w modbus_api \<Rightarrow> (real \<Rightarrow> ('w adam, unit) act) \<Rightarrow> nat \<Rightarrow> ('w adam, unit) act" where
  "exercise_do api sleep ch =
     (if ch = DO_TEST then adam_drive_outputs api (Some 1500) None None None
      else if ch = DO_BYPASS_DELAY then adam_drive_outputs api None None None (Some 1500)
      else if ch = DO_FORCE_TRANSFER then
        finally_do
          (andthen (adam_drive_outputs api None None (Some True) None) (\<lambda>_. sleep DO_ASSERT_HOLD_S))
          (adam_drive_outputs api None None (Some False) None)
      else if ch = DO_INHIBIT then
        finally_do
          (andthen (adam_drive_outputs api None (Some True) None None) (\<lambda>_. sleep DO_ASSERT_HOLD_S))
          (adam_drive_outputs api None (Some False) None None)
      else ret ())"

definition verify_do :: "'w modbus_api \<Rightarrow> (real \<Rightarrow> ('w adam, unit) act) \<Rightarrow> nat \<Rightarrow> ('w bench, check_result) act" where
  "verify_do api sleep ch =
     andthen ask (\<lambda>ans.
     if ans = Skip \<or> ans = No then report_result False ch (Skipped, Declined_To_Drive)
     else
       andthen (on_bench (exercise_do api sleep ch)) (\<lambda>_.
       andthen (on_bench (sleep (3 / 10))) (\<lambda>_.
       andthen ask (\<lambda>confirm.
       report_result False ch
         (case confirm of Yes \<Rightarrow> (Pass, Response_Confirmed) | Skip \<Rightarrow> (Skipped, Confirmation_Skipped)
          | No \<Rightarrow> (Fail, No_Response))))))"

section \<open>The run\<close>

fun run_checks :: "(nat \<Rightarrow> ('w bench, check_result) act) \<Rightarrow> nat list \<Rightarrow> ('w bench, unit) act" where
  "run_checks check [] = ret ()"
| "run_checks check (ch # chs) =
     andthen (check ch) (\<lambda>r.
     andthen (modify (\<lambda>b. b\<lparr>be_results := be_results b @ [r]\<rparr>)) (\<lambda>_.
     run_checks check chs))"

fun marker :: "outcome \<Rightarrow> string" where
  "marker Pass = ''[OK]''"
| "marker Fail = ''[FAIL]''"
| "marker Skipped = ''[SKIP]''"

definition report :: "bool \<Rightarrow> check_result list \<Rightarrow> bench_report" where
  "report output_json results =
     (let passes = length (filter (\<lambda>r. cr_outcome r = Pass) results);
          fails = length (filter (\<lambda>r. cr_outcome r = Fail) results);
          skips = length (filter (\<lambda>r. cr_outcome r = Skipped) results)
      in \<lparr>br_table = map (\<lambda>r. (marker (cr_outcome r), cr_channel r, cr_detail r)) results,
          br_counts = (passes, fails, skips),
          br_json = (if output_json then Some results else None),
          br_code = (if results = [] then 2 else if fails > 0 then 1 else if skips > 0 then 3 else 0)\<rparr>)"

text \<open>The \<open>finally\<close> block of \<open>_run\<close>: the release only where outputs were driven, its failure dropped.\<close>

definition bench_cleanup :: "'w modbus_api \<Rightarrow> bool \<Rightarrow> ('w bench, unit) act" where
  "bench_cleanup api skip_dos =
     andthen (if skip_dos then ret ()
              else catching (on_bench (adam_release_all_outputs api)) (\<lambda>_. ret ())) (\<lambda>_.
     on_bench (adam_close api))"

text \<open>The channels of \<open>DI_DESCRIPTIONS\<close> and \<open>DO_DESCRIPTIONS\<close>, in their order.\<close>

definition DI_CHANNELS :: "nat list" where
  "DI_CHANNELS = [DI_LOAD_DISCONNECT, DI_ON_NORMAL, DI_ON_EMERGENCY, DI_NORMAL_AVAIL, DI_EMERGENCY_AVAIL, DI_ENGINE_START]"

definition DO_CHANNELS :: "nat list" where
  "DO_CHANNELS = [DO_TEST, DO_FORCE_TRANSFER, DO_INHIBIT, DO_BYPASS_DELAY]"

definition bench_checks :: "'w modbus_api \<Rightarrow> (real \<Rightarrow> ('w adam, unit) act) \<Rightarrow> bool \<Rightarrow> bool \<Rightarrow> ('w bench, unit) act" where
  "bench_checks api sleep skip_dis skip_dos =
     andthen (if skip_dis then ret () else run_checks (verify_di api) DI_CHANNELS) (\<lambda>_.
     if skip_dos then ret () else run_checks (verify_do api sleep) DO_CHANNELS)"

definition bench_run :: "'w modbus_api \<Rightarrow> (real \<Rightarrow> ('w adam, unit) act) \<Rightarrow> bool \<Rightarrow> bool \<Rightarrow> bool \<Rightarrow> ('w bench, int) act" where
  "bench_run api sleep skip_dis skip_dos output_json =
     andthen (on_bench (adam_connect api)) (\<lambda>connected.
     if \<not> connected then ret 2
     else
       andthen (finally_do (bench_checks api sleep skip_dis skip_dos) (bench_cleanup api skip_dos)) (\<lambda>_.
       andthen (gets (report output_json \<circ> be_results)) (\<lambda>r.
       andthen (modify (be_report_update (\<lambda>_. Some r))) (\<lambda>_.
       ret (br_code r)))))"

text \<open>The driver of the bench: the fail-safe gate is waived.\<close>

definition bench_driver :: "int \<Rightarrow> string \<Rightarrow> 'w \<Rightarrow> exc + 'w adam" where
  "bench_driver unit_id di_read w = adam_init unit_id 3 ''auto'' di_read False None w"

section \<open>Properties\<close>

text \<open>
  C32: the bench never leaves a relay on behind it.  Let the outputs be exercised (\<open>skip_dos\<close> off) with any operator input and any
  behaviour of the waits, interrupts and failures in the middle of a check included; let \<open>b'\<close> be the state in
  which the checks ended, normally or not.  If the final release returns, all four command outputs end up
  commanded off, even when closing the driver then fails.
\<close>

theorem bench_releases_on_every_exit:
  assumes "adam_connect api (be_driver b) = (Inr True, d)"
    and "b' = snd (bench_checks api sleep skip_dis False (b\<lparr>be_driver := d\<rparr>))"
    and "fst (adam_release_all_outputs api (be_driver b')) = Inr ()"
  shows "adam_commanded (be_driver (snd (bench_run api sleep skip_dis False output_json b))) out = Some False"
proof -
  let ?b = "b\<lparr>be_driver := d\<rparr>"
  obtain d1 where rel: "adam_release_all_outputs api (be_driver b') = (Inr (), d1)"
    using assms(3) by (metis prod.collapse)
  have close: "adam_commanded (snd (adam_close api d1)) out = Some False"
  proof -
    have "keeps (\<lambda>d. last_commanded d j = v) (adam_close api)" for j v
      unfolding adam_close_def by (intro hoare keeps_lc keeps_close_link) (simp_all add: last_commanded_def)
    from keepsD [OF this refl] adam_release_all_returnD [OF rel] show ?thesis
      by (simp add: adam_commanded_def)
  qed
  have cleanup: "be_driver (snd (bench_cleanup api False b')) = snd (adam_close api d1)"
    using rel by (simp add: bench_cleanup_def act_simps on_bench_def split: prod.split)
  have "be_driver (snd (bench_run api sleep skip_dis False output_json b)) =
      be_driver (snd (bench_cleanup api False b'))"
    using assms(1,2)
    by (cases "bench_checks api sleep skip_dis False" ?b rule: act_cases)
      (auto simp: bench_run_def finally_do_def act_simps on_bench_def split: prod.split sum.split)
  with cleanup close show ?thesis by simp
qed

text \<open>
  Concretely: the operator agrees to the Force Transfer check only, and the hold is interrupted.
\<close>

definition sim_bench :: "unit_sim bench" where
  "sim_bench =
     \<lparr>be_driver = (case bench_driver 1 ''coils'' (sim_unit False) of Inr d \<Rightarrow> d | Inl e \<Rightarrow> undefined),
      be_lines = [''N'', '' Yes ''], be_results = [], be_report = None\<rparr>"

lemmas bench_eval = sim_bench_def bench_driver_def adam_init_def VALID_ASSUMED_MODES_def DI_READ_FN_def
  bench_checks_def DO_CHANNELS_def verify_do_def ask_def report_result_def on_bench_def exercise_do_def finally_do_def
  adam_release_all_outputs_def cancel_release_tasks_def cancel_task_def release_output_def

lemma sim_answers [simp]:
  "ask_yes_no_skip [''N'', '' Yes ''] = (No, ['' Yes ''])" "ask_yes_no_skip ['' Yes ''] = (Yes, [])"
  by code_simp+

lemma bench_releases_on_every_exit_witness:
  "adam_commanded (be_driver (snd (bench_run sim_api (\<lambda>_. raise OSError) True False False sim_bench))) Force_Transfer = Some False"
proof -
  have connect: "adam_connect sim_api (be_driver sim_bench) = (Inr True, snd (adam_connect sim_api (be_driver sim_bench)))"
    by (simp add: bench_eval sim_eval)
  show ?thesis
    by (rule bench_releases_on_every_exit [OF connect refl]) (simp add: bench_eval sim_eval)
qed

lemma report_zero:
  "br_code (report json rs) = 0 \<longleftrightarrow> rs \<noteq> [] \<and> list_all (\<lambda>r. cr_outcome r = Pass) rs"
proof -
  have "(filter (\<lambda>r. cr_outcome r = Fail) rs = [] \<and> filter (\<lambda>r. cr_outcome r = Skipped) rs = []) \<longleftrightarrow>
      list_all (\<lambda>r. cr_outcome r = Pass) rs" for rs :: "check_result list"
    by (induction rs) (auto intro: outcome.exhaust)
  then show ?thesis by (auto simp: report_def Let_def)
qed

text \<open>
  The exit code is 0 exactly if some check ran and every one of them passed; the end of the operator's input
  counts as the answer "no", not as a skip: an unattended run skips the outputs it would drive.
\<close>

theorem bench_exit_code:
  "(br_code (report json results) = 0 \<longleftrightarrow> results \<noteq> [] \<and> list_all (\<lambda>r. cr_outcome r = Pass) results) \<and>
   ask_yes_no_skip [] = (No, []) \<and>
   verify_do api sleep ch \<lparr>be_driver = d, be_lines = [], be_results = [], be_report = None\<rparr> =
     (Inr \<lparr>cr_channel = (False, ch), cr_outcome = Skipped, cr_detail = Declined_To_Drive\<rparr>,
      \<lparr>be_driver = d, be_lines = [], be_results = [], be_report = None\<rparr>)"
  by (simp add: report_zero verify_do_def ask_def report_result_def act_simps)

section \<open>What an exit code of 0 means\<close>

text \<open>A pass has been seen: the one channel moved, or the operator vouched for it.\<close>

definition vouched :: "check_result \<Rightarrow> bool" where
  "vouched r \<longleftrightarrow> (case cr_channel r of
     (True, ch) \<Rightarrow> cr_detail r = Changed_As_Expected ch \<or> cr_detail r = Transient_Confirmed
   | (False, ch) \<Rightarrow> cr_detail r = Response_Confirmed)"

lemma on_bench_results: "on_bench m b = (r, b') \<Longrightarrow> be_results b' = be_results b"
  by (auto simp: on_bench_def split: prod.splits)

lemma ask_results: "ask b = (r, b') \<Longrightarrow> be_results b' = be_results b"
  by (auto simp: ask_def split: prod.splits)

lemma report_result_returns:
  "report_result input ch od b = (Inr r, b') \<Longrightarrow>
     b' = b \<and> cr_channel r = (input, ch) \<and> cr_outcome r = fst od \<and> cr_detail r = snd od"
  by (auto simp: report_result_def ret_def)

lemma verify_di_returns:
  assumes "verify_di api ch b = (Inr r, b')"
  shows "be_results b' = be_results b \<and> cr_channel r = (True, ch) \<and> (cr_outcome r = Pass \<longrightarrow> vouched r)"
  using assms unfolding verify_di_def read_dis_def
  by (auto elim!: andthen_returnE dest!: on_bench_results ask_results report_result_returns
      simp: lift_result_def vouched_def split: if_splits answer.splits)

lemma verify_do_returns:
  assumes "verify_do api sleep ch b = (Inr r, b')"
  shows "be_results b' = be_results b \<and> cr_channel r = (False, ch) \<and> (cr_outcome r = Pass \<longrightarrow> vouched r)"
  using assms unfolding verify_do_def
  by (auto elim!: andthen_returnE dest!: on_bench_results ask_results report_result_returns
      simp: vouched_def split: if_splits answer.splits)

lemma run_checks_returns:
  assumes "run_checks check chs b = (Inr (), b')"
    and "\<And>ch b r b'. check ch b = (Inr r, b') \<Longrightarrow>
      be_results b' = be_results b \<and> cr_channel r = (input, ch) \<and> (cr_outcome r = Pass \<longrightarrow> vouched r)"
  shows "\<exists>rs. be_results b' = be_results b @ rs \<and> map cr_channel rs = map (Pair input) chs \<and>
    list_all (\<lambda>r. cr_outcome r = Pass \<longrightarrow> vouched r) rs"
  using assms(1)
proof (induction chs arbitrary: b)
  case (Cons ch chs)
  then obtain r b1 where r: "check ch b = (Inr r, b1)"
    and rest: "run_checks check chs (b1\<lparr>be_results := be_results b1 @ [r]\<rparr>) = (Inr (), b')"
    by (auto simp: modify_def elim!: andthen_returnE)
  from Cons.IH [OF rest] obtain rs where "be_results b' = be_results b1 @ [r] @ rs"
    "map cr_channel rs = map (Pair input) chs" "list_all (\<lambda>r. cr_outcome r = Pass \<longrightarrow> vouched r) rs" by auto
  with assms(2) [OF r] show ?case by (intro exI [of _ "r # rs"]) auto
qed (simp add: ret_def)

lemma bench_checks_returns:
  assumes "bench_checks api sleep skip_dis skip_dos b = (Inr (), b')"
  shows "\<exists>rs. be_results b' = be_results b @ rs \<and>
    map cr_channel rs = (if skip_dis then [] else map (Pair True) DI_CHANNELS) @ (if skip_dos then [] else map (Pair False) DO_CHANNELS) \<and>
    list_all (\<lambda>r. cr_outcome r = Pass \<longrightarrow> vouched r) rs"
proof -
  obtain b1 where di: "(if skip_dis then ret () else run_checks (verify_di api) DI_CHANNELS) b = (Inr (), b1)"
    and do: "(if skip_dos then ret () else run_checks (verify_do api sleep) DO_CHANNELS) b1 = (Inr (), b')"
    using assms unfolding bench_checks_def by (auto elim!: andthen_returnE)
  have "\<exists>rs. be_results b1 = be_results b @ rs \<and> map cr_channel rs = (if skip_dis then [] else map (Pair True) DI_CHANNELS) \<and>
      list_all (\<lambda>r. cr_outcome r = Pass \<longrightarrow> vouched r) rs"
    using di run_checks_returns [where check = "verify_di api" and input = True, OF _ verify_di_returns] by (cases skip_dis) (simp_all add: ret_def)
  moreover have "\<exists>rs. be_results b' = be_results b1 @ rs \<and> map cr_channel rs = (if skip_dos then [] else map (Pair False) DO_CHANNELS) \<and>
      list_all (\<lambda>r. cr_outcome r = Pass \<longrightarrow> vouched r) rs"
    using do run_checks_returns [where check = "verify_do api sleep" and input = False, OF _ verify_do_returns] by (cases skip_dos) (simp_all add: ret_def)
  ultimately obtain rs rs' where "be_results b1 = be_results b @ rs" "be_results b' = be_results b1 @ rs'"
    "map cr_channel rs = (if skip_dis then [] else map (Pair True) DI_CHANNELS)"
    "map cr_channel rs' = (if skip_dos then [] else map (Pair False) DO_CHANNELS)"
    "list_all (\<lambda>r. cr_outcome r = Pass \<longrightarrow> vouched r) (rs @ rs')" by auto
  then show ?thesis by (intro exI [of _ "rs @ rs'"]) simp
qed

text \<open>
  C33: exit code 0 certifies the wiring.  A run that starts with no results and exits with 0 has checked every channel that
  was not excluded -- DI 0 to 5, then DO 0 to 3, each once and in order, and not none at all -- and every one of them passed:
  a digital input because it alone changed between the two reads or because the operator confirmed a transient, an
  output because the operator confirmed the response.  The summary counts them all as passed, and the JSON copy is that list.
\<close>

theorem bench_zero_means_verified:
  assumes "bench_run api sleep skip_dis skip_dos output_json b = (Inr 0, b')" and "be_results b = []"
  shows "\<exists>rs. be_results b' = rs \<and>
    map cr_channel rs = (if skip_dis then [] else map (Pair True) [0, 1, 2, 3, 4, 5]) @ (if skip_dos then [] else map (Pair False) [0, 1, 2, 3]) \<and>
    \<not> (skip_dis \<and> skip_dos) \<and> list_all (\<lambda>r. cr_outcome r = Pass \<and> vouched r) rs \<and>
    (\<exists>rep. be_report b' = Some rep \<and> br_counts rep = (length rs, 0, 0) \<and> br_json rep = (if output_json then Some rs else None))"
proof -
  let ?check = "bench_checks api sleep skip_dis skip_dos" and ?clean = "bench_cleanup api skip_dos"
  obtain b1 b2 where b1: "on_bench (adam_connect api) b = (Inr True, b1)"
    and run: "finally_do ?check ?clean b1 = (Inr (), b2)"
    and b': "b' = b2\<lparr>be_report := Some (report output_json (be_results b2))\<rparr>" "br_code (report output_json (be_results b2)) = 0"
    using assms(1) unfolding bench_run_def
    by (auto simp: gets_def modify_def ret_def elim!: andthen_returnE split: if_splits)
  from run obtain bc where check: "?check b1 = (Inr (), bc)" and clean: "?clean bc = (Inr (), b2)"
    by (auto simp: finally_do_def raise_def ret_def elim!: andthen_returnE split: prod.splits sum.splits)
  have "be_results b2 = be_results bc"
    using clean unfolding bench_cleanup_def
    by (auto simp: catching_def ret_def elim!: andthen_returnE dest!: on_bench_results split: if_splits prod.splits sum.splits)
  moreover have "be_results b1 = []" using on_bench_results [OF b1] assms(2) by simp
  ultimately obtain rs where rs: "be_results b2 = rs"
    "map cr_channel rs = (if skip_dis then [] else map (Pair True) DI_CHANNELS) @ (if skip_dos then [] else map (Pair False) DO_CHANNELS)"
    "list_all (\<lambda>r. cr_outcome r = Pass \<longrightarrow> vouched r) rs"
    using bench_checks_returns [OF check] by auto
  have pass: "rs \<noteq> []" "list_all (\<lambda>r. cr_outcome r = Pass) rs"
    using b'(2) rs(1) by (simp_all add: report_zero)
  then have none: "filter (\<lambda>r. cr_outcome r = Fail) rs = []" "filter (\<lambda>r. cr_outcome r = Skipped) rs = []"
    "filter (\<lambda>r. cr_outcome r = Pass) rs = rs"
    by (auto simp: list_all_iff filter_empty_conv intro: filter_True)
  have "br_counts (report output_json rs) = (length rs, 0, 0)" "br_json (report output_json rs) = (if output_json then Some rs else None)"
    by (simp_all add: report_def Let_def none)
  moreover have "\<not> (skip_dis \<and> skip_dos)" using pass(1) rs(2) by auto
  moreover have "list_all (\<lambda>r. cr_outcome r = Pass \<and> vouched r) rs" using pass(2) rs(3) by (auto simp: list_all_iff)
  ultimately show ?thesis using rs b'(1) by (auto simp: DI_CHANNELS_def DO_CHANNELS_def)
qed

text \<open>The simulated unit, its inputs at rest; the operator confirms a transient on each of the six.\<close>

definition quiet_driver :: "unit_sim adam" where
  "quiet_driver = snd (adam_connect sim_api (be_driver sim_bench))"

lemma quiet_connect: "adam_connect sim_api (be_driver sim_bench) = (Inr True, quiet_driver)"
  by (simp add: quiet_driver_def bench_eval sim_eval)

lemma quiet_close: "fst (adam_close sim_api quiet_driver) = Inr ()"
  by (simp add: quiet_driver_def bench_eval sim_eval adam_close_def close_link_def)

lemma quiet_read: "adam_read_di_bits sim_api 6 quiet_driver = (Inr (replicate 6 False), quiet_driver)"
  by (simp add: quiet_driver_def bench_eval sim_eval adam_read_di_bits_def adam_read_bits_def numeral_eq_Suc)

lemma answered_yes [simp]: "ask_yes_no_skip (''y'' # ls) = (Yes, ls)"
  by (subst ask_yes_no_skip.simps) (simp add: prompt_def recognise_def lower_def strip_def is_space_def)

lemma quiet_di:
  "verify_di sim_api ch \<lparr>be_driver = quiet_driver, be_lines = ''y'' # ''y'' # ls, be_results = rs, be_report = rep\<rparr> =
     (Inr \<lparr>cr_channel = (True, ch), cr_outcome = Pass, cr_detail = Transient_Confirmed\<rparr>,
      \<lparr>be_driver = quiet_driver, be_lines = ls, be_results = rs, be_report = rep\<rparr>)"
  by (simp add: verify_di_def read_dis_def andthen_def on_bench_def quiet_read ask_def lift_result_def changed_channels_def
      report_result_def ret_def del: upt_Suc)

lemma bench_zero_means_verified_witness:
  "\<exists>b'. bench_run sim_api (\<lambda>_. ret ()) False True False (sim_bench\<lparr>be_lines := replicate 12 ''y''\<rparr>) = (Inr 0, b') \<and>
    length (be_results b') = 6"
proof -
  let ?b = "sim_bench\<lparr>be_lines := replicate 12 ''y''\<rparr>"
  obtain d where closing: "adam_close sim_api quiet_driver = (Inr (), d)" using quiet_close by (metis prod.collapse)
  have "replicate 12 ''y'' = [''y'', ''y'', ''y'', ''y'', ''y'', ''y'', ''y'', ''y'', ''y'', ''y'', ''y'', ''y'']"
    by (simp add: numeral_eq_Suc)
  moreover have "be_driver sim_bench = be_driver ?b" by simp
  ultimately have "\<exists>b'. bench_run sim_api (\<lambda>_. ret ()) False True False ?b = (Inr 0, b')"
    using quiet_connect closing
    by (simp add: bench_run_def andthen_def on_bench_def finally_do_def bench_checks_def DI_CHANNELS_def bench_cleanup_def
        quiet_di modify_def ret_def gets_def report_def sim_bench_def)
  then obtain b' where run: "bench_run sim_api (\<lambda>_. ret ()) False True False ?b = (Inr 0, b')" ..
  have "be_results ?b = []" by (simp add: sim_bench_def)
  from bench_zero_means_verified [OF run this] have "map cr_channel (be_results b') = map (Pair True) [0, 1, 2, 3, 4, 5]" by auto
  then have "length (map cr_channel (be_results b')) = 6" by simp
  then have "length (be_results b') = 6" by simp
  with run show ?thesis by blast
qed

section \<open>A pulse under a prompt\<close>

text \<open>\<open>asyncio.sleep\<close> with nothing going wrong: the time passes, then every release task has the chance to run.\<close>

definition wake_all :: "'w modbus_api \<Rightarrow> ('w adam, unit) act" where
  "wake_all api = (\<lambda>d. fold (\<lambda>k (r, d). adam_release_step api k d) [0..<length (ad_tasks d)] (Inr (), d))"

definition pause :: "'w modbus_api \<Rightarrow> (real \<Rightarrow> 'w \<Rightarrow> 'w) \<Rightarrow> real \<Rightarrow> ('w adam, unit) act" where
  "pause api pass dt = andthen (modify (\<lambda>d. d\<lparr>lk_env := pass dt (lk_env d)\<rparr>)) (\<lambda>_. wake_all api)"

lemma pause_before_due:
  assumes "ad_tasks d = [\<lparr>rt_coil = c, rt_do_index = i, rt_phase = Pulsing due\<rparr>]"
    and "api_monotonic api (pass dt (lk_env d)) < due"
  shows "pause api pass dt d = (Inr (), d\<lparr>lk_env := pass dt (lk_env d)\<rparr>)"
  using assms by (simp add: pause_def wake_all_def andthen_def modify_def adam_release_step_def gets_def ret_def now_def)

lemma first_pulse:
  assumes "adam_drive_outputs api (Some ms) None None None d = (Inr (), d1)" and "ad_tasks d = []"
  shows "ad_tasks d1 = [\<lparr>rt_coil = DO_COIL_BASE, rt_do_index = DO_TEST, rt_phase = Pulsing (now api d1 + of_int (pulse_ms ms) / 1000)\<rparr>]"
    and "last_commanded d1 DO_TEST = Some True"
proof -
  have "adam_pulse api DO_TEST ms d = (Inr (), d1)"
    using assms(1) by (auto simp: adam_drive_outputs_def adam_pulsed_def adam_maintained_def gets_def ret_def raise_def
      elim!: andthen_returnE split: if_splits)
  then have "pulse_commit api DO_TEST ms d = (Inr (), d1)"
    using assms(2) by (simp add: adam_pulse_def pulse_guard_def gets_def andthen_def slot_pending_def split: option.splits)
  then obtain dw where w: "adam_write_coil api DO_COIL_BASE True d = (Inr (), dw)"
    and rest: "andthen (record_commanded api DO_TEST True) (\<lambda>_. schedule_release api DO_TEST (pulse_ms ms)) dw = (Inr (), d1)"
    unfolding pulse_commit_def by (auto elim: andthen_returnE)
  have "ad_tasks dw = []" using write_coil_view [of api DO_COIL_BASE True d] w assms(2) by (simp add: task_view_def)
  with rest show "ad_tasks d1 = [\<lparr>rt_coil = DO_COIL_BASE, rt_do_index = DO_TEST, rt_phase = Pulsing (now api d1 + of_int (pulse_ms ms) / 1000)\<rparr>]"
    and "last_commanded d1 DO_TEST = Some True"
    by (auto simp: andthen_def record_commanded_def schedule_release_def set_release_slot_def modify_def now_def
        last_commanded_def update_conv')
qed

text \<open>
  A pulse of the bench lasts as long as the operator thinks.  The Test check drives a pulse of 1.5 s, sleeps 0.3 s and asks; the
  prompt reads the terminal inside the event loop, so the pulse's release task cannot run until the answer is in.
  Whatever the answers (\<open>ls\<close>) and whenever they come, the check ends with the pulse still running and the relay
  commanded on, and the next check's prompt leaves it so too.
\<close>

theorem bench_pulse_outlasts_prompt:
  assumes "adam_drive_outputs api (Some 1500) None None None (be_driver b) = (Inr (), d1)" and "ad_tasks (be_driver b) = []"
    and "be_lines b = ''y'' # ls" and "\<And>dt w. api_monotonic api (pass dt w) = api_monotonic api w + dt"
  shows "\<exists>r b'. verify_do api (pause api pass) DO_TEST b = (Inr r, b') \<and>
    be_driver (snd (ask b')) = d1\<lparr>lk_env := pass (3 / 10) (lk_env d1)\<rparr> \<and>
    adam_commanded (be_driver (snd (ask b'))) Test = Some True \<and>
    rt_phase (hd (ad_tasks (be_driver (snd (ask b'))))) = Pulsing (now api d1 + 3 / 2)"
proof -
  note first = first_pulse [OF assms(1,2)]
  have ask: "ask b = (Inr Yes, b\<lparr>be_lines := ls\<rparr>)" using assms(3) by (simp add: ask_def)
  have pause: "pause api pass (3 / 10) d1 = (Inr (), d1\<lparr>lk_env := pass (3 / 10) (lk_env d1)\<rparr>)"
    using first(1) by (rule pause_before_due) (simp add: assms(4) now_def pulse_ms_def)
  obtain a ls' where confirm: "ask_yes_no_skip ls = (a, ls')" by fastforce
  have "\<exists>r. verify_do api (pause api pass) DO_TEST b =
      (Inr r, b\<lparr>be_lines := ls', be_driver := d1\<lparr>lk_env := pass (3 / 10) (lk_env d1)\<rparr>\<rparr>)"
    using ask assms(1) pause confirm
    by (simp add: verify_do_def andthen_def on_bench_def exercise_do_def ask_def report_result_def ret_def)
  then obtain r where r: "verify_do api (pause api pass) DO_TEST b =
      (Inr r, b\<lparr>be_lines := ls', be_driver := d1\<lparr>lk_env := pass (3 / 10) (lk_env d1)\<rparr>\<rparr>)" ..
  have "be_driver (snd (ask c)) = be_driver c" for c :: "'a bench" by (simp add: ask_def split: prod.split)
  with r first show ?thesis by (simp add: adam_commanded_def last_commanded_def pulse_ms_def)
qed

end
