(* ===== verification/Server_Start.thy ===== *)
theory Server_Start
  imports Server
begin

text \<open>
  The rest of \<open>src/src/atspi/server.py\<close>: the data block with the callbacks it is built over, the request handler that
  feeds the connection tracker, the server task, and the wait for the listening socket.  The library's own handling
  of a request, its serving loop and the socket are parameters: \<open>super\<close>, the way the loop ends, and the observations
  of each attempt to connect.
\<close>

section \<open>The data block and its callbacks\<close>

text \<open>
  \<open>_make_data_block\<close>: \<open>on_read\<close> fires before every read, \<open>on_command\<close> on every intent, between the register writes; both
  are optional and act on a state \<open>'g\<close> of the caller.
\<close>

definition block_get_values :: "('g \<Rightarrow> 'g) option \<Rightarrow> int \<Rightarrow> int \<Rightarrow> real \<Rightarrow> int \<Rightarrow> RegisterStore \<times> 'g \<Rightarrow>
    int list \<times> RegisterStore \<times> 'g" where
  "block_get_values on_read address cnt now_mono now_wall = (\<lambda>(s, g).
     (get_values address cnt now_mono now_wall s, s, case on_read of None \<Rightarrow> g | Some f \<Rightarrow> f g))"

fun block_set_values :: "(CommandIntent \<Rightarrow> 'g \<Rightarrow> 'g) option \<Rightarrow> int \<Rightarrow> int list \<Rightarrow> RegisterStore \<times> 'g \<Rightarrow> RegisterStore \<times> 'g" where
  "block_set_values on_command address [] sg = sg"
| "block_set_values on_command address (v # vs) (s, g) =
     (case write_register (address - 1) v s of
        (intent, s') \<Rightarrow>
          block_set_values on_command (address + 1) vs
            (s', case (intent, on_command) of (Some i, Some f) \<Rightarrow> f i g | _ \<Rightarrow> g))"

text \<open>With the command callback the block hands out the intents of \<open>set_values\<close>, in order; without one it drops them.\<close>

lemma block_set_values_eq:
  "block_set_values on_command address vs (s, g) =
     (snd (set_values address vs s), case on_command of None \<Rightarrow> g | Some f \<Rightarrow> fold f (fst (set_values address vs s)) g)"
proof (induction vs arbitrary: address s g)
  case (Cons v vs)
  obtain i s' where w: "write_register (address - 1) v s = (i, s')" by fastforce
  then show ?case using Cons.IH [of "address + 1" s']
    by (auto simp: set_values_def case_prod_beta split: option.split)
qed (simp add: set_values_def split: option.split)

text \<open>In production there is no read callback: a read leaves the caller's state, the watchdog, alone.\<close>

lemma block_reads_untracked: "snd (block_get_values None address cnt m w sg) = sg"
  by (simp add: block_get_values_def split: prod.split)

section \<open>The tracking handler\<close>

text \<open>\<open>_async_execute\<close> and \<open>callback_disconnected\<close>: the note, whose exceptions are logged and dropped, then the library.\<close>

definition async_execute :: "('t, unit) act \<Rightarrow> ('t, 'r) act \<Rightarrow> ('t, 'r) act" where
  "async_execute note super = andthen (catching note (\<lambda>_. ret ())) (\<lambda>_. super)"

definition callback_disconnected :: "('t, unit) act \<Rightarrow> ('t, 'r) act \<Rightarrow> ('t, 'r) act" where
  "callback_disconnected note super = andthen (catching note (\<lambda>_. ret ())) (\<lambda>_. super)"

text \<open>Tracking never breaks a request: it reaches the library whatever the note did.\<close>

lemma async_execute_transparent: "async_execute note super t = super (snd (note t))"
  by (simp add: async_execute_def act_simps split: prod.split sum.split)

lemma callback_disconnected_transparent: "callback_disconnected note super t = super (snd (note t))"
  by (simp add: callback_disconnected_def act_simps split: prod.split sum.split)

section \<open>Waiting for the socket\<close>

definition BIND_TIMEOUT_S :: real where [simp]: "BIND_TIMEOUT_S = 5"
definition BIND_POLL_INTERVAL_S :: real where [simp]: "BIND_POLL_INTERVAL_S = 1 / 50"

definition probe_host :: "string \<Rightarrow> string" where
  "probe_host host = (if host \<in> {''0.0.0.0'', ''::''} then ''127.0.0.1'' else host)"

text \<open>
  One turn of the loop sees: the clock, the server task's result if it is done, the outcome of opening a
  connection and of closing it again.
\<close>

record bind_attempt =
  bt_now :: real
  bt_server :: "(exc + unit) option"
  bt_connect :: "exc + unit"
  bt_closed :: "exc + unit"

text \<open>\<open>_wait_until_bound\<close> on the attempts in order; \<open>None\<close> is still waiting after all of them.\<close>

fun wait_until_bound :: "real \<Rightarrow> bind_attempt list \<Rightarrow> (exc + unit) option" where
  "wait_until_bound deadline [] = None"
| "wait_until_bound deadline (a # as) =
     (if \<not> bt_now a < deadline then Some (Inl TimeoutError)
      else case bt_server a of
        Some (Inl e) \<Rightarrow> Some (Inl e)
      | Some (Inr _) \<Rightarrow> Some (Inl RuntimeError)
      | None \<Rightarrow>
          (case bt_connect a of
             Inl e \<Rightarrow> if is_OSError e then wait_until_bound deadline as else Some (Inl e)
           | Inr _ \<Rightarrow>
               (case bt_closed a of
                  Inl e \<Rightarrow> if is_OSError e then Some (Inr ()) else Some (Inl e)
                | Inr _ \<Rightarrow> Some (Inr ()))))"

text \<open>Each turn that goes round again has slept for the poll interval.\<close>

definition paced :: "bind_attempt list \<Rightarrow> bool" where
  "paced as \<longleftrightarrow> (\<forall>i. Suc i < length as \<longrightarrow> bt_now (as ! i) + BIND_POLL_INTERVAL_S \<le> bt_now (as ! Suc i))"

lemma paced_now:
  assumes "paced as" and "i < length as"
  shows "bt_now (as ! 0) + of_nat i * BIND_POLL_INTERVAL_S \<le> bt_now (as ! i)"
  using assms(2)
proof (induction i)
  case (Suc i)
  then have "bt_now (as ! i) + BIND_POLL_INTERVAL_S \<le> bt_now (as ! Suc i)"
    using assms(1) by (simp add: paced_def)
  with Suc show ?case by (simp add: add_divide_distrib)
qed simp

lemma wait_past_deadline:
  assumes "i < length as" and "deadline \<le> bt_now (as ! i)"
  shows "wait_until_bound deadline as \<noteq> None"
  using assms
proof (induction as arbitrary: i)
  case (Cons a as)
  then show ?case by (cases i) (auto split: option.split sum.split)
qed simp

lemma wait_bound_accepts:
  assumes "wait_until_bound deadline as = Some (Inr ())"
  shows "\<exists>a\<in>set as. bt_now a < deadline \<and> bt_server a = None \<and> bt_connect a = Inr ()"
  using assms by (induction as) (auto split: if_splits option.splits sum.splits)

section \<open>The server task\<close>

text \<open>
  How the library's serving loop ends; \<open>asyncio.CancelledError\<close> is no \<open>Exception\<close>, so it is a constructor of its own.
  \<open>_serve\<close> with a tracker suppresses the cancellation, \<open>_serve\<close> without one logs it and raises it again; any other
  exception is logged as a crash and raised again.
\<close>

datatype served = Served | Served_Cancelled | Served_Raised exc

datatype server_log = Server_Crashed exc | Server_Cancelled

definition serve_tracked :: "served \<Rightarrow> served \<times> server_log list" where
  "serve_tracked r = (case r of
     Served \<Rightarrow> (Served, [])
   | Served_Cancelled \<Rightarrow> (Served, [])
   | Served_Raised e \<Rightarrow> (Served_Raised e, [Server_Crashed e]))"

definition serve_plain :: "served \<Rightarrow> served \<times> server_log list" where
  "serve_plain r = (case r of
     Served \<Rightarrow> (Served, [])
   | Served_Cancelled \<Rightarrow> (Served_Cancelled, [Server_Cancelled])
   | Served_Raised e \<Rightarrow> (Served_Raised e, [Server_Crashed e]))"

text \<open>
  \<open>start_server\<close> with a watchdog, as the service calls it: each attempt of the wait sees the loop's end, if it has ended,
  through \<open>_serve\<close>.  \<open>server_task.result()\<close> raises the task's exception.
\<close>

definition task_result :: "served \<Rightarrow> exc + unit" where
  "task_result r = (case fst (serve_tracked r) of Served_Raised e \<Rightarrow> Inl e | _ \<Rightarrow> Inr ())"

definition start_server :: "real \<Rightarrow> (real \<times> served option \<times> (exc + unit) \<times> (exc + unit)) list \<Rightarrow> (exc + unit) option" where
  "start_server t0 attempts = wait_until_bound (t0 + BIND_TIMEOUT_S)
     (map (\<lambda>(t, ended, connect, closed).
        \<lparr>bt_now = t, bt_server = map_option task_result ended, bt_connect = connect, bt_closed = closed\<rparr>) attempts)"

text \<open>
  A serving loop that ends before the socket is up -- refusing every earlier attempt -- fails the start: with its own
  exception if it raised one, and with \<open>RuntimeError\<close> if it returned or was cancelled.
\<close>

lemma dead_server_fails_start:
  assumes "list_all (\<lambda>(t, ended, connect, closed). t < t0 + BIND_TIMEOUT_S \<and> ended = None \<and> (\<exists>e. connect = Inl e \<and> is_OSError e)) before"
    and "t < t0 + BIND_TIMEOUT_S"
  shows "start_server t0 (before @ (t, Some r, conn, closing) # rest) =
    Some (Inl (case r of Served_Raised e \<Rightarrow> e | _ \<Rightarrow> RuntimeError))"
  using assms
  by (induction before) (auto simp: start_server_def task_result_def serve_tracked_def split: served.split sum.split)

text \<open>A started server: its task was still running when the socket accepted, and it is never a cancelled task.\<close>

lemma started_server_runs:
  assumes "start_server t0 attempts = Some (Inr ())"
  shows "\<exists>t closed. (t, None, Inr (), closed) \<in> set attempts \<and> t < t0 + BIND_TIMEOUT_S"
  using wait_bound_accepts [OF assms [unfolded start_server_def]] by fastforce

lemma tracked_never_cancelled: "fst (serve_tracked r) \<noteq> Served_Cancelled"
  by (simp add: serve_tracked_def split: served.split)

text \<open>
  What an attempt decides, if it decides anything: before the deadline a server task that has ended, then a socket that refuses
  with no \<open>OSError\<close>, then one that accepts; past the deadline, the timeout.
\<close>

definition keeps_waiting :: "real \<Rightarrow> bind_attempt \<Rightarrow> bool" where
  "keeps_waiting deadline a \<longleftrightarrow>
     bt_now a < deadline \<and> bt_server a = None \<and> (\<exists>e. bt_connect a = Inl e \<and> is_OSError e)"

lemma wait_skips: "keeps_waiting deadline a \<Longrightarrow> wait_until_bound deadline (a # as) = wait_until_bound deadline as"
  by (auto simp: keeps_waiting_def)

lemma wait_decided:
  assumes "wait_until_bound deadline as = Some r"
  obtains before a rest where "as = before @ a # rest" and "list_all (keeps_waiting deadline) before"
    and "\<not> keeps_waiting deadline a" and "wait_until_bound deadline [a] = Some r"
proof -
  have "\<exists>before a rest. as = before @ a # rest \<and> list_all (keeps_waiting deadline) before \<and>
      \<not> keeps_waiting deadline a \<and> wait_until_bound deadline [a] = Some r"
    using assms
  proof (induction as)
    case (Cons a as)
    show ?case
    proof (cases "keeps_waiting deadline a")
      case True
      with Cons wait_skips [OF True] obtain before b rest where "as = before @ b # rest" "list_all (keeps_waiting deadline) before"
          "\<not> keeps_waiting deadline b" "wait_until_bound deadline [b] = Some r" by auto
      with True show ?thesis by (intro exI [of _ "a # before"] exI [of _ b] exI [of _ rest]) simp
    next
      case False
      with Cons.prems have "wait_until_bound deadline [a] = Some r"
        by (auto simp: keeps_waiting_def split: if_splits option.splits sum.splits)
      with False show ?thesis by (intro exI [of _ "[]"] exI [of _ a] exI [of _ as]) simp
    qed
  qed simp
  with that show ?thesis by blast
qed

text \<open>
  C21: the wait for the listening socket ends, and how.  Started at \<open>t0\<close>, with every retry a poll interval after the last, it
  has returned or raised within 251 attempts.  The first attempt that does not leave it waiting -- the deadline not reached, the server task
  running, the connection refused with an \<open>OSError\<close> -- decides: past the deadline it raises \<open>TimeoutError\<close>; if the server
  task has ended, that task's exception, or \<open>RuntimeError\<close> if it has none; if the socket refuses in another way, that
  exception; and only if it accepts does the wait return (unless closing the connection raises something other than an
  \<open>OSError\<close>).
\<close>

theorem server_bound_in_time:
  assumes "251 \<le> length as" and "t0 \<le> bt_now (as ! 0)" and "paced as"
  shows "\<exists>before a rest r. as = before @ a # rest \<and> length before \<le> 250 \<and>
    wait_until_bound (t0 + BIND_TIMEOUT_S) as = Some r \<and>
    list_all (\<lambda>b. bt_now b < t0 + BIND_TIMEOUT_S \<and> bt_server b = None \<and> (\<exists>e. bt_connect b = Inl e \<and> is_OSError e)) before \<and>
    (if t0 + BIND_TIMEOUT_S \<le> bt_now a then r = Inl TimeoutError
     else if bt_server a \<noteq> None then r = Inl (case the (bt_server a) of Inl e \<Rightarrow> e | Inr _ \<Rightarrow> RuntimeError)
     else case bt_connect a of
       Inl e \<Rightarrow> \<not> is_OSError e \<and> r = Inl e
     | Inr _ \<Rightarrow> r = (case bt_closed a of Inl e \<Rightarrow> if is_OSError e then Inr () else Inl e | Inr _ \<Rightarrow> Inr ()))"
proof -
  let ?deadline = "t0 + BIND_TIMEOUT_S"
  have late: "?deadline \<le> bt_now (as ! 250)"
    using paced_now [OF assms(3), of 250] assms(1,2) by simp
  with wait_past_deadline [of 250 as ?deadline] assms(1)
  obtain r where r: "wait_until_bound ?deadline as = Some r" by auto
  then obtain before a rest where as: "as = before @ a # rest" and before: "list_all (keeps_waiting ?deadline) before"
      and a: "\<not> keeps_waiting ?deadline a" "wait_until_bound ?deadline [a] = Some r" by (rule wait_decided)
  have "length before \<le> 250"
  proof (rule ccontr)
    assume "\<not> length before \<le> 250"
    then have "keeps_waiting ?deadline (as ! 250)" using before as by (simp add: list_all_length nth_append)
    with late show False by (simp add: keeps_waiting_def)
  qed
  with as r before a show ?thesis
    by (intro exI [of _ before] exI [of _ a] exI [of _ rest] exI [of _ r])
      (auto simp: keeps_waiting_def list_all_iff split: if_splits option.splits sum.splits)
qed

definition refused :: "nat \<Rightarrow> bind_attempt" where
  "refused k = \<lparr>bt_now = of_nat k / 50, bt_server = None, bt_connect = Inl ConnectionError, bt_closed = Inr ()\<rparr>"

lemma server_bound_in_time_witness:
  "wait_until_bound 5 (map refused [0..<251]) = Some (Inl TimeoutError)"
proof -
  let ?as = "map refused [0..<251]"
  have "paced ?as" by (simp add: paced_def refused_def add_divide_distrib)
  then obtain before a rest r where d: "?as = before @ a # rest" "wait_until_bound 5 ?as = Some r"
      "if 5 \<le> bt_now a then r = Inl TimeoutError
       else if bt_server a \<noteq> None then r = Inl (case the (bt_server a) of Inl e \<Rightarrow> e | Inr _ \<Rightarrow> RuntimeError)
       else case bt_connect a of
         Inl e \<Rightarrow> \<not> is_OSError e \<and> r = Inl e
       | Inr _ \<Rightarrow> r = (case bt_closed a of Inl e \<Rightarrow> if is_OSError e then Inr () else Inl e | Inr _ \<Rightarrow> Inr ())"
    using server_bound_in_time [of ?as 0] by (auto simp: refused_def)
  have "a \<in> set ?as" unfolding d(1) by simp
  then obtain k where "a = refused k" by auto
  with d(2,3) show ?thesis by (simp add: refused_def split: if_splits)
qed

end
