(* ===== verification/Config_Types.thy ===== *)
theory Config_Types
  imports Startup
begin

text \<open>
  The types the dataclasses of \<open>src/src/atspi/config.py\<close> declare, as a schema over the loader's objects: a document typed by
  the schema always loads, the loaded configuration is typed, and what \<open>src/src/atspi/__main__.py\<close> does with a
  typed configuration raises only the errors it means to raise.
\<close>

section \<open>The schema\<close>

datatype cfg_type =
    T_Str
  | T_Int
  | T_Bool
  | T_Float
  | T_Opt_Int
  | T_Section "(string \<times> cfg_type) list"

definition ModbusServerType :: "(string \<times> cfg_type) list" where
  "ModbusServerType = [(''host'', T_Str), (''port'', T_Int), (''unit_id'', T_Int)]"

definition HwWatchdogType :: "(string \<times> cfg_type) list" where
  "HwWatchdogType =
     [(''enable_register'', T_Opt_Int), (''enable_expected'', T_Int), (''timeout_register'', T_Opt_Int),
      (''timeout_scale_s'', T_Float), (''timeout_min_s'', T_Float), (''timeout_max_s'', T_Float),
      (''safety_value_register_base'', T_Opt_Int), (''safety_value_count'', T_Int)]"

definition AdamType :: "(string \<times> cfg_type) list" where
  "AdamType =
     [(''host'', T_Str), (''port'', T_Int), (''unit_id'', T_Int), (''debounce_samples'', T_Int),
      (''assumed_mode'', T_Str), (''di_read'', T_Str), (''require_hw_watchdog'', T_Bool),
      (''i_understand_no_crash_backstop'', T_Bool), (''hw_watchdog'', T_Section HwWatchdogType)]"

definition AscoSerialType :: "(string \<times> cfg_type) list" where
  "AscoSerialType =
     [(''port'', T_Str), (''baudrate'', T_Int), (''bytesize'', T_Int), (''parity'', T_Str), (''stopbits'', T_Int),
      (''unit_id'', T_Int), (''timeout_s'', T_Float), (''assumed_mode'', T_Str), (''status_register'', T_Opt_Int),
      (''status_register_count'', T_Int), (''on_normal_bit'', T_Opt_Int), (''on_emergency_bit'', T_Opt_Int),
      (''normal_available_bit'', T_Opt_Int), (''emergency_available_bit'', T_Opt_Int),
      (''transferring_bit'', T_Opt_Int), (''engine_start_bit'', T_Opt_Int)]"

definition ConfigType :: "(string \<times> cfg_type) list" where
  "ConfigType =
     [(''modbus_server'', T_Section ModbusServerType),
      (''io'', T_Section [(''driver'', T_Str), (''adam'', T_Section AdamType), (''asco_serial'', T_Section AscoSerialType)]),
      (''site'', T_Section [(''unit_id'', T_Int)]),
      (''persistence'', T_Section [(''state_file'', T_Str)]),
      (''health'', T_Section [(''enabled'', T_Bool), (''host'', T_Str), (''port'', T_Int)])]"

fun plain_typed :: "cfg_type \<Rightarrow> yaml \<Rightarrow> bool" where
  "plain_typed T_Str (YStr s) = True"
| "plain_typed T_Int (YInt n) = True"
| "plain_typed T_Bool (YBool b) = True"
| "plain_typed T_Float (YFloat x) = True"
| "plain_typed T_Float (YInt n) = True"
| "plain_typed T_Opt_Int (YInt n) = True"
| "plain_typed T_Opt_Int YNull = True"
| "plain_typed _ _ = False"

fun well_typed :: "cfg_type \<Rightarrow> cfg_value \<Rightarrow> bool"
  and fields_typed :: "(string \<times> cfg_type) list \<Rightarrow> fields \<Rightarrow> bool" where
  "well_typed (T_Section ts) (Obj fs) = fields_typed ts fs"
| "well_typed t (Plain v) = plain_typed t v"
| "well_typed _ (Obj fs) = False"
| "fields_typed [] [] = True"
| "fields_typed ((k, t) # ts) ((k', c) # fs) = (k = k' \<and> well_typed t c \<and> fields_typed ts fs)"
| "fields_typed _ _ = False"

text \<open>A document may leave fields out; a key it has must be in the schema, with a value of its type.\<close>

fun doc_typed :: "(string \<times> cfg_type) list \<Rightarrow> (yaml_key \<times> yaml) list \<Rightarrow> bool" where
  "doc_typed ts [] = True"
| "doc_typed ts ((KOther, v) # kvs) = False"
| "doc_typed ts ((KStr k, v) # kvs) =
     ((case map_of ts k of
         None \<Rightarrow> False
       | Some (T_Section sub) \<Rightarrow> (case v of YMap m \<Rightarrow> doc_typed sub m | _ \<Rightarrow> False)
       | Some t \<Rightarrow> plain_typed t v) \<and>
      doc_typed ts kvs)"

section \<open>Loading preserves types\<close>

lemma fields_typed_lookup:
  assumes "fields_typed ts fs" and "map_of ts k = Some t"
  obtains c where "map_of fs k = Some c" and "well_typed t c"
proof -
  from assms have "\<exists>c. map_of fs k = Some c \<and> well_typed t c"
    by (induction ts fs rule: well_typed_fields_typed.induct(2) [where P = "\<lambda>_ _. True"]) (auto split: if_splits)
  with that show ?thesis by blast
qed

lemma fields_typed_update:
  assumes "fields_typed ts fs" and "map_of ts k = Some t" and "well_typed t c"
  shows "fields_typed ts (AList.update k c fs)"
  using assms
  by (induction ts fs rule: well_typed_fields_typed.induct(2) [where P = "\<lambda>_ _. True"]) (auto split: if_splits)

lemma well_typed_cases:
  assumes "well_typed t c"
  obtains ts fs where "t = T_Section ts" "c = Obj fs" "fields_typed ts fs"
  | v where "c = Plain v" "plain_typed t v" "\<And>ts. t \<noteq> T_Section ts"
  using assms by (cases t; cases c) auto

lemma coerce_typed:
  assumes "doc_typed ts kvs" and "fields_typed ts out"
  shows "\<exists>out'. coerce inh out kvs = Inr out' \<and> fields_typed ts out'"
  using assms
proof (induction ts kvs arbitrary: out rule: doc_typed.induct)
  case (3 ts k v kvs)
  then obtain t where t: "map_of ts k = Some t" by (auto split: option.splits)
  obtain c where c: "map_of out k = Some c" "well_typed t c"
    using fields_typed_lookup [OF "3.prems"(2) t] .
  from c(2) show ?case
  proof (cases rule: well_typed_cases)
    case (1 sub fs)
    with "3.prems"(1) t obtain m where v: "v = YMap m" "doc_typed sub m" by (auto split: yaml.splits)
    from "3.IH"(1) [OF t _ v(1) v(2)] 1 obtain fs' where fs': "coerce inh fs m = Inr fs'" "fields_typed sub fs'"
      by blast
    have "fields_typed ts (AList.update k (Obj fs') out)"
      using fields_typed_update [OF "3.prems"(2) t, of "Obj fs'"] 1 fs' by simp
    with "3.IH"(2) "3.prems"(1) c 1 v fs' show ?thesis by simp
  next
    case (2 u)
    then have "plain_typed t v" using "3.prems"(1) t by (auto split: cfg_type.splits)
    then have typed: "well_typed t (Plain v)" by simp
    have "fields_typed ts (AList.update k (Plain v) out)"
      using fields_typed_update [OF "3.prems"(2) t typed] .
    with "3.IH"(2) "3.prems"(1) c 2 show ?thesis by simp
  qed
qed auto

lemma Config_typed: "fields_typed ConfigType Config"
  by (simp add: ConfigType_def ModbusServerType_def AdamType_def HwWatchdogType_def AscoSerialType_def
      Config_def ModbusServerCfg_def IOCfg_def AdamCfg_def HwWatchdogCfg_def AscoSerialCfg_def SiteCfg_def
      PersistenceCfg_def HealthCfg_def)

section \<open>Reading a typed configuration\<close>

fun type_at :: "string list \<Rightarrow> cfg_type \<Rightarrow> cfg_type option" where
  "type_at [] t = Some t"
| "type_at (k # ks) (T_Section ts) = (case map_of ts k of None \<Rightarrow> None | Some t \<Rightarrow> type_at ks t)"
| "type_at (k # ks) t = None"

lemma typed_path:
  assumes "type_at path T = Some t" and "well_typed T c"
  shows "\<exists>v. cfg_path path c = Inr v \<and> well_typed t v"
  using assms
proof (induction path T arbitrary: c rule: type_at.induct)
  case (2 k ks ts)
  then obtain t' where t': "map_of ts k = Some t'" "type_at ks t' = Some t" by (auto split: option.splits)
  from "2.prems"(2) obtain fs where "c = Obj fs" "fields_typed ts fs" by (cases c) simp_all
  moreover from this(2) obtain c' where "map_of fs k = Some c'" "well_typed t' c'"
    using fields_typed_lookup t'(1) by blast
  ultimately show ?case using "2.IH" [OF t'(1) t'(2)] by simp
qed auto

text \<open>An accessor at a path of its type returns.\<close>

fun_cases well_typed_StrE: "well_typed T_Str c"
fun_cases well_typed_IntE: "well_typed T_Int c"
fun_cases well_typed_OptE: "well_typed T_Opt_Int c"
fun_cases well_typed_FloatE: "well_typed T_Float c"

fun_cases plain_StrE: "plain_typed T_Str v"
fun_cases plain_IntE: "plain_typed T_Int v"
fun_cases plain_OptE: "plain_typed T_Opt_Int v"
fun_cases plain_FloatE: "plain_typed T_Float v"

lemma typed_reads:
  assumes "well_typed T cfg"
  shows "type_at path T = Some T_Str \<Longrightarrow> \<exists>s. string_at path cfg = Inr s"
    and "type_at path T = Some T_Int \<Longrightarrow> \<exists>n. int_at path cfg = Inr n"
    and "type_at path T = Some T_Opt_Int \<Longrightarrow> \<exists>n. opt_int_at path cfg = Inr n"
    and "type_at path T = Some T_Float \<Longrightarrow> \<exists>x. real_at path cfg = Inr x"
    and "type_at path T = Some t \<Longrightarrow> \<exists>b. truthy_at path cfg = Inr b"
proof -
  note path = typed_path [OF _ assms]
  show "type_at path T = Some T_Str \<Longrightarrow> \<exists>s. string_at path cfg = Inr s"
    by (drule path) (auto simp: string_at_def elim!: well_typed_StrE plain_StrE)
  show "type_at path T = Some T_Int \<Longrightarrow> \<exists>n. int_at path cfg = Inr n"
    by (drule path) (auto simp: int_at_def elim!: well_typed_IntE plain_IntE)
  show "type_at path T = Some T_Opt_Int \<Longrightarrow> \<exists>n. opt_int_at path cfg = Inr n"
    by (drule path) (auto simp: opt_int_at_def elim!: well_typed_OptE plain_OptE)
  show "type_at path T = Some T_Float \<Longrightarrow> \<exists>x. real_at path cfg = Inr x"
    by (drule path) (auto simp: real_at_def elim!: well_typed_FloatE plain_FloatE)
  show "type_at path T = Some t \<Longrightarrow> \<exists>b. truthy_at path cfg = Inr b"
    by (drule path) (auto simp: truthy_at_def)
qed

section \<open>What a typed configuration can fail with\<close>

abbreviation typed_config :: "cfg_value \<Rightarrow> bool" where
  "typed_config \<equiv> well_typed (T_Section ConfigType)"

lemmas schema_defs = ConfigType_def ModbusServerType_def AdamType_def HwWatchdogType_def AscoSerialType_def

definition fails_only :: "(exc \<Rightarrow> bool) \<Rightarrow> exc + 'a \<Rightarrow> bool" where
  "fails_only R r \<longleftrightarrow> (\<forall>e. r = Inl e \<longrightarrow> R e)"

lemma fails_only_Inr [simp]: "fails_only R (Inr x)"
  by (simp add: fails_only_def)

lemma fails_only_Inl [simp]: "fails_only R (Inl e) = R e"
  by (simp add: fails_only_def)

lemma fails_only_read:
  "\<exists>x. r = Inr x \<Longrightarrow> (\<And>x. fails_only R (f x)) \<Longrightarrow> fails_only R (bind_exc r f)"
  by auto

lemma fails_only_bind:
  "fails_only R r \<Longrightarrow> (\<And>x. r = Inr x \<Longrightarrow> fails_only R (f x)) \<Longrightarrow> fails_only R (bind_exc r f)"
  by (cases r) auto

lemma fails_only_if: "fails_only R a \<Longrightarrow> fails_only R b \<Longrightarrow> fails_only R (if c then a else b)"
  by simp

lemma typed_hw_watchdog:
  assumes "typed_config cfg"
  shows "fails_only R (build_hw_watchdog_config cfg)"
  unfolding build_hw_watchdog_config_def Let_def
  by (intro fails_only_read typed_reads [OF assms] fails_only_Inr) (simp_all add: schema_defs)

lemma typed_adam:
  assumes "typed_config cfg"
  shows "fails_only (\<lambda>e. e = ValueError) (build_adam_driver cfg w)"
proof -
  have init: "fails_only (\<lambda>e. e = ValueError) (adam_init uid n m di req wd w)" for uid n m di req wd
    by (simp add: adam_init_def)
  show ?thesis
    unfolding build_adam_driver_def
    by (intro fails_only_read fails_only_bind typed_hw_watchdog [OF assms] init typed_reads(1,2) [OF assms]
        typed_reads(5) [OF assms, where t = T_Bool]) (simp_all add: schema_defs)
qed

lemma typed_asco:
  assumes "typed_config cfg"
  shows "fails_only R (build_asco_config cfg)"
  unfolding build_asco_config_def Let_def
  by (intro fails_only_read typed_reads(1-3) [OF assms] fails_only_Inr) (simp_all add: schema_defs)

lemma asco_init_fails: "fails_only (\<lambda>e. e = ValueError) (asco_init ac u)"
  by (simp add: asco_init_def asco_validate_def Let_def)

lemma typed_driver:
  assumes "typed_config cfg"
  shows "fails_only (\<lambda>e. e = ValueError) (build_io_driver cfg u w)"
proof -
  have driver: "\<exists>v. cfg_path [''io'', ''driver''] cfg = Inr v"
    using typed_path [OF _ assms, of "[''io'', ''driver'']" T_Str] by (auto simp: schema_defs)
  have adam: "fails_only (\<lambda>e. e = ValueError) (bind_exc (build_adam_driver cfg w) (\<lambda>d. Inr (f d)))" for f
    by (rule fails_only_bind [OF typed_adam [OF assms]]) (rule fails_only_Inr)
  have hybrid: "fails_only (\<lambda>e. e = ValueError)
      (bind_exc (build_asco_config cfg) (\<lambda>ac. bind_exc (asco_init ac u) (\<lambda>reader.
        bind_exc (build_adam_driver cfg w) (\<lambda>d. Inr (f reader d)))))" for f
    by (rule fails_only_bind [OF typed_asco [OF assms]], rule fails_only_bind [OF asco_init_fails],
        rule fails_only_bind [OF typed_adam [OF assms]], rule fails_only_Inr)
  show ?thesis
    unfolding build_io_driver_def
    by (rule fails_only_read [OF driver], rule fails_only_if, rule fails_only_Inr, rule fails_only_if, rule adam,
        rule fails_only_if, rule hybrid, simp only: fails_only_Inl)
qed

lemma typed_waiver:
  assumes "typed_config cfg"
  shows "fails_only (\<lambda>e. e = ConfigError) (enforce_hw_watchdog_waiver cfg)"
proof -
  have hardware: "\<exists>b. hardware_driver [''io'', ''driver''] cfg = Inr b"
    using typed_path [OF _ assms, of "[''io'', ''driver'']" T_Str] by (auto simp: schema_defs hardware_driver_def)
  have required: "\<exists>b. truthy_at [''io'', ''adam'', ''require_hw_watchdog''] cfg = Inr b"
    by (rule typed_reads(5) [OF assms, where t = T_Bool]) (simp add: schema_defs)
  have acknowledged: "\<exists>b. truthy_at [''io'', ''adam'', ''i_understand_no_crash_backstop''] cfg = Inr b"
    by (rule typed_reads(5) [OF assms, where t = T_Bool]) (simp add: schema_defs)
  show ?thesis
    unfolding enforce_hw_watchdog_waiver_def
    by (rule fails_only_read [OF hardware], rule fails_only_if, rule fails_only_Inr,
        rule fails_only_read [OF required], rule fails_only_if, rule fails_only_Inr,
        rule fails_only_read [OF acknowledged], rule fails_only_if, simp_all only: fails_only_Inr fails_only_Inl)
qed

text \<open>
  C34: a typed document starts or says why not.  A document whose keys are all declared and whose values have the declared
  types always loads, whatever it leaves out, and the loaded configuration has every declared field with
  its type.  With it the waiver check raises nothing but \<open>ConfigError\<close> and building the driver nothing but
  \<open>ValueError\<close> -- never an attribute or type error, whichever driver is named -- and the site's id and the state
  file's path can be read.
\<close>

theorem typed_document_starts:
  assumes "doc_typed ConfigType kvs"
  shows "\<exists>loaded. load_config inh (Some (Inr (YMap kvs))) = Inr loaded \<and> fields_typed ConfigType loaded \<and>
    enforce_hw_watchdog_waiver (Obj loaded) \<in> {Inr (), Inl ConfigError} \<and>
    (\<forall>e. build_io_driver (Obj loaded) u w = Inl e \<longrightarrow> e = ValueError) \<and>
    (\<exists>n path. int_at [''site'', ''unit_id''] (Obj loaded) = Inr n \<and>
      string_at [''persistence'', ''state_file''] (Obj loaded) = Inr path)"
proof -
  obtain loaded where loaded: "coerce inh Config kvs = Inr loaded" "fields_typed ConfigType loaded"
    using coerce_typed [OF assms Config_typed] by blast
  then have load: "load_config inh (Some (Inr (YMap kvs))) = Inr loaded"
    by (cases kvs) (simp_all add: load_config_def)
  have typed: "typed_config (Obj loaded)" using loaded(2) by simp
  from typed_reads(2) [OF typed, of "[''site'', ''unit_id'']"] typed_reads(1) [OF typed, of "[''persistence'', ''state_file'']"]
  have "\<exists>n path. int_at [''site'', ''unit_id''] (Obj loaded) = Inr n \<and>
      string_at [''persistence'', ''state_file''] (Obj loaded) = Inr path"
    by (simp add: schema_defs)
  moreover have "enforce_hw_watchdog_waiver (Obj loaded) \<in> {Inr (), Inl ConfigError}"
    using typed_waiver [OF typed] by (cases "enforce_hw_watchdog_waiver (Obj loaded)") (auto simp: fails_only_def)
  ultimately show ?thesis
    using load loaded(2) typed_driver [OF typed, of u w] by (auto simp: fails_only_def)
qed

lemma typed_document_starts_witness:
  "\<exists>loaded. load_config no_inherited (Some (Inr (YMap sample_document))) = Inr loaded \<and> fields_typed ConfigType loaded"
  using typed_document_starts [of sample_document no_inherited "()" "()"]
  by (simp add: sample_document_def ConfigType_def) blast

end
