(* ===== verification/Scenarios.thy ===== *)
theory Scenarios
  imports Service_Safety
begin

text \<open>
  The shortest session of a service in which a command reaches the driver, on any driver: the startup reset lands, one
  sample is published, a client writes a command register and the intent is dispatched.
\<close>

definition first_command :: "int \<Rightarrow> int \<Rightarrow> service_event list" where
  "first_command address val =
     [Ev_Sample_Reset, Ev_Sample_Inputs, Ev_Sample_Outputs 0, Ev_Set_Values (address + 1) [val], Ev_Dispatch 0]"

lemma first_command_runs:
  assumes start: "sy_sampling sy = At_Start" "sy_dispatch sy = []" "\<not> sy_outputs_reset sy"
    and reset: "op_release_all_outputs ops (sy_driver sy) = (Inr (), d1)"
    and inputs: "op_read_inputs ops d1 = (Inr i, d2)" and auto: "in_ats_mode i = ''auto''"
    and outputs: "op_read_output_state ops d2 = (Inr out, d3)"
    and command: "command_for address val = Some intent"
  obtains sy' where "service_run env ops (first_command address val) sy sy'"
    and "sy_driver sy' = snd (op_drive_outputs ops (ci_test_pulse_ms intent) (ci_inhibit intent)
      (ci_force_transfer intent) (ci_bypass_delay_pulse_ms intent) d3)"
proof -
  define s1 where "s1 = sample_reset ops sy"
  have s1: "sy_driver s1 = d1" "sy_sampling s1 = At_Inputs" "sy_dispatch s1 = []"
    using start reset by (simp_all add: s1_def sample_reset_def)
  define s2 where "s2 = sample_inputs ops s1"
  have s2: "sy_driver s2 = d2" "sy_sampling s2 = At_Outputs i" "sy_dispatch s2 = []"
    using s1 inputs by (simp_all add: s2_def sample_inputs_def)
  define s3 where "s3 = sample_outputs ops 0 i s2"
  have s3: "sy_driver s3 = d3" "sy_dispatch s3 = []"
    using s2 outputs by (simp_all add: s3_def sample_driver)
  have mode: "sn_ats_mode (rs_snap (sy_store s3)) = ''auto''"
    using s2 outputs auto
    by (simp add: s3_def sample_outputs_def publish_sample_def Let_def publish_inputs_def apply_input_snapshot_def split: prod.split)
  define s4 where "s4 = commanded_by (address + 1) [val] s3"
  have s4: "sy_dispatch s4 = [intent]" "sy_driver s4 = d3"
    using command mode s3
    by (auto simp: s4_def commanded_by_def set_values_def write_register_def allowed_modes_for_addr_def command_for_def split: if_splits)
  let ?s5 = "dispatch_command ops (sy_dispatch s4 ! 0) (s4\<lparr>sy_dispatch := take 0 (sy_dispatch s4) @ drop (Suc 0) (sy_dispatch s4)\<rparr>)"
  have "service_step env ops Ev_Sample_Reset sy s1" "service_step env ops Ev_Sample_Inputs s1 s2"
    "service_step env ops (Ev_Sample_Outputs 0) s2 s3" "service_step env ops (Ev_Set_Values (address + 1) [val]) s3 s4"
    "service_step env ops (Ev_Dispatch 0) s4 ?s5"
    unfolding s1_def s2_def s3_def s4_def
    by (rule service_step.intros; use start s1 s2 s4 in \<open>simp add: s1_def s2_def s3_def s4_def\<close>)+
  then have "service_run env ops (first_command address val) sy ?s5"
    unfolding first_command_def by (blast intro: service_run.intros)
  then show ?thesis by (rule that) (simp add: dispatch_driver s4)
qed

end
