(* ===== verification/Lifecycle.thy ===== *)
theory Lifecycle
  imports Deployment Scenarios Server_Start
begin

text \<open>
  \<open>_amain\<close> and \<open>main\<close> of \<open>src/src/atspi/__main__.py\<close> around the tasks.  \<open>Deployment\<close> has the
  start up to the tasks, \<open>Service\<close> the tasks; here are the messages of the start, what \<open>_amain\<close> does between
  the tasks' creation and its wait, the throttle of the sampling loop's failure messages, and the choice of \<open>main\<close>.
  \<open>Shutdown\<close> has the ways a process ends.
\<close>

section \<open>What the start logs\<close>

definition DEFAULT_SITE_UNIT_ID :: int where "DEFAULT_SITE_UNIT_ID = 1"

datatype startup_log = Default_Unit_Id int | Not_Connected | Fail_Safe_Not_Verified | Fail_Safe_Waived

definition warn_if_default_unit_id :: "int \<Rightarrow> startup_log list" where
  "warn_if_default_unit_id unit_id =
     (if unit_id = DEFAULT_SITE_UNIT_ID then [Default_Unit_Id unit_id] else [])"

text \<open>\<open>_amain\<close>'s messages on the driver it has built and connected; the waiver is read only where the self-check passed.\<close>

definition log_hw_status :: "cfg_value \<Rightarrow> bool \<Rightarrow> exc + startup_log list" where
  "log_hw_status cfg hw_ok =
     (if \<not> hw_ok then Inr [Fail_Safe_Not_Verified]
      else bind_exc (hardware_driver [''io'', ''driver''] cfg) (\<lambda>hw.
           if \<not> hw then Inr []
           else bind_exc (truthy_at [''io'', ''adam'', ''require_hw_watchdog''] cfg) (\<lambda>required.
           Inr (if required then [] else [Fail_Safe_Waived]))))"

definition startup_logs :: "cfg_value \<Rightarrow> bool \<Rightarrow> bool \<Rightarrow> exc + startup_log list" where
  "startup_logs cfg link_ok hw_ok =
     bind_exc (int_at [''site'', ''unit_id''] cfg) (\<lambda>unit_id.
     bind_exc (log_hw_status cfg hw_ok) (\<lambda>hw.
     Inr (warn_if_default_unit_id unit_id @ (if link_ok then [] else [Not_Connected]) @ hw)))"

text \<open>
  The waiver is never silent: a relay driver that is armed before any readback has verified it -- it was built from a
  configuration that waives the readback -- is reported as waived.
\<close>

lemma waiver_is_logged:
  assumes "build_io_driver cfg u w = Inr b" and "outputs_of b = Some d" and "ad_hw_watchdog_ok d"
    and "startup_logs cfg link_ok True = Inr logs"
  shows "Fail_Safe_Waived \<in> set logs"
proof -
  obtain c where c: "cfg_path [''io'', ''driver''] cfg = Inr c"
    using assms(1) by (auto simp: build_io_driver_def split: sum.splits)
  from assms(1,2) c obtain "build_adam_driver cfg w = Inr d" "c = Plain (YStr ''adam'') \<or> c = Plain (YStr ''hybrid'')"
    by (auto simp: build_io_driver_def split: sum.splits if_splits)
  with build_adam_driver_armed(1) [of cfg w d] assms(3,4) c show ?thesis
    by (auto simp: startup_logs_def log_hw_status_def hardware_driver_def split: sum.splits)
qed

section \<open>The sampling loop's failure messages\<close>

definition SAMPLING_FAILURE_REMINDER_S :: real where "SAMPLING_FAILURE_REMINDER_S = 30"

text \<open>
  The loop's locals \<open>consecutive_failures\<close> and \<open>last_failure_log_mono\<close> at a failing cycle: is the failure logged, and
  the locals after it.
\<close>

definition log_failure :: "real \<Rightarrow> int \<times> real \<Rightarrow> bool \<times> int \<times> real" where
  "log_failure now_mono st =
     (case st of (consecutive_failures, last_failure_log_mono) \<Rightarrow>
      let consecutive_failures = consecutive_failures + 1 in
      if consecutive_failures = 1 then (True, consecutive_failures, now_mono)
      else if now_mono - last_failure_log_mono \<ge> SAMPLING_FAILURE_REMINDER_S then (True, consecutive_failures, now_mono)
      else (False, consecutive_failures, last_failure_log_mono))"

text \<open>The times at which a streak of failures, at the given times, is logged.\<close>

fun failure_logs :: "int \<times> real \<Rightarrow> real list \<Rightarrow> real list" where
  "failure_logs st [] = []"
| "failure_logs st (t # ts) =
     (case log_failure t st of (logged, st') \<Rightarrow> (if logged then [t] else []) @ failure_logs st' ts)"

lemma failure_logs_spaced:
  assumes "0 < n"
  shows "sorted_wrt (\<lambda>a b. a + SAMPLING_FAILURE_REMINDER_S \<le> b) (failure_logs (n, t0) ts) \<and>
    (\<forall>t\<in>set (failure_logs (n, t0) ts). t0 + SAMPLING_FAILURE_REMINDER_S \<le> t)"
  using assms
proof (induction ts arbitrary: n t0)
  case (Cons t ts)
  show ?case
  proof (cases "t - t0 \<ge> SAMPLING_FAILURE_REMINDER_S")
    case True
    with Cons.IH [of "n + 1" t] Cons.prems show ?thesis
      by (auto simp: log_failure_def Let_def SAMPLING_FAILURE_REMINDER_S_def)
  next
    case False
    with Cons.IH [of "n + 1" t0] Cons.prems show ?thesis by (simp add: log_failure_def Let_def)
  qed
qed simp

text \<open>The first failure of a streak is logged at once, and no two of its messages are less than 30 s apart.\<close>

lemma failure_streak_logged:
  "\<exists>rest. failure_logs (0, t0) (t # ts) = t # rest \<and>
    sorted_wrt (\<lambda>a b. a + SAMPLING_FAILURE_REMINDER_S \<le> b) (t # rest)"
  using failure_logs_spaced [of 1 t ts] by (simp add: log_failure_def Let_def)

section \<open>Between the tasks' creation and the wait\<close>

text \<open>The health endpoint is optional: not starting it is an error message, unless the exception is no \<open>OSError\<close>.\<close>

definition start_health :: "bool \<Rightarrow> exc + unit \<Rightarrow> exc + health_server option" where
  "start_health enabled started =
     (if \<not> enabled then Inr None
      else case start_health_server started of
        Inr h \<Rightarrow> Inr (Some h)
      | Inl e \<Rightarrow> if is_OSError e then Inr None else Inl e)"

text \<open>
  \<open>go_live\<close>: starting the server (\<open>bound\<close>: what \<open>_wait_until_bound\<close> made of it), the health endpoint (\<open>started\<close>: its
  socket) and the signal handlers (\<open>signals\<close>).  The result is the health server, if there is one.
\<close>

definition go_live :: "cfg_value \<Rightarrow> exc + unit \<Rightarrow> exc + unit \<Rightarrow> exc + unit \<Rightarrow> exc + health_server option" where
  "go_live cfg bound started signals =
     bind_exc (cfg_path [''modbus_server'', ''host''] cfg) (\<lambda>_.
     bind_exc (cfg_path [''modbus_server'', ''port''] cfg) (\<lambda>_.
     bind_exc (cfg_path [''modbus_server'', ''unit_id''] cfg) (\<lambda>_.
     bind_exc bound (\<lambda>_.
     bind_exc (truthy_at [''health'', ''enabled''] cfg) (\<lambda>enabled.
     bind_exc (start_health enabled started) (\<lambda>health_server.
     bind_exc signals (\<lambda>_.
     Inr health_server)))))))"

section \<open>Choosing what to run\<close>

text \<open>
  \<open>main\<close>: the exit status of the one-shot the arguments ask for, the export first, else of the service.  The parser
  lets at most one of the two be given; an empty path counts as not given.
\<close>

definition arg_given :: "string option \<Rightarrow> bool" where
  "arg_given arg \<longleftrightarrow> (case arg of None \<Rightarrow> False | Some path \<Rightarrow> path \<noteq> [])"

definition main :: "string option \<Rightarrow> string option \<Rightarrow> (string \<Rightarrow> 'r) \<Rightarrow> (string \<Rightarrow> 'r) \<Rightarrow> 'r \<Rightarrow> 'r" where
  "main export_path import_path run_export run_import run_service =
     (if arg_given export_path then run_export (the export_path)
      else if arg_given import_path then run_import (the import_path)
      else run_service)"

end
