(* ===== verification/Shutdown.thy ===== *)
theory Shutdown
  imports Lifecycle
begin

text \<open>
  How a process ends: \<open>_amain\<close> of \<open>src/src/atspi/__main__.py\<close> from the moment its wait is over.  It stops the health server, cancels
  its tasks, releases the outputs and closes the driver, in this order; what else may happen in between depends on which of them
  it has got to (\<open>exit_step\<close>).  \<open>process\<close> is the whole life of a process, from its configuration to its result.
\<close>

section \<open>The steps of the shutdown\<close>

text \<open>
  \<open>HealthServer.stop\<close> waits on the event loop, so while it does nothing happens but what the health server's own thread does; its
  argument is what that thread has done since.  From the cancellation of the tasks on, what still moves are the
  connections the server has accepted, the dispatch tasks and the driver's own tasks (what the unit did meanwhile shows
  in the driver events).
\<close>

datatype exit_phase = Health_Stopping "http_event list" | Tasks_Cancelled | Outputs_Released | Driver_Closed "exc + unit"

datatype exit_event = Health_Event http_event | Health_Returns | Leftover service_event | Release_Outputs | Close_Driver

text \<open>\<open>ex_released\<close>: whether the shutdown's release has run and returned.\<close>

record 's exiting =
  ex_phase :: exit_phase
  ex_health :: "health_server option"
  ex_service :: "'s service"
  ex_released :: bool

fun outlives_tasks :: "service_event \<Rightarrow> bool" where
  "outlives_tasks (Ev_Tick_Begin t) = False"
| "outlives_tasks Ev_Tick_End = False"
| "outlives_tasks Ev_Sample_Reset = False"
| "outlives_tasks Ev_Sample_Inputs = False"
| "outlives_tasks (Ev_Sample_Outputs w) = False"
| "outlives_tasks _ = True"

definition exit_begin :: "health_server option \<Rightarrow> 's service \<Rightarrow> 's exiting" where
  "exit_begin health_server sy =
     \<lparr>ex_phase = Health_Stopping [], ex_health = health_server, ex_service = sy, ex_released = False\<rparr>"

inductive exit_step :: "'u modbus_api \<Rightarrow> 'w modbus_api \<Rightarrow> exit_event \<Rightarrow>
    ('u, 'w) built_driver exiting \<Rightarrow> ('u, 'w) built_driver exiting \<Rightarrow> bool"
  for serial tcp where
  Health_Moves: "ex_phase x = Health_Stopping es \<Longrightarrow> ex_health x = Some h \<Longrightarrow>
    http_run (es @ [e]) (h\<lparr>hs_stop_requested := True\<rparr>) \<noteq> None \<Longrightarrow>
    exit_step serial tcp (Health_Event e) x (x\<lparr>ex_phase := Health_Stopping (es @ [e])\<rparr>)"
| Health_Stopped: "ex_phase x = Health_Stopping es \<Longrightarrow> ex_health x = Some h \<Longrightarrow> health_server_stop es h = Some h' \<Longrightarrow>
    exit_step serial tcp Health_Returns x (x\<lparr>ex_phase := Tasks_Cancelled, ex_health := Some h'\<rparr>)"
| No_Health: "ex_phase x = Health_Stopping es \<Longrightarrow> ex_health x = None \<Longrightarrow>
    exit_step serial tcp Health_Returns x (x\<lparr>ex_phase := Tasks_Cancelled\<rparr>)"
| Leftover: "ex_phase x \<in> {Tasks_Cancelled, Outputs_Released} \<Longrightarrow> outlives_tasks e \<Longrightarrow>
    service_step (built_env tcp) (built_ops serial tcp) e (ex_service x) sy \<Longrightarrow>
    exit_step serial tcp (Leftover e) x (x\<lparr>ex_service := sy\<rparr>)"
| Release: "ex_phase x = Tasks_Cancelled \<Longrightarrow>
    shutdown_release (built_release_all_outputs tcp) timed_out (sy_driver (ex_service x)) = (Inr (), d) \<Longrightarrow>
    exit_step serial tcp Release_Outputs x
      (x\<lparr>ex_phase := Outputs_Released, ex_service := (ex_service x)\<lparr>sy_driver := d\<rparr>,
        ex_released := timed_out = None \<and> fst (built_release_all_outputs tcp (sy_driver (ex_service x))) = Inr ()\<rparr>)"
| Close: "ex_phase x = Outputs_Released \<Longrightarrow> built_close serial tcp (sy_driver (ex_service x)) = (close_result, d) \<Longrightarrow>
    exit_step serial tcp Close_Driver x
      (x\<lparr>ex_phase := Driver_Closed close_result, ex_service := (ex_service x)\<lparr>sy_driver := d\<rparr>\<rparr>)"

inductive exit_run :: "'u modbus_api \<Rightarrow> 'w modbus_api \<Rightarrow> exit_event list \<Rightarrow>
    ('u, 'w) built_driver exiting \<Rightarrow> ('u, 'w) built_driver exiting \<Rightarrow> bool"
  for serial tcp where
  Stay: "exit_run serial tcp [] x x"
| Next: "exit_step serial tcp e x x' \<Longrightarrow> exit_run serial tcp es x' x'' \<Longrightarrow> exit_run serial tcp (e # es) x x''"

inductive_cases exit_step_releaseE: "exit_step serial tcp Release_Outputs x x'"
inductive_cases exit_run_ConsE: "exit_run serial tcp (e # es) x x''"

lemma exit_run_split:
  "exit_run serial tcp (es @ es') x x'' \<Longrightarrow> \<exists>x'. exit_run serial tcp es x x' \<and> exit_run serial tcp es' x' x''"
  by (induction es arbitrary: x) (fastforce elim: exit_run_ConsE intro: exit_run.intros)+

section \<open>The life of a process\<close>

text \<open>What the health server, if there is one, has served by the time it is asked to stop.\<close>

definition health_after :: "http_event list \<Rightarrow> health_server option \<Rightarrow> health_server option \<Rightarrow> bool" where
  "health_after served started asked \<longleftrightarrow>
     (case started of
        None \<Rightarrow> served = [] \<and> asked = None
      | Some h \<Rightarrow> http_run served h \<noteq> None \<and> asked = http_run served h)"

definition awaited_tasks :: "finished_task set" where
  "awaited_tasks = {Stop_Waiter, Critical ''sampling'', Critical ''safety-watchdog'', Critical ''modbus-server''}"

text \<open>
  \<open>shutting_down serial tcp inh document u w disk acc m0 w0 finished served sy exits x\<close>: a process on this configuration and
  these devices has been woken by the end of the tasks \<open>finished\<close>, with the service as \<open>sy\<close> and its health server
  having served \<open>served\<close>, and has come in its shutdown through \<open>exits\<close> to \<open>x\<close>.
\<close>

inductive shutting_down ::
    "'u modbus_api \<Rightarrow> 'w modbus_api \<Rightarrow> inherited \<Rightarrow> (exc + yaml) option \<Rightarrow> 'u \<Rightarrow> 'w \<Rightarrow> fs \<Rightarrow> access \<Rightarrow> real \<Rightarrow> int \<Rightarrow>
      finished_task list \<Rightarrow> http_event list \<Rightarrow> ('u, 'w) built_driver service \<Rightarrow> exit_event list \<Rightarrow>
      ('u, 'w) built_driver exiting \<Rightarrow> bool"
  for serial tcp inh document u w disk acc m0 w0 where
  Woken: "start_service serial tcp inh document u w disk acc m0 w0 = Inr sy0 \<Longrightarrow>
    load_config inh document = Inr loaded \<Longrightarrow>
    service_run (built_env tcp) (built_ops serial tcp) es sy0 sy \<Longrightarrow>
    go_live (Obj loaded) bound started signals = Inr health_server \<Longrightarrow>
    finished \<noteq> [] \<Longrightarrow> set finished \<subseteq> awaited_tasks \<Longrightarrow>
    health_after served health_server asked \<Longrightarrow>
    exit_run serial tcp exits (exit_begin asked sy) x \<Longrightarrow>
    shutting_down serial tcp inh document u w disk acc m0 w0 finished served sy exits x"

text \<open>
  \<open>process \<dots> result driver finished released exits\<close>: the process can end with this exit code or exception, leaving the driver as
  \<open>driver\<close> (if there is one); \<open>released\<close> is whether the shutdown's release has run and returned.
\<close>

inductive process ::
    "'u modbus_api \<Rightarrow> 'w modbus_api \<Rightarrow> inherited \<Rightarrow> (exc + yaml) option \<Rightarrow> 'u \<Rightarrow> 'w \<Rightarrow> fs \<Rightarrow> access \<Rightarrow> real \<Rightarrow> int \<Rightarrow>
      exc + int \<Rightarrow> ('u, 'w) built_driver option \<Rightarrow> finished_task list \<Rightarrow> bool \<Rightarrow> exit_event list \<Rightarrow> bool"
  for serial tcp inh document u w disk acc m0 w0 where
  Not_Started: "start_service serial tcp inh document u w disk acc m0 w0 = Inl e \<Longrightarrow>
    process serial tcp inh document u w disk acc m0 w0 (Inl e) None [] False []"
| Not_Live: "start_service serial tcp inh document u w disk acc m0 w0 = Inr sy0 \<Longrightarrow>
    load_config inh document = Inr loaded \<Longrightarrow>
    service_run (built_env tcp) (built_ops serial tcp) es sy0 sy \<Longrightarrow>
    go_live (Obj loaded) bound started signals = Inl e \<Longrightarrow>
    process serial tcp inh document u w disk acc m0 w0 (Inl e) (Some (sy_driver sy)) [] False []"
| Stopped: "shutting_down serial tcp inh document u w disk acc m0 w0 finished served sy exits x \<Longrightarrow>
    ex_phase x = Driver_Closed close_result \<Longrightarrow>
    process serial tcp inh document u w disk acc m0 w0
      (case close_result of Inl e \<Rightarrow> Inl e | Inr _ \<Rightarrow> Inr (exit_code (shutdown_reason finished)))
      (Some (sy_driver (ex_service x))) finished (ex_released x) exits"

section \<open>What the exit leaves\<close>

text \<open>What happened behind the shutdown's release.\<close>

fun leftovers :: "exit_event list \<Rightarrow> service_event list" where
  "leftovers [] = []"
| "leftovers (Leftover e # es) = e # leftovers es"
| "leftovers (_ # es) = leftovers es"

fun after_release :: "exit_event list \<Rightarrow> service_event list" where
  "after_release [] = []"
| "after_release (Release_Outputs # es) = leftovers es"
| "after_release (_ # es) = after_release es"

definition all_commanded_off :: "('u, 'w) built_driver \<Rightarrow> bool" where
  "all_commanded_off d \<longleftrightarrow> (\<forall>out. built_commanded d out = Some False)"

text \<open>Nothing that outlives the tasks asserts an output but a dispatch.\<close>

lemma leftover_keeps_off:
  assumes "service_step (built_env tcp) (built_ops serial tcp) e sy sy'" and "outlives_tasks e" and "\<not> dispatches e"
    and "all_commanded_off (sy_driver sy)"
  shows "all_commanded_off (sy_driver sy')"
  using assms
proof (induction rule: service_step.induct)
  case (Driver sy d)
  then show ?case using built_env_keeps_off unfolding all_commanded_off_def by fastforce
qed simp_all

text \<open>The release has been made and the outputs are off since, where it returned.\<close>

definition off_since_release :: "('u, 'w) built_driver exiting \<Rightarrow> bool" where
  "off_since_release x \<longleftrightarrow>
     ((\<exists>es. ex_phase x = Health_Stopping es) \<or> ex_phase x = Tasks_Cancelled) \<and> \<not> ex_released x \<or>
     (ex_phase x = Outputs_Released \<or> (\<exists>r. ex_phase x = Driver_Closed r)) \<and>
       (ex_released x \<longrightarrow> all_commanded_off (sy_driver (ex_service x)))"

lemma off_since_release_step:
  assumes "exit_step serial tcp e x x'" and "off_since_release x"
    and "\<And>s. ex_phase x = Outputs_Released \<Longrightarrow> e = Leftover s \<Longrightarrow> \<not> dispatches s"
  shows "off_since_release x'"
  using assms
proof (induction rule: exit_step.induct)
  case (Leftover x e sy)
  then show ?case using leftover_keeps_off [OF Leftover(3,2)] by (auto simp: off_since_release_def)
next
  case (Release x timed_out d)
  have "built_release_all_outputs tcp (sy_driver (ex_service x)) = (Inr (), d)"
    if "timed_out = None" "fst (built_release_all_outputs tcp (sy_driver (ex_service x))) = Inr ()"
    using Release(2) that by (auto simp: shutdown_release_def catching_def ret_def split: prod.splits sum.splits)
  then show ?case using built.release_all by (auto simp: off_since_release_def all_commanded_off_def)
next
  case (Close x close_result d)
  then have d: "d = snd (built_close serial tcp (sy_driver (ex_service x)))" by simp
  show ?case using Close(1,3) unfolding d
    by (auto simp: off_since_release_def all_commanded_off_def built.close_frame)
qed (auto simp: off_since_release_def)

lemma exit_step_phase:
  assumes "exit_step serial tcp e x x'"
  shows "ex_phase x' = Outputs_Released \<longleftrightarrow> e = Release_Outputs \<or> ex_phase x = Outputs_Released \<and> (\<exists>s. e = Leftover s)"
    and "ex_phase x = Outputs_Released \<Longrightarrow> e = Close_Driver \<or> (\<exists>s. e = Leftover s)"
  using assms by (auto elim!: exit_step.cases)

lemma exit_run_over: "exit_run serial tcp es x x' \<Longrightarrow> ex_phase x = Driver_Closed r \<Longrightarrow> es = []"
  by (induction rule: exit_run.induct) (auto elim: exit_step.cases)

lemma exit_step_close: "exit_step serial tcp Close_Driver x x' \<Longrightarrow> \<exists>r. ex_phase x' = Driver_Closed r"
  by (auto elim: exit_step.cases)

lemma off_since_release_run:
  assumes "exit_run serial tcp es x x'" and "off_since_release x"
    and "list_all (\<lambda>e. \<not> dispatches e) (if ex_phase x = Outputs_Released then leftovers es else after_release es)"
  shows "off_since_release x'"
  using assms
proof (induction rule: exit_run.induct)
  case (Next e x x1 es x2)
  note phase = exit_step_phase [OF Next.hyps(1)]
  have "off_since_release x1"
    by (rule off_since_release_step [OF Next.hyps(1) Next.prems(1)]) (use Next.prems(2) in auto)
  moreover have "list_all (\<lambda>e. \<not> dispatches e) (if ex_phase x1 = Outputs_Released then leftovers es else after_release es)"
  proof (cases "e = Close_Driver")
    case True
    with Next.hyps(1) exit_step_close exit_run_over [OF Next.hyps(2)] show ?thesis by fastforce
  next
    case False
    with Next.prems(2) phase show ?thesis by (cases e) (auto split: if_splits)
  qed
  ultimately show ?case by (rule Next.IH)
qed simp

text \<open>
  C24: every exit is reported and, where it can be, made safe.  A process that ends with an exit code ends with 0 exactly if no
  critical task is among the finished ones -- in whatever order they are reported, and whatever became of the release -- and with 1
  otherwise.  If the shutdown's release has returned, then at the exit all four command outputs are commanded off on whichever
  driver the configuration named, unless a command still queued is dispatched behind the release.
\<close>

theorem exit_leaves_outputs_released:
  assumes "process serial tcp inh document u w disk acc m0 w0 (Inr code) driver finished released exits"
  shows "code = (if \<exists>name. Critical name \<in> set finished then 1 else 0) \<and>
    (\<exists>d. driver = Some d \<and>
      (released \<and> list_all (\<lambda>e. \<not> dispatches e) (after_release exits) \<longrightarrow> (\<forall>out. built_commanded d out = Some False)))"
  using assms
proof (cases rule: process.cases)
  case (Stopped served sy x close_result)
  then obtain asked where run: "exit_run serial tcp exits (exit_begin asked sy) x" and awaited: "set finished \<subseteq> awaited_tasks"
    by (auto elim: shutting_down.cases)
  have "code = exit_code (shutdown_reason finished)" using Stopped by (auto split: sum.splits)
  also have "\<dots> = (if \<exists>name. Critical name \<in> set finished then 1 else 0)"
    using awaited by (induction finished rule: shutdown_reason.induct) (auto simp: exit_code_def awaited_tasks_def)
  finally have code: "code = \<dots>" .
  have "all_commanded_off (sy_driver (ex_service x))"
    if "released" "list_all (\<lambda>e. \<not> dispatches e) (after_release exits)"
    using off_since_release_run [OF run] that Stopped by (auto simp: off_since_release_def exit_begin_def)
  with code Stopped show ?thesis by (simp add: all_commanded_off_def)
qed

text \<open>
  A session on the simulated contacts: the loop's first cycle, a client's Force-Transfer write and its dispatch.
\<close>

abbreviation force_session :: "service_event list" where
  "force_session \<equiv> first_command ADDR_CMD_FORCE_TRANSFER 1"

lemma force_session_runs:
  assumes "sy_driver sy = Built_Mock connected_mock" and "sy_sampling sy = At_Start" and "sy_dispatch sy = []"
    and "\<not> sy_outputs_reset sy"
  obtains sy' where "service_run env (built_ops serial tcp) force_session sy sy'"
    and "sy_driver sy' = Built_Mock (connected_mock\<lparr>mk_force_transfer_active := True\<rparr>)"
proof -
  define i where "i = \<lparr>in_position = ''utility'', in_normal_available = True, in_emergency_available = True,
      in_engine_start_calling = False, in_ats_mode = ''auto'', in_fault_bits = 0\<rparr>"
  define out where "out = \<lparr>out_test_active = False, out_inhibit_active = False, out_force_transfer_active = False,
      out_bypass_delay_active = False\<rparr>"
  have ops: "op_release_all_outputs (built_ops serial tcp) (Built_Mock connected_mock) = (Inr (), Built_Mock connected_mock)"
    "op_read_inputs (built_ops serial tcp) (Built_Mock connected_mock) = (Inr i, Built_Mock connected_mock)"
    "op_read_output_state (built_ops serial tcp) (Built_Mock connected_mock) = (Inr out, Built_Mock connected_mock)"
    by (simp_all add: built_ops_def built_release_all_outputs_def mock_release_all_outputs_def modify_def
        mock_cancel_all_def mock_cancel_def mock_init_def built_read_inputs_def mock_read_inputs_def gets_def i_def
        built_read_output_state_def mock_read_output_state_def out_def)
  have "in_ats_mode i = ''auto''" by (simp add: i_def)
  from first_command_runs [OF assms(2-4) _ ops(2) this ops(3), of ADDR_CMD_FORCE_TRANSFER 1
      "no_command\<lparr>ci_force_transfer := Some True\<rparr>" env] ops(1) assms(1)
  obtain sy' where "service_run env (built_ops serial tcp) force_session sy sy'"
      "sy_driver sy' = snd (built_drive_outputs tcp None None (Some True) None (Built_Mock connected_mock))"
    by (auto simp: command_for_def no_command_def built_ops_def)
  then show ?thesis
    by (intro that) (simp_all add: built_drive_outputs_def mock_drive_outputs_def modify_def when_some_def)
qed

text \<open>Two documents: the defaults, and a health endpoint on a port that does not exist.\<close>

definition bad_port_document :: "(yaml_key \<times> yaml) list" where
  "bad_port_document = [(KStr ''health'', YMap [(KStr ''enabled'', YBool True), (KStr ''port'', YInt 70000)])]"

definition mock_service :: "(yaml_key \<times> yaml) list \<Rightarrow> exc + (unit, unit_sim) built_driver service" where
  "mock_service document =
     start_service dead_api sim_api no_inherited (Some (Inr (YMap document))) () (sim_unit True) empty_fs Accessible 0 0"

lemma mock_service_starts:
  assumes "load_config no_inherited (Some (Inr (YMap document))) = Inr loaded"
    and "map_of loaded ''io'' = Some (Obj IOCfg)" and "map_of loaded ''site'' = Some (Obj SiteCfg)"
    and "map_of loaded ''persistence'' = Some (Obj PersistenceCfg)"
  obtains sy where "mock_service document = Inr sy" and "sy_driver sy = Built_Mock connected_mock" and "\<not> sy_outputs_reset sy"
    and "sy_sampling sy = At_Start" and "sy_dispatch sy = []"
proof -
  obtain store where store: "store_init 1 (Some zero_state) 0 0 = Inr store"
    by (simp add: store_init_def fw_version_VERSION Let_def)
  have "mock_service document = Inr (service_start (built_ops dead_api sim_api) store 0 (Built_Mock connected_mock))"
    using assms store
    by (simp add: mock_service_def start_service_def IOCfg_def SiteCfg_def PersistenceCfg_def int_at_def string_at_def
        enforce_hw_watchdog_waiver_def hardware_driver_def build_io_driver_def built_connect_def mock_connected
        state_file_load_def path_exists_def contents_def empty_fs_def)
  then show ?thesis by (rule that) (simp_all add: service_start_def)
qed

section \<open>Runs of the shutdown\<close>

text \<open>From the tasks' cancellation to the exit, on the simulated contacts.\<close>

lemma mock_released:
  "built_release_all_outputs sim_api (Built_Mock connected_mock) = (Inr (), Built_Mock connected_mock)"
  "built_release_all_outputs sim_api (Built_Mock (connected_mock\<lparr>mk_force_transfer_active := True\<rparr>)) =
    (Inr (), Built_Mock connected_mock)"
  by (simp_all add: built_release_all_outputs_def mock_release_all_outputs_def
      modify_def mock_cancel_all_def mock_cancel_def mock_init_def)

lemma mock_shutdown:
  fixes x :: "(unit, unit_sim) built_driver exiting"
  assumes "ex_phase x = Tasks_Cancelled"
    and "built_release_all_outputs sim_api (sy_driver (ex_service x)) = (Inr (), Built_Mock connected_mock)"
  obtains x' where "exit_run dead_api sim_api [Release_Outputs, Close_Driver] x x'" and "ex_phase x' = Driver_Closed (Inr ())"
    and "ex_released x'"
proof -
  let ?x1 = "x\<lparr>ex_phase := Outputs_Released, ex_service := (ex_service x)\<lparr>sy_driver := Built_Mock connected_mock\<rparr>, ex_released := True\<rparr>"
  let ?x2 = "?x1\<lparr>ex_phase := Driver_Closed (Inr ()), ex_service := (ex_service ?x1)\<lparr>sy_driver := Built_Mock mock_init\<rparr>\<rparr>"
  have "shutdown_release (built_release_all_outputs sim_api) None (sy_driver (ex_service x)) = (Inr (), Built_Mock connected_mock)"
    using assms(2) by (simp add: shutdown_release_def catching_def)
  from exit_step.Release [OF assms(1) this] assms(2) have "exit_step dead_api sim_api Release_Outputs x ?x1" by simp
  moreover have "built_close dead_api sim_api (Built_Mock connected_mock) = (Inr (), Built_Mock mock_init)"
    by (simp add: built_close_def mock_closed) (simp add: mock_init_def)
  then have "exit_step dead_api sim_api Close_Driver ?x1 ?x2" by (intro exit_step.Close) simp_all
  ultimately have "exit_run dead_api sim_api [Release_Outputs, Close_Driver] x ?x2" by (blast intro: exit_run.intros)
  then show ?thesis by (rule that) simp_all
qed

lemma exit_leaves_outputs_released_witness:
  "\<exists>d. process dead_api sim_api no_inherited (Some (Inr (YMap []))) () (sim_unit True) empty_fs Accessible 0 0
      (Inr 1) (Some d) [Critical ''sampling''] True [Health_Returns, Release_Outputs, Close_Driver] \<and>
    built_commanded d Force_Transfer = Some False"
proof -
  have loaded: "load_config no_inherited (Some (Inr (YMap []))) = Inr Config" by (simp add: load_config_def)
  obtain sy0 where sy0: "mock_service [] = Inr sy0" "sy_driver sy0 = Built_Mock connected_mock" "\<not> sy_outputs_reset sy0"
      "sy_sampling sy0 = At_Start" "sy_dispatch sy0 = []"
    by (rule mock_service_starts [OF loaded]) (simp_all add: Config_def)
  obtain sy where run: "service_run (built_env sim_api) (built_ops dead_api sim_api) force_session sy0 sy"
      "sy_driver sy = Built_Mock (connected_mock\<lparr>mk_force_transfer_active := True\<rparr>)"
    using force_session_runs [OF sy0(2,4,5,3)] by metis
  have live: "go_live (Obj Config) (Inr ()) (Inr ()) (Inr ()) = Inr None"
    by (simp add: go_live_def Config_def ModbusServerCfg_def HealthCfg_def truthy_at_def start_health_def)
  let ?x1 = "(exit_begin None sy)\<lparr>ex_phase := Tasks_Cancelled\<rparr>"
  obtain x where x: "exit_run dead_api sim_api [Release_Outputs, Close_Driver] ?x1 x" "ex_phase x = Driver_Closed (Inr ())" "ex_released x"
    by (rule mock_shutdown [of ?x1]) (simp_all add: exit_begin_def run(2) mock_released)
  have "exit_step dead_api sim_api Health_Returns (exit_begin None sy) ?x1"
    by (rule exit_step.No_Health) (simp_all add: exit_begin_def)
  then have exits: "exit_run dead_api sim_api [Health_Returns, Release_Outputs, Close_Driver] (exit_begin None sy) x"
    using x(1) by (rule exit_run.Next)
  have "shutting_down dead_api sim_api no_inherited (Some (Inr (YMap []))) () (sim_unit True) empty_fs Accessible 0 0
      [Critical ''sampling''] [] sy [Health_Returns, Release_Outputs, Close_Driver] x"
    by (rule shutting_down.Woken [OF sy0(1) [unfolded mock_service_def] loaded run(1) live _ _ _ exits])
      (simp_all add: awaited_tasks_def health_after_def)
  from process.Stopped [OF this x(2)] x(3)
  have ends: "process dead_api sim_api no_inherited (Some (Inr (YMap []))) () (sim_unit True) empty_fs Accessible 0 0
      (Inr 1) (Some (sy_driver (ex_service x))) [Critical ''sampling''] True [Health_Returns, Release_Outputs, Close_Driver]"
    by (simp add: exit_code_def)
  with exit_leaves_outputs_released [OF ends] show ?thesis by auto
qed

text \<open>
  An exception between the tasks' creation and the wait leaves \<open>_amain\<close> past the shutdown.  Here the health endpoint's
  port is out of range, for which binding raises \<open>OverflowError\<close> and not \<open>OSError\<close>: the process ends with
  the Force-Transfer a client has meanwhile commanded still asserted, neither released nor closed.
\<close>

theorem failed_start_skips_release:
  "\<exists>d. process dead_api sim_api no_inherited (Some (Inr (YMap bad_port_document))) () (sim_unit True) empty_fs Accessible 0 0
      (Inl OverflowError) (Some d) [] False [] \<and> built_commanded d Force_Transfer = Some True"
proof -
  define loaded where "loaded = AList.update ''health''
      (Obj [(''enabled'', Plain (YBool True)), (''host'', Plain (YStr ''127.0.0.1'')), (''port'', Plain (YInt 70000))]) Config"
  have loads: "load_config no_inherited (Some (Inr (YMap bad_port_document))) = Inr loaded"
    by (simp add: load_config_def bad_port_document_def loaded_def Config_def HealthCfg_def)
  obtain sy0 where sy0: "mock_service bad_port_document = Inr sy0" "sy_driver sy0 = Built_Mock connected_mock"
      "\<not> sy_outputs_reset sy0" "sy_sampling sy0 = At_Start" "sy_dispatch sy0 = []"
    by (rule mock_service_starts [OF loads]) (simp_all add: loaded_def Config_def)
  obtain sy where run: "service_run (built_env sim_api) (built_ops dead_api sim_api) force_session sy0 sy"
      "sy_driver sy = Built_Mock (connected_mock\<lparr>mk_force_transfer_active := True\<rparr>)"
    using force_session_runs [OF sy0(2,4,5,3)] by metis
  have crash: "go_live (Obj loaded) (Inr ()) (Inl OverflowError) (Inr ()) = Inl OverflowError"
    by (simp add: loaded_def go_live_def Config_def ModbusServerCfg_def truthy_at_def start_health_def
      start_health_server_def health_server_init_def)
  from process.Not_Live [OF sy0(1) [unfolded mock_service_def] loads run(1) crash] run(2) show ?thesis
    by (auto simp: built_commanded_def)
qed

section \<open>A shutdown that waits for a client\<close>

text \<open>While the health server is being stopped its thread's events are the only ones.\<close>

lemma exit_before_stop:
  assumes "exit_run serial tcp es (exit_begin (Some h) sy) x"
  shows "(\<exists>log. ex_phase x = Health_Stopping log \<and> es = map Health_Event log \<and> ex_health x = Some h \<and> ex_service x = sy) \<or>
    (\<exists>log h' rest. es = map Health_Event log @ Health_Returns # rest \<and> health_server_stop log h = Some h')"
proof -
  have "(\<exists>log'. ex_phase x = Health_Stopping log' \<and> map Health_Event log @ es = map Health_Event log' \<and> ex_health x = Some h \<and> ex_service x = sy) \<or>
    (\<exists>log' h' rest. map Health_Event log @ es = map Health_Event log' @ Health_Returns # rest \<and> health_server_stop log' h = Some h')"
    if "exit_run serial tcp es x0 x" "ex_phase x0 = Health_Stopping log" "ex_health x0 = Some h" "ex_service x0 = sy" for x0 log
    using that
  proof (induction arbitrary: log rule: exit_run.induct)
    case (Next e x x1 es x2)
    from Next.hyps(1) show ?case
    proof cases
      case (Health_Moves es' h' a)
      with Next.prems have "ex_phase x1 = Health_Stopping (log @ [a])" "ex_health x1 = Some h" "ex_service x1 = sy" by simp_all
      from Next.IH [OF this] Health_Moves(1) show ?thesis by simp
    next
      case (Health_Stopped es' h' h'')
      with Next.prems have "health_server_stop log h = Some h''" by simp
      with Health_Stopped(1) show ?thesis by (intro disjI2 exI [of _ log] exI [of _ h''] exI [of _ es]) simp
    qed (use Next.prems in simp_all)
  qed simp
  from this [OF assms, of "[]"] show ?thesis by (simp add: exit_begin_def)
qed

text \<open>
  C25: one client of the health endpoint can hold up the shutdown for good.  \<open>_amain\<close> stops the health server before it cancels its
  tasks and releases the outputs, and the stop waits, on the event loop and without a timeout, for the connection being
  handled.  So let a process be woken to shut down when its health thread has accepted a connection.  However far the
  shutdown has got, the end of that connection precedes the release in it; and until the connection ends, the shutdown
  has not got past stopping the health server: the process has not ended, and the service, its driver included, is what
  it was when it was woken.
\<close>

theorem stalled_health_client_blocks_exit:
  assumes "shutting_down serial tcp inh document u w disk acc m0 w0 finished (served @ [Http_Accept]) sy exits x"
  shows "(\<forall>before after. exits = before @ Release_Outputs # after \<longrightarrow> Health_Event Http_Done \<in> set before) \<and>
    (Health_Event Http_Done \<notin> set exits \<longrightarrow> (\<exists>log. ex_phase x = Health_Stopping log) \<and> ex_service x = sy)"
proof -
  from assms obtain health_server asked where served: "health_after (served @ [Http_Accept]) health_server asked"
      and run: "exit_run serial tcp exits (exit_begin asked sy) x"
    by (auto elim: shutting_down.cases)
  then obtain h where asked: "asked = Some h" and handling: "hs_thread h = Handling"
    by (auto simp: health_after_def http_run_append split: option.splits if_splits)
  have waited: "Health_Event Http_Done \<in> set exits"
    if "exits = map Health_Event log @ Health_Returns # rest" "health_server_stop log h = Some h'" for log rest h'
    using stop_waits [OF handling that(2)] that(1) by auto
  have "Health_Event Http_Done \<in> set before" if split: "exits = before @ Release_Outputs # after" for before after
  proof -
    obtain x1 where "exit_run serial tcp before (exit_begin (Some h) sy) x1" "exit_run serial tcp (Release_Outputs # after) x1 x"
      using exit_run_split run unfolding split asked by metis
    then have "ex_phase x1 = Tasks_Cancelled" and pre: "exit_run serial tcp before (exit_begin (Some h) sy) x1"
      by (auto elim!: exit_run_ConsE exit_step_releaseE)
    from exit_before_stop [OF pre] this(1) stop_waits [OF handling] show ?thesis by fastforce
  qed
  moreover have "(\<exists>log. ex_phase x = Health_Stopping log) \<and> ex_service x = sy" if "Health_Event Http_Done \<notin> set exits"
    using exit_before_stop [OF run [unfolded asked]] that waited by blast
  ultimately show ?thesis by blast
qed

text \<open>The endpoint enabled on its default port, and a client that does finish.\<close>

definition health_document :: "(yaml_key \<times> yaml) list" where
  "health_document = [(KStr ''health'', YMap [(KStr ''enabled'', YBool True)])]"

lemma stalled_health_client_blocks_exit_witness:
  "\<exists>sy x. shutting_down dead_api sim_api no_inherited (Some (Inr (YMap health_document))) () (sim_unit True) empty_fs Accessible 0 0
      [Stop_Waiter] ([] @ [Http_Accept]) sy [] x \<and> (\<exists>log. ex_phase x = Health_Stopping log) \<and>
   (\<exists>x'. exit_run dead_api sim_api [Health_Event Http_Done, Health_Event Http_End, Health_Returns, Release_Outputs, Close_Driver] x x')"
proof -
  define loaded where "loaded = AList.update ''health''
      (Obj [(''enabled'', Plain (YBool True)), (''host'', Plain (YStr ''127.0.0.1'')), (''port'', Plain (YInt 8001))]) Config"
  have loads: "load_config no_inherited (Some (Inr (YMap health_document))) = Inr loaded"
    by (simp add: load_config_def health_document_def loaded_def Config_def HealthCfg_def)
  obtain sy where sy: "mock_service health_document = Inr sy" "sy_driver sy = Built_Mock connected_mock"
    by (rule mock_service_starts [OF loads]) (simp_all add: loaded_def Config_def)
  let ?h = "\<lparr>hs_thread = Polling, hs_stop_requested = False, hs_listening = True\<rparr>"
  let ?busy = "\<lparr>hs_thread = Handling, hs_stop_requested = False, hs_listening = True\<rparr>"
  let ?x = "exit_begin (Some ?busy) sy"
  have live: "go_live (Obj loaded) (Inr ()) (Inr ()) (Inr ()) = Inr (Some ?h)"
    by (simp add: loaded_def go_live_def Config_def ModbusServerCfg_def truthy_at_def start_health_def
        start_health_server_def health_server_init_def health_server_start_def)
  have woken: "shutting_down dead_api sim_api no_inherited (Some (Inr (YMap health_document))) () (sim_unit True) empty_fs Accessible 0 0
      [Stop_Waiter] ([] @ [Http_Accept]) sy [] ?x"
    by (rule shutting_down.Woken [OF sy(1) [unfolded mock_service_def] loads service_run.Done live _ _ _ exit_run.Stay])
      (simp_all add: awaited_tasks_def health_after_def)
  let ?x1 = "?x\<lparr>ex_phase := Health_Stopping [Http_Done]\<rparr>"
  let ?x2 = "?x\<lparr>ex_phase := Health_Stopping [Http_Done, Http_End]\<rparr>"
  let ?x3 = "?x\<lparr>ex_phase := Tasks_Cancelled, ex_health := Some \<lparr>hs_thread = Ended, hs_stop_requested = True, hs_listening = False\<rparr>\<rparr>"
  have "exit_step dead_api sim_api (Health_Event Http_Done) ?x ?x1"
    using exit_step.Health_Moves [of ?x "[]" ?busy Http_Done dead_api sim_api] by (simp add: exit_begin_def)
  moreover have "exit_step dead_api sim_api (Health_Event Http_End) ?x1 ?x2"
    using exit_step.Health_Moves [of ?x1 "[Http_Done]" ?busy Http_End dead_api sim_api] by (simp add: exit_begin_def)
  moreover have "exit_step dead_api sim_api Health_Returns ?x2 ?x3"
    using exit_step.Health_Stopped [of ?x2 "[Http_Done, Http_End]" ?busy] by (simp add: exit_begin_def health_server_stop_def)
  moreover obtain x' where "exit_run dead_api sim_api [Release_Outputs, Close_Driver] ?x3 x'"
    by (rule mock_shutdown [of ?x3]) (simp_all add: exit_begin_def sy(2) mock_released)
  ultimately have "exit_run dead_api sim_api
      [Health_Event Http_Done, Health_Event Http_End, Health_Returns, Release_Outputs, Close_Driver] ?x x'"
    by (blast intro: exit_run.intros)
  with woken stalled_health_client_blocks_exit [OF woken] show ?thesis by auto
qed

end
