(* ===== verification/Unguarded_Writes.thy ===== *)
theory Unguarded_Writes
  imports Deployment
begin

text \<open>
  Writes the guard and the tracker of \<open>src/src/atspi/server.py\<close> do not know.  The library serves one more function code
  that writes holding registers, FC22 (mask write): it asks \<open>validate\<close>, reads the register, and passes the masked value
  to the data block's \<open>setValues\<close>.  FC22 is in none of the module's sets of function codes.
\<close>

definition FC_MASK_WRITE :: int where "FC_MASK_WRITE = 0x16"

text \<open>The value FC22 writes to a register that reads 0, as every command register does.\<close>

lemma command_registers_read_0:
  "a \<in> set ALLOWED_HOLDING_WRITE_ADDRESSES \<Longrightarrow> read_register a m w s = 0"
  by (auto simp: ALLOWED_HOLDING_WRITE_ADDRESSES_def read_register_def Let_def)

lemma mask_write_unguarded: "validate default_validate FC_MASK_WRITE address cnt s = (default_validate FC_MASK_WRITE address cnt, s)"
  by (simp add: FC_MASK_WRITE_def validate_def COIL_WRITE_FCS_def UNSUPPORTED_WRITE_FCS_def HOLDING_WRITE_FCS_def HOLDING_READ_FCS_def)

lemma mask_write_untracked: "\<not> is_cmd_write (Some FC_MASK_WRITE) a"
  by (simp add: FC_MASK_WRITE_def is_cmd_write_def HOLDING_WRITE_FCS_def)

text \<open>One connection's FC22 write of 1 to Force-Transfer, and its dispatch.\<close>

definition mask_write :: "real \<Rightarrow> nat \<Rightarrow> service_event list" where
  "mask_write t conn =
     [Ev_Request t conn (Some FC_MASK_WRITE) (Some ADDR_CMD_FORCE_TRANSFER),
      Ev_Validate FC_MASK_WRITE ADDR_CMD_FORCE_TRANSFER 1,
      Ev_Set_Values (ADDR_CMD_FORCE_TRANSFER + 1) [1], Ev_Dispatch 0]"

lemma mask_write_runs:
  fixes sy :: "'s service" and conn :: nat and t :: real and ops :: "'s driver_ops"
  defines "asked \<equiv> tracked (note_request note_modbus_read t conn (Some FC_MASK_WRITE) (Some ADDR_CMD_FORCE_TRANSFER)) sy"
  defines "written \<equiv> commanded_by (ADDR_CMD_FORCE_TRANSFER + 1) [1] asked"
  defines "driven \<equiv> dispatch_command ops (no_command\<lparr>ci_force_transfer := Some True\<rparr>) (written\<lparr>sy_dispatch := []\<rparr>)"
  assumes "sy_dispatch sy = []" and "sn_ats_mode (rs_snap (sy_store sy)) = ''auto''"
  shows "service_run env ops (mask_write t conn) sy sy' \<longleftrightarrow> sy' = driven"
proof -
  have queue: "sy_dispatch written = [no_command\<lparr>ci_force_transfer := Some True\<rparr>]"
    using assms(4,5)
    by (simp add: asked_def written_def commanded_by_def set_values_def write_register_def allowed_modes_for_addr_def command_for_def)
  have steps: "service_step env ops (Ev_Request t conn (Some FC_MASK_WRITE) (Some ADDR_CMD_FORCE_TRANSFER)) sy s \<longleftrightarrow> s = asked"
    "service_step env ops (Ev_Validate FC_MASK_WRITE ADDR_CMD_FORCE_TRANSFER 1) asked s \<longleftrightarrow> s = asked"
    "service_step env ops (Ev_Set_Values (ADDR_CMD_FORCE_TRANSFER + 1) [1]) asked s \<longleftrightarrow> s = written"
    "service_step env ops (Ev_Dispatch 0) written s \<longleftrightarrow> s = driven" for s
    using queue by (simp_all add: service_step_simps mask_write_unguarded upd_store_id asked_def written_def driven_def)
  show ?thesis unfolding mask_write_def by (simp only: service_run_simps steps simp_thms ex_simps)
qed

text \<open>It leaves the service without a commander, and with the output commanded.\<close>

lemma mask_write_unowned:
  assumes "service_run env ops (mask_write t conn) sy sy'" and "sy_commander sy = None" and "sy_dispatch sy = []"
    and "sn_ats_mode (rs_snap (sy_store sy)) = ''auto''" and "\<not> sy_release_pending sy" and "sy_outputs_reset sy"
  shows "unowned (Some t) sy'"
    and "sy_driver sy' = snd (op_drive_outputs ops None None (Some True) None (sy_driver sy))"
proof -
  let ?s1 = "tracked (note_request note_modbus_read t conn (Some FC_MASK_WRITE) (Some ADDR_CMD_FORCE_TRANSFER)) sy"
  let ?s3 = "commanded_by (ADDR_CMD_FORCE_TRANSFER + 1) [1] ?s1"
  have s1: "sy_commander ?s1 = None" "sy_watchdog ?s1 = note_modbus_read t (sy_watchdog sy)"
    using assms(2) mask_write_untracked by (simp_all add: tracked_def note_request_def)
  have sy': "sy' = dispatch_command ops (no_command\<lparr>ci_force_transfer := Some True\<rparr>) (?s3\<lparr>sy_dispatch := []\<rparr>)"
    using assms(1,3,4) mask_write_runs by blast
  show "unowned (Some t) sy'"
    unfolding sy' using s1 assms(5,6) by (simp add: unowned_def note_modbus_read_eq)
  show "sy_driver sy' = snd (op_drive_outputs ops None None (Some True) None (sy_driver sy))"
    unfolding sy' by (simp add: dispatch_driver no_command_def)
qed


text \<open>The simulated unit, armed and idle; another client polls and the one that wrote drops.\<close>

definition idle_service :: "(unit, unit_sim) built_driver service" where
  "idle_service = forced_deployment
     \<lparr>sy_commander := None, sy_driver := Built_Adam (snd (adam_connect sim_api (sim_driver True)))\<rparr>"


end
