(* ===== verification/Pulse_Deadlines.thy ===== *)
theory Pulse_Deadlines
  imports Deployment Scenarios Adam_Pulses
begin

text \<open>
  The pulsed outputs of a running service: whenever the relay driver's record says that Test or Bypass-Delay is on, the
  release of that very pulse is scheduled, within the clamped pulse width of the moment it was asserted.
\<close>

section \<open>Covered pulses\<close>

definition pulse_covered :: "'w adam \<Rightarrow> nat \<Rightarrow> real \<Rightarrow> bool" where
  "pulse_covered d i t \<longleftrightarrow> (\<exists>k due. release_slot i d = Some k \<and> k < length (ad_tasks d) \<and>
     ad_tasks d ! k = \<lparr>rt_coil = DO_COIL_BASE + int i, rt_do_index = i, rt_phase = Pulsing due\<rparr> \<and>
     t + of_int PULSE_MIN_MS / 1000 \<le> due \<and> due \<le> t + of_int PULSE_MAX_MS / 1000)"

definition pulses_covered :: "'w adam \<Rightarrow> bool" where
  "pulses_covered d \<longleftrightarrow> (\<forall>i\<in>{DO_TEST, DO_BYPASS_DELAY}. \<forall>t.
     map_of (ad_commanded_do d) i = Some (True, t) \<longrightarrow> pulse_covered d i t)"

definition no_pulse :: "'w adam \<Rightarrow> bool" where
  "no_pulse d \<longleftrightarrow> (\<forall>i\<in>{DO_TEST, DO_BYPASS_DELAY}. last_commanded d i \<noteq> Some True)"

lemma no_pulse_covered: "no_pulse d \<Longrightarrow> pulses_covered d"
  by (auto simp: no_pulse_def pulses_covered_def last_commanded_def)

lemma pulses_covered_view: "task_view d = task_view d' \<Longrightarrow> pulses_covered d = pulses_covered d'"
  by (simp add: task_view_def pulses_covered_def pulse_covered_def release_slot_def)

lemma keeps_covered_view:
  fixes m :: "('w adam, 'a) act"
  assumes "\<And>v. keeps (\<lambda>d. task_view d = v) m"
  shows "keeps pulses_covered m"
  by (rule keepsI) (metis keepsD [OF assms refl] pulses_covered_view)

lemma covered_updates [simp]:
  "pulses_covered (d\<lparr>ad_debounce := db\<rparr>) = pulses_covered d"
  "pulses_covered (d\<lparr>ad_load_disconnect_seen_mono := s\<rparr>) = pulses_covered d"
  "pulses_covered (d\<lparr>lk_env := w\<rparr>) = pulses_covered d"
  by (rule pulses_covered_view; simp add: task_view_def)+

text \<open>Recording OFF, or the command of a maintained output, uncovers nothing.\<close>

lemma covered_record:
  assumes "\<not> b \<or> i \<notin> {DO_TEST, DO_BYPASS_DELAY}"
  shows "keeps pulses_covered (record_commanded api i b)"
proof (rule keepsI)
  fix d :: "'a adam" assume "pulses_covered d"
  with assms show "pulses_covered (snd (record_commanded api i b d))"
    unfolding pulses_covered_def record_commanded_def modify_def
    by (auto simp: update_conv' pulse_covered_def release_slot_def split: if_splits)
qed

lemma pulse_ms_range: "PULSE_MIN_MS \<le> pulse_ms ms" "pulse_ms ms \<le> PULSE_MAX_MS"
  by (simp_all add: pulse_ms_def)

lemma covered_commit:
  assumes "pulses_covered d" and i: "i \<in> {DO_TEST, DO_BYPASS_DELAY}"
  shows "pulses_covered (snd (pulse_commit api i ms d))"
proof -
  obtain r d1 where wr: "adam_write_coil api (DO_COIL_BASE + int i) True d = (r, d1)" by fastforce
  have d1: "pulses_covered d1"
    using assms(1) pulses_covered_view [OF write_coil_view [of api "DO_COIL_BASE + int i" True d]] wr by simp
  show ?thesis
  proof (cases r)
    case (Inl e)
    with wr d1 show ?thesis by (simp add: pulse_commit_def andthen_def)
  next
    case (Inr u)
    let ?t = "now api d1"
    let ?due = "?t + of_int (pulse_ms ms) / 1000"
    let ?task = "\<lparr>rt_coil = DO_COIL_BASE + int i, rt_do_index = i, rt_phase = Pulsing ?due\<rparr>"
    let ?d2 = "set_release_slot i (length (ad_tasks d1))
        (d1\<lparr>ad_commanded_do := AList.update i (True, ?t) (ad_commanded_do d1), ad_tasks := ad_tasks d1 @ [?task]\<rparr>)"
    have eq: "snd (pulse_commit api i ms d) = ?d2"
      using wr Inr
      by (simp add: pulse_commit_def andthen_def record_commanded_def schedule_release_def modify_def now_def)
    have width: "?t + of_int PULSE_MIN_MS / 1000 \<le> ?due" "?due \<le> ?t + of_int PULSE_MAX_MS / 1000"
      using pulse_ms_range [of ms] by simp_all
    have tasks: "ad_tasks ?d2 = ad_tasks d1 @ [?task]" by (simp add: set_release_slot_def)
    have slot: "release_slot i ?d2 = Some (length (ad_tasks d1))"
      by (simp add: release_slot_def set_release_slot_def)
    have other: "release_slot j ?d2 = release_slot j d1" if "j \<noteq> i" "j \<in> {DO_TEST, DO_BYPASS_DELAY}" for j
      using that i by (auto simp: release_slot_def set_release_slot_def)
    have "pulse_covered ?d2 i ?t"
      unfolding pulse_covered_def slot tasks using width by (intro exI [of _ "length (ad_tasks d1)"] exI [of _ ?due]) simp
    moreover have "pulse_covered ?d2 j t" if "pulse_covered d1 j t" "j \<noteq> i" "j \<in> {DO_TEST, DO_BYPASS_DELAY}" for j t
      using that(1) unfolding pulse_covered_def other [OF that(2,3)] tasks
      by (metis length_append_singleton less_SucI nth_append)
    moreover have "map_of (ad_commanded_do ?d2) = (map_of (ad_commanded_do d1))(i \<mapsto> (True, ?t))"
      by (simp add: set_release_slot_def update_conv')
    ultimately show ?thesis
      using d1 unfolding eq pulses_covered_def by (metis fun_upd_apply option.inject prod.inject)
  qed
qed

lemma covered_pulsed:
  assumes "i \<in> {DO_TEST, DO_BYPASS_DELAY}"
  shows "keeps pulses_covered (adam_pulsed api i ms)"
proof -
  have "keeps pulses_covered (adam_pulse api i m)" for m
    by (rule keepsI) (auto simp: adam_pulse_def pulse_guard_def andthen_def gets_def ret_def intro: covered_commit [OF _ assms])
  then show ?thesis unfolding adam_pulsed_def by (intro hoare)
qed

lemma covered_release_step:
  fixes api :: "'w modbus_api"
  shows "keeps pulses_covered (adam_release_step api k)"
proof (rule keepsI)
  fix d :: "'w adam" assume cov: "pulses_covered d"
  show "pulses_covered (snd (adam_release_step api k d))"
  proof (cases "task_pending d k \<and> timer_expired api (lk_env d) (rt_phase (ad_tasks d ! k))")
    case False
    then have "snd (adam_release_step api k d) = d" using done_step early_step by blast
    with cov show ?thesis by simp
  next
    case True
    let ?d = "at_release api k d" and ?coil = "rt_coil (ad_tasks d ! k)"
    obtain r d' where wr: "adam_write_coil api ?coil False ?d = (r, d')" by fastforce
    have view: "task_view d' = task_view ?d" using write_coil_view [of api ?coil False ?d] wr by simp
    have off: "map_of (ad_commanded_do ?d) (rt_do_index (ad_tasks d ! k)) \<noteq> Some (True, t)"
      if "rt_phase (ad_tasks d ! k) = Pulsing due" for due t
      using that by (simp add: at_release_def record_commanded_def modify_def update_conv')
    have "pulses_covered (snd (record_commanded api i False d))" for i
      by (rule keepsD [OF covered_record cov]) simp
    then have cov': "pulses_covered ?d"
      using cov by (simp add: at_release_def split: release_phase.split)
    obtain q where step: "snd (adam_release_step api k d) =
        d'\<lparr>ad_tasks := (ad_tasks d)[k := (ad_tasks d ! k)\<lparr>rt_phase := q\<rparr>]\<rparr>"
      using True release_step_eq [of d k api] release_attempt_eq [OF wr, of k] by simp
    have "pulse_covered (snd (adam_release_step api k d)) i t"
      if "i \<in> {DO_TEST, DO_BYPASS_DELAY}" "map_of (ad_commanded_do ?d) i = Some (True, t)" for i t
    proof -
      from cov' that obtain k' due where k': "release_slot i ?d = Some k'" "k' < length (ad_tasks d)"
          "ad_tasks d ! k' = \<lparr>rt_coil = DO_COIL_BASE + int i, rt_do_index = i, rt_phase = Pulsing due\<rparr>"
          "t + of_int PULSE_MIN_MS / 1000 \<le> due" "due \<le> t + of_int PULSE_MAX_MS / 1000"
        unfolding pulses_covered_def pulse_covered_def by fastforce
      with off that(2) have "k' \<noteq> k" by fastforce
      with k' view show ?thesis
        unfolding step pulse_covered_def by (auto simp: release_slot_def task_view_def)
    qed
    moreover have "ad_commanded_do (snd (adam_release_step api k d)) = ad_commanded_do ?d"
      using view by (simp add: step task_view_def)
    ultimately show ?thesis by (simp add: pulses_covered_def)
  qed
qed

text \<open>All operations of the driver but the release of everything, which is for a driver without a pulse.\<close>

lemmas covered_link = keeps_covered_view [OF keeps_view(1)] keeps_covered_view [OF keeps_view(4)]
  keeps_covered_view [OF keeps_view(5)] keeps_covered_view [OF keeps_view_write]

lemma covered_maintained: "i \<notin> {DO_TEST, DO_BYPASS_DELAY} \<Longrightarrow> keeps pulses_covered (adam_maintained api i b)"
  unfolding adam_maintained_def by (intro hoare covered_link covered_record) simp

lemma covered_drive: "keeps pulses_covered (adam_drive_outputs api t i f b)"
  unfolding adam_drive_outputs_def by (intro hoare covered_maintained covered_pulsed) simp_all

lemma covered_reads: "keeps pulses_covered (adam_read_inputs api)" "keeps pulses_covered (adam_read_output_state api)"
  unfolding adam_read_inputs_def adam_inputs_from_def adam_latch_inputs_def adam_read_output_state_def adam_outputs_from_def
  by (intro hoare covered_link; simp)+

text \<open>Without a pulse there stays none, but for a pulse command.\<close>

lemma keeps_no_pulse_lc:
  fixes m :: "('w adam, 'a) act"
  assumes "\<And>j v. keeps (\<lambda>d. last_commanded d j \<in> {v, Some False}) m"
  shows "keeps no_pulse m"
proof (rule keepsI)
  fix d :: "'w adam" assume "no_pulse d"
  moreover have "last_commanded (snd (m d)) j \<in> {last_commanded d j, Some False}" for j
    using keepsD [OF assms, of d j "last_commanded d j"] by simp
  ultimately show "no_pulse (snd (m d))" unfolding no_pulse_def by (metis insertE option.inject singletonD)
qed

lemma keeps_no_pulse_view:
  fixes m :: "('w adam, 'a) act"
  assumes "\<And>v. keeps (\<lambda>d. task_view d = v) m"
  shows "keeps no_pulse m"
  by (rule keepsI) (simp add: no_pulse_def keeps_commanded [OF assms])

lemmas no_pulse_link = keeps_no_pulse_view [OF keeps_view(1)] keeps_no_pulse_view [OF keeps_view(4)]
  keeps_no_pulse_view [OF keeps_view(5)] keeps_no_pulse_view [OF keeps_view_write]

lemma no_pulse_updates [simp]:
  "no_pulse (d\<lparr>ad_debounce := db\<rparr>) = no_pulse d"
  "no_pulse (d\<lparr>ad_load_disconnect_seen_mono := s\<rparr>) = no_pulse d"
  "no_pulse (d\<lparr>lk_env := w\<rparr>) = no_pulse d"
  "no_pulse (d\<lparr>ad_tasks := ts\<rparr>) = no_pulse d"
  by (simp_all add: no_pulse_def last_commanded_def)

lemma no_pulse_record: "\<not> b \<or> i \<notin> {DO_TEST, DO_BYPASS_DELAY} \<Longrightarrow> keeps no_pulse (record_commanded api i b)"
  by (rule keepsI) (auto simp: no_pulse_def record_commanded_eq)

lemma no_pulse_ops:
  "keeps no_pulse (adam_release_all_outputs api)"
  "keeps no_pulse (adam_read_inputs api)" "keeps no_pulse (adam_read_output_state api)"
  "keeps no_pulse (adam_drive_outputs api None i f None)"
proof -
  show "keeps no_pulse (adam_release_all_outputs api)" by (rule keeps_no_pulse_lc) (rule keeps_lc_release_all)
  show "keeps no_pulse (adam_read_inputs api)" "keeps no_pulse (adam_read_output_state api)"
    unfolding adam_read_inputs_def adam_inputs_from_def adam_latch_inputs_def adam_read_output_state_def adam_outputs_from_def
    by (intro hoare no_pulse_link; simp)+
  have "keeps no_pulse (adam_maintained api j b)" if "j \<notin> {DO_TEST, DO_BYPASS_DELAY}" for j b
    unfolding adam_maintained_def by (intro hoare no_pulse_link no_pulse_record) (use that in simp)
  then show "keeps no_pulse (adam_drive_outputs api None i f None)"
    unfolding adam_drive_outputs_def adam_pulsed_def option.case by (intro hoare) simp_all
qed

lemma no_pulse_release_step:
  fixes api :: "'w modbus_api"
  shows "keeps no_pulse (adam_release_step api k)"
proof (rule keepsI)
  fix d :: "'w adam" assume none: "no_pulse d"
  show "no_pulse (snd (adam_release_step api k d))"
  proof (cases "task_pending d k \<and> timer_expired api (lk_env d) (rt_phase (ad_tasks d ! k))")
    case False
    then have "snd (adam_release_step api k d) = d" using done_step early_step by blast
    with none show ?thesis by simp
  next
    case True
    let ?d = "at_release api k d" and ?coil = "rt_coil (ad_tasks d ! k)"
    obtain r d' where wr: "adam_write_coil api ?coil False ?d = (r, d')" by fastforce
    have "no_pulse (snd (record_commanded api i False d))" for i by (rule keepsD [OF no_pulse_record none]) simp
    then have "no_pulse ?d" using none by (simp add: at_release_def split: release_phase.split)
    then have "no_pulse d'" using keepsD [OF no_pulse_link(4), of ?d api ?coil False] wr by simp
    with True release_step_eq [of d k api] release_attempt_eq [OF wr, of k] show ?thesis by simp
  qed
qed

section \<open>The service\<close>

text \<open>A property of the relay driver behind a configured driver, if it has one.\<close>

definition on_relays :: "('w adam \<Rightarrow> bool) \<Rightarrow> ('u, 'w) built_driver \<Rightarrow> bool" where
  "on_relays P b = (case outputs_of b of None \<Rightarrow> True | Some d \<Rightarrow> P d)"

lemma keeps_on_built:
  fixes h :: "(('u, 'w) hybrid, 'a) act"
  assumes "keeps P g" and "keeps (\<lambda>y. P (hy_outputs y)) h"
  shows "keeps (on_relays P) (on_built f g h)"
proof (rule keepsI)
  fix b :: "('u, 'w) built_driver" assume "on_relays P b"
  with keepsD [OF assms(1)] keepsD [OF assms(2)] show "on_relays P (snd (on_built f g h b))"
    by (cases b) (fastforce simp: on_relays_def split: prod.split)+
qed

lemma keeps_on_outputs: "keeps P m \<Longrightarrow> keeps (\<lambda>y. P (hy_outputs y)) (on_outputs m)"
  by (rule keepsI) (simp add: on_outputs_simps keepsD)

lemma keeps_on_reader: "keeps (\<lambda>y. P (hy_outputs y)) (on_reader m)"
  by (rule keepsI) (simp add: on_reader_simps)

lemma keeps_built_drive:
  "(\<And>api :: 'w modbus_api. keeps P (adam_drive_outputs api t i f b)) \<Longrightarrow> keeps (on_relays P) (built_drive_outputs tcp t i f b)"
  unfolding built_drive_outputs_def hybrid_drive_outputs_def by (intro keeps_on_built keeps_on_outputs)

lemma keeps_built_release:
  "keeps P (adam_release_all_outputs tcp) \<Longrightarrow> keeps (on_relays P) (built_release_all_outputs tcp)"
  unfolding built_release_all_outputs_def hybrid_release_all_outputs_def by (intro keeps_on_built keeps_on_outputs)

lemma keeps_built_reads:
  "keeps P (adam_read_inputs tcp) \<Longrightarrow> keeps (on_relays P) (built_read_inputs serial tcp)"
  "keeps P (adam_read_output_state tcp) \<Longrightarrow> keeps (on_relays P) (built_read_output_state tcp)"
  unfolding built_read_inputs_def hybrid_read_inputs_def built_read_output_state_def hybrid_read_output_state_def
  by (intro keeps_on_built keeps_on_outputs keeps_on_reader; assumption)+

lemma built_env_relays:
  assumes "built_env tcp b b'" and "on_relays P b"
    and "\<And>d w. P (d\<lparr>lk_env := w\<rparr>) = P d" and "\<And>k. keeps P (adam_release_step tcp k)"
  shows "on_relays P b'"
proof -
  have env: "P d'" if "adam_env tcp d d'" "P d" for d d'
    using that by cases (auto simp: assms(3) keepsD [OF assms(4)])
  from assms(1,2) show ?thesis
    by (cases rule: built_env.cases) (auto simp: on_relays_def elim!: hybrid_env.cases intro: env)
qed

definition pulse_inv :: "('u, 'w) built_driver service \<Rightarrow> bool" where
  "pulse_inv sy \<longleftrightarrow> gated sy \<and> on_relays pulses_covered (sy_driver sy) \<and>
     (sy_outputs_reset sy \<or> on_relays no_pulse (sy_driver sy))"

lemma on_relays_mono: "on_relays P b \<Longrightarrow> (\<And>d. P d \<Longrightarrow> Q d) \<Longrightarrow> on_relays Q b"
  by (simp add: on_relays_def split: option.splits)

lemma pulse_inv_step:
  assumes "service_step (built_env tcp) (built_ops serial tcp) e sy sy'" and "pulse_inv sy"
  shows "pulse_inv sy'"
proof -
  have gated: "gated sy'" using gated_step [OF assms(1)] assms(2) by (simp add: pulse_inv_def)
  moreover have "on_relays pulses_covered (sy_driver sy') \<and> (sy_outputs_reset sy' \<or> on_relays no_pulse (sy_driver sy'))"
    using assms
  proof (induction rule: service_step.induct)
    case (Dispatch i sy)
    then have "sy_outputs_reset sy" by (auto simp: pulse_inv_def gated_def)
    moreover have "on_relays pulses_covered (snd (built_drive_outputs tcp t j f b (sy_driver sy)))" for t j f b
      using Dispatch by (intro keepsD [OF keeps_built_drive] covered_drive) (simp add: pulse_inv_def)
    ultimately show ?case
      by (simp add: dispatch_driver built_ops_def)
  next
    case (Tick_End sy)
    have "on_relays no_pulse (snd (built_drive_outputs tcp None (Some False) (Some False) None (sy_driver sy)))"
      if "on_relays no_pulse (sy_driver sy)"
      using that by (rule keepsD [OF keeps_built_drive [OF no_pulse_ops(4)]])
    moreover have "on_relays pulses_covered (snd (built_drive_outputs tcp None (Some False) (Some False) None (sy_driver sy)))"
      if "on_relays pulses_covered (sy_driver sy)"
      using that by (rule keepsD [OF keeps_built_drive [OF covered_drive]])
    ultimately show ?case
      using Tick_End by (auto simp: pulse_inv_def release_call_def built_ops_def)
  next
    case (Sample_Reset sy)
    have "on_relays no_pulse (snd (built_release_all_outputs tcp (sy_driver sy)))" if "on_relays no_pulse (sy_driver sy)"
      using that by (rule keepsD [OF keeps_built_release [OF no_pulse_ops(1)]])
    with Sample_Reset show ?case
      using on_relays_mono [OF _ no_pulse_covered]
      by (auto simp: pulse_inv_def sample_driver sample_reset_flag built_ops_def)
  next
    case (Sample_Inputs sy)
    then show ?case
      using keepsD [OF keeps_built_reads(1) [OF covered_reads(1)], of "sy_driver sy" serial tcp]
        keepsD [OF keeps_built_reads(1) [OF no_pulse_ops(2)], of "sy_driver sy" serial tcp]
      by (auto simp: pulse_inv_def sample_driver sample_reset_flag built_ops_def)
  next
    case (Sample_Outputs sy i w)
    then show ?case
      using keepsD [OF keeps_built_reads(2) [OF covered_reads(2)], of "sy_driver sy" tcp]
        keepsD [OF keeps_built_reads(2) [OF no_pulse_ops(3)], of "sy_driver sy" tcp]
      by (auto simp: pulse_inv_def sample_driver sample_reset_flag built_ops_def)
  next
    case (Driver sy d)
    then show ?case
      using built_env_relays [OF Driver(1) _ _ covered_release_step] built_env_relays [OF Driver(1) _ _ no_pulse_release_step]
      by (auto simp: pulse_inv_def)
  qed (auto simp: pulse_inv_def)
  ultimately show ?thesis by (simp add: pulse_inv_def)
qed

lemma pulse_inv_start:
  assumes "start_service serial tcp inh document u w disk acc now_mono now_wall = Inr sy"
  shows "pulse_inv sy"
proof -
  from assms obtain cfg b link d where b: "build_io_driver cfg u w = Inr b" "built_connect serial tcp b = (link, d)"
      and sy: "sy_driver sy = d"
    unfolding start_service_def by (auto simp: service_start_def split: sum.splits prod.splits)
  have "ad_commanded_do a = []" if "outputs_of b = Some a" for a
    using b(1) that by (auto simp: build_io_driver_def dest: build_adam_driver_armed(4) split: sum.splits if_splits)
  then have "on_relays no_pulse b" by (simp add: on_relays_def no_pulse_def last_commanded_def split: option.split)
  moreover have "keeps (on_relays no_pulse) (built_connect serial tcp)"
    unfolding built_connect_def hybrid_connect_def
    by (intro keeps_on_built hoare keeps_on_outputs keeps_on_reader no_pulse_link)
  ultimately have "on_relays no_pulse d" using keepsD b(2) by (metis snd_conv)
  with started_gated [OF assms] sy on_relays_mono [OF _ no_pulse_covered] show ?thesis
    by (auto simp: pulse_inv_def)
qed

text \<open>
  C12: in a running service no pulse is ever without its end.  Whatever the configuration, and at every interleaving
  of requests, commands, ticks, sampling, reconnects, failures and release tasks: if the relay driver's record says that Test or
  Bypass-Delay is on since \<open>t\<close>, the release slot of that output names a task that waits for the end of this very pulse, and
  it is due between 500 and 1500 ms after \<open>t\<close>, whatever width was asked for.
\<close>

theorem asserted_pulse_has_release:
  assumes "start_service serial tcp inh document u w disk acc now_mono now_wall = Inr sy0"
    and "service_run (built_env tcp) (built_ops serial tcp) es sy0 sy"
    and "outputs_of (sy_driver sy) = Some d" and "i \<in> {DO_TEST, DO_BYPASS_DELAY}"
    and "map_of (ad_commanded_do d) i = Some (True, t)"
  shows "\<exists>k due. release_slot i d = Some k \<and> k < length (ad_tasks d) \<and>
    ad_tasks d ! k = \<lparr>rt_coil = DO_COIL_BASE + int i, rt_do_index = i, rt_phase = Pulsing due\<rparr> \<and>
    t + 1 / 2 \<le> due \<and> due \<le> t + 3 / 2"
proof -
  have "pulse_inv sy"
    using assms(2) pulse_inv_start [OF assms(1)]
    by (rule service_run_invariant [where E = "\<lambda>_. True" and P = pulse_inv]) (auto simp: list_all_iff intro: pulse_inv_step)
  with assms(3-5) have "pulse_covered d i t"
    by (auto simp: pulse_inv_def on_relays_def pulses_covered_def)
  then show ?thesis by (simp add: pulse_covered_def)
qed

text \<open>The simulated unit behind a configuration that waives the readback, and a Test command.\<close>

definition relay_document :: "(yaml_key \<times> yaml) list" where
  "relay_document = [(KStr ''io'', YMap [(KStr ''driver'', YStr ''adam''), (KStr ''adam'', YMap
     [(KStr ''require_hw_watchdog'', YBool False), (KStr ''i_understand_no_crash_backstop'', YBool True)])])]"

definition relay_service :: "exc + (unit, unit_sim) built_driver service" where
  "relay_service = start_service dead_api sim_api no_inherited (Some (Inr (YMap relay_document))) () (sim_unit True) empty_fs Accessible 0 0"

definition relay_driver :: "unit_sim adam" where
  "relay_driver = (sim_driver True)\<lparr>lk_env := (sim_unit True)\<lparr>us_alive := True\<rparr>, lk_client := True, lk_connected := True,
     ad_require_hw_watchdog := False, ad_hw_watchdog := Some default_hw_watchdog_config,
     ad_hw_watchdog_ok := True, ad_hw_watchdog_detail := Readback_Waived, ad_hw_watchdog_checked := True\<rparr>"

lemma relay_service_starts:
  obtains sy where "relay_service = Inr sy" and "sy_driver sy = Built_Adam relay_driver" and "\<not> sy_outputs_reset sy"
    and "sy_sampling sy = At_Start" and "sy_dispatch sy = []"
proof -
  obtain loaded where load: "load_config no_inherited (Some (Inr (YMap relay_document))) = Inr loaded"
    and cfg: "Obj loaded = waived_config"
    by (simp add: load_config_def relay_document_def waived_config_def Config_def IOCfg_def AdamCfg_def)
  have reads: "enforce_hw_watchdog_waiver waived_config = Inr ()" "int_at [''site'', ''unit_id''] waived_config = Inr 1"
    "string_at [''persistence'', ''state_file''] waived_config = Inr ''/var/lib/atspi/state.json''"
    by (simp_all add: cfg_eval SiteCfg_def PersistenceCfg_def)
  obtain d where d: "build_io_driver waived_config () (sim_unit True) = Inr (Built_Adam d)"
    and connect: "adam_connect sim_api d = (Inr True, relay_driver)"
    by (simp add: cfg_eval sim_eval relay_driver_def)
  obtain store where store: "store_init 1 (Some zero_state) 0 0 = Inr store"
    by (simp add: store_init_def fw_version_VERSION Let_def)
  have "relay_service = Inr (service_start (built_ops dead_api sim_api) store 0 (Built_Adam relay_driver))"
    using load cfg reads d connect store
    by (simp add: relay_service_def start_service_def built_connect_def state_file_load_def path_exists_def contents_def empty_fs_def)
  then show ?thesis by (rule that) (simp_all add: service_start_def)
qed

definition relay_reset :: "unit_sim adam" where
  "relay_reset = relay_driver\<lparr>lk_env := (sim_unit True)\<lparr>us_alive := True, us_coils := [(19, False), (18, False), (17, False), (16, False)]\<rparr>,
     ad_commanded_do := [(0, False, 0), (1, False, 0), (2, False, 0), (3, False, 0)]\<rparr>"

lemma relay_session:
  "adam_release_all_outputs sim_api relay_driver = (Inr (), relay_reset)"
  "\<exists>i d. adam_read_inputs sim_api relay_reset = (Inr i, d) \<and> in_ats_mode i = ''auto'' \<and> d = relay_reset\<lparr>ad_debounce := ad_debounce d\<rparr>"
  "\<exists>out. adam_read_output_state sim_api (relay_reset\<lparr>ad_debounce := db\<rparr>) = (Inr out, relay_reset\<lparr>ad_debounce := db\<rparr>)"
  "map_of (ad_commanded_do (snd (adam_drive_outputs sim_api (Some 750) None None None (relay_reset\<lparr>ad_debounce := db\<rparr>)))) DO_TEST
     = Some (True, 0)"
proof -
  show "adam_release_all_outputs sim_api relay_driver = (Inr (), relay_reset)"
    by (simp add: relay_driver_def relay_reset_def sim_eval adam_release_all_outputs_def cancel_release_tasks_def
        cancel_task_def release_output_def)
  show "\<exists>out. adam_read_output_state sim_api (relay_reset\<lparr>ad_debounce := db\<rparr>) = (Inr out, relay_reset\<lparr>ad_debounce := db\<rparr>)"
    by (simp add: relay_driver_def relay_reset_def sim_eval adam_read_output_state_def adam_outputs_from_def adam_read_coils_def adam_read_bits_def
        numeral_eq_Suc)
  show "map_of (ad_commanded_do (snd (adam_drive_outputs sim_api (Some 750) None None None (relay_reset\<lparr>ad_debounce := db\<rparr>)))) DO_TEST
     = Some (True, 0)"
    by (simp add: relay_driver_def relay_reset_def sim_eval adam_pulse_def pulse_guard_def pulse_commit_def release_slot_def
        slot_pending_def schedule_release_def set_release_slot_def)
  show "\<exists>i d. adam_read_inputs sim_api relay_reset = (Inr i, d) \<and> in_ats_mode i = ''auto'' \<and> d = relay_reset\<lparr>ad_debounce := ad_debounce d\<rparr>"
    by (simp add: relay_driver_def relay_reset_def sim_eval adam_read_inputs_def adam_inputs_from_def adam_read_di_bits_def DI_READ_FN_def adam_read_bits_def
        numeral_eq_Suc adam_latch_inputs_def debounce_update_def debouncer_init_def)
qed

lemma asserted_pulse_has_release_witness:
  "\<exists>sy0 sy d k due. relay_service = Inr sy0 \<and>
    service_run (built_env sim_api) (built_ops dead_api sim_api) (first_command ADDR_CMD_TEST 1) sy0 sy \<and>
    outputs_of (sy_driver sy) = Some d \<and> rt_phase (ad_tasks d ! k) = Pulsing due \<and> 1 / 2 \<le> due \<and> due \<le> 3 / 2"
proof -
  let ?ops = "built_ops dead_api sim_api :: (unit, unit_sim) built_driver driver_ops"
  obtain sy0 where sy0: "relay_service = Inr sy0" "sy_driver sy0 = Built_Adam relay_driver" "\<not> sy_outputs_reset sy0"
      "sy_sampling sy0 = At_Start" "sy_dispatch sy0 = []" by (rule relay_service_starts)
  obtain i db where i: "adam_read_inputs sim_api relay_reset = (Inr i, relay_reset\<lparr>ad_debounce := db\<rparr>)" "in_ats_mode i = ''auto''"
    using relay_session(2) by metis
  obtain out where out: "adam_read_output_state sim_api (relay_reset\<lparr>ad_debounce := db\<rparr>) = (Inr out, relay_reset\<lparr>ad_debounce := db\<rparr>)"
    using relay_session(3) by blast
  let ?d = "snd (adam_drive_outputs sim_api (Some 750) None None None (relay_reset\<lparr>ad_debounce := db\<rparr>))"
  have "op_release_all_outputs ?ops (sy_driver sy0) = (Inr (), Built_Adam relay_reset)"
    "op_read_inputs ?ops (Built_Adam relay_reset) = (Inr i, Built_Adam (relay_reset\<lparr>ad_debounce := db\<rparr>))"
    "op_read_output_state ?ops (Built_Adam (relay_reset\<lparr>ad_debounce := db\<rparr>)) =
      (Inr out, Built_Adam (relay_reset\<lparr>ad_debounce := db\<rparr>))"
    using sy0(2) relay_session(1) i(1) out
    by (simp_all add: built_ops_def built_release_all_outputs_def built_read_inputs_def built_read_output_state_def)
  note session = first_command_runs [OF sy0(4,5,3) this(1,2) i(2) this(3), of ADDR_CMD_TEST 1
      "no_command\<lparr>ci_test_pulse_ms := Some DEFAULT_PULSE_MS\<rparr>" "built_env sim_api"]
  have "command_for ADDR_CMD_TEST 1 = Some (no_command\<lparr>ci_test_pulse_ms := Some DEFAULT_PULSE_MS\<rparr>)"
    by (simp add: command_for_def)
  then obtain sy where run: "service_run (built_env sim_api) ?ops (first_command ADDR_CMD_TEST 1) sy0 sy"
      and "sy_driver sy = snd (built_drive_outputs sim_api (Some 750) None None None (Built_Adam (relay_reset\<lparr>ad_debounce := db\<rparr>)))"
    using session by (auto simp: no_command_def built_ops_def)
  then have d: "outputs_of (sy_driver sy) = Some ?d" by (simp add: built_drive_outputs_def split: prod.split)
  have "DO_TEST \<in> {DO_TEST, DO_BYPASS_DELAY}" by simp
  from asserted_pulse_has_release [OF sy0(1) [unfolded relay_service_def] run d this relay_session(4)]
  obtain k due where task: "ad_tasks ?d ! k = \<lparr>rt_coil = DO_COIL_BASE + int DO_TEST, rt_do_index = DO_TEST, rt_phase = Pulsing due\<rparr>"
      and due: "0 + 1 / 2 \<le> due" "due \<le> 0 + 3 / 2" by blast
  then have "rt_phase (ad_tasks ?d ! k) = Pulsing due" "1 / 2 \<le> due" "due \<le> 3 / 2" by simp_all
  with sy0(1) run d show ?thesis by blast
qed

end
