(* ===== verification/Stand_In.thy ===== *)
theory Stand_In
  imports Mock Adam_Correctness
begin

text \<open>
  The mock driver as a stand-in for the relay driver.  The repository's integration tests run the service on
  \<open>io_mock.py\<close>; what they show carries over to \<open>io_adam.py\<close> where the two answer alike.  Here: on an ideal unit --
  one that is always connected, whose relays follow a write at once -- no client can tell the two drivers' outputs
  apart, pulses included.
\<close>

section \<open>What a client does to the outputs, and sees\<close>

datatype stimulus =
    Drive "int option" "bool option" "bool option" "int option"
  | Release_All
  | Wake nat
  | Wait int

text \<open>On any driver with its release tasks (\<open>release_step\<close>) and its clock (\<open>wait\<close>, in ms).\<close>

fun respond :: "'s driver_ops \<Rightarrow> (nat \<Rightarrow> ('s, unit) act) \<Rightarrow> (int \<Rightarrow> 's \<Rightarrow> 's) \<Rightarrow> stimulus \<Rightarrow> ('s, unit) act" where
  "respond ops release_step wait (Drive t i f b) = op_drive_outputs ops t i f b"
| "respond ops release_step wait Release_All = op_release_all_outputs ops"
| "respond ops release_step wait (Wake k) = release_step k"
| "respond ops release_step wait (Wait ms) = modify (wait ms)"

text \<open>After each stimulus, what the sampling loop reads: the outputs, the verdict on them, the fail-safe's state.\<close>

definition observe :: "'s driver_ops \<Rightarrow> ('s, OutputState \<times> bool \<times> bool) act" where
  "observe ops =
     andthen (op_read_output_state ops) (\<lambda>out.
     gets (\<lambda>s. (out, op_check_output_consistency ops out s, op_hw_watchdog_ok ops s)))"

fun responses :: "'s driver_ops \<Rightarrow> (nat \<Rightarrow> ('s, unit) act) \<Rightarrow> (int \<Rightarrow> 's \<Rightarrow> 's) \<Rightarrow> stimulus list \<Rightarrow> 's \<Rightarrow>
    ((exc + unit) \<times> (exc + OutputState \<times> bool \<times> bool)) list" where
  "responses ops release_step wait [] s = []"
| "responses ops release_step wait (x # xs) s =
     (case respond ops release_step wait x s of
        (r, s1) \<Rightarrow> (case observe ops s1 of (out, s2) \<Rightarrow> (r, out) # responses ops release_step wait xs s2))"

definition mock_wait :: "int \<Rightarrow> mock \<Rightarrow> mock" where
  "mock_wait ms m = m\<lparr>mk_now_ms := mk_now_ms m + ms\<rparr>"

definition adam_wait :: "(int \<Rightarrow> 'w \<Rightarrow> 'w) \<Rightarrow> int \<Rightarrow> 'w adam \<Rightarrow> 'w adam" where
  "adam_wait wait ms d = d\<lparr>lk_env := wait ms (lk_env d)\<rparr>"

section \<open>The ideal unit\<close>

text \<open>In a \<open>good\<close> world, \<open>relay w a\<close> is the coil at address \<open>a\<close>; requests take no time.\<close>

definition ideal_unit :: "'w modbus_api \<Rightarrow> ('w \<Rightarrow> bool) \<Rightarrow> ('w \<Rightarrow> int \<Rightarrow> bool) \<Rightarrow> (int \<Rightarrow> 'w \<Rightarrow> 'w) \<Rightarrow> bool" where
  "ideal_unit api good relay wait \<longleftrightarrow> (\<forall>w. good w \<longrightarrow> api_connected api w \<and>
     (\<forall>a b u. \<exists>w'. api_write_coil api a b u w = (Inr (Response ()), w') \<and>
        good w' \<and> relay w' = (relay w)(a := b) \<and> api_monotonic api w' = api_monotonic api w) \<and>
     (\<forall>a n u. \<exists>w'. api_read_bits api Read_Coils a n u w =
          (Inr (Response (map (\<lambda>i. relay w (a + int i)) [0..<nat n])), w') \<and>
        good w' \<and> relay w' = relay w \<and> api_monotonic api w' = api_monotonic api w) \<and>
     (\<forall>ms. good (wait ms w) \<and> relay (wait ms w) = relay w \<and>
        api_monotonic api (wait ms w) = api_monotonic api w + of_int ms / 1000))"

definition powered :: "('w \<Rightarrow> bool) \<Rightarrow> 'w adam \<Rightarrow> bool" where
  "powered good d \<longleftrightarrow> good (lk_env d) \<and> lk_client d \<and> lk_connected d"

lemma ensure_powered:
  assumes "ideal_unit api good relay wait" and "powered good d"
  shows "adam_ensure_connected api d = (Inr (), d)"
  using assms by (simp add: ideal_unit_def powered_def adam_ensure_connected_def ensure_connected_def act_simps)

lemma write_powered:
  assumes "ideal_unit api good relay wait" and "powered good d"
  obtains w where "adam_write_coil api a b d = (Inr (), d\<lparr>lk_env := w\<rparr>)" and "powered good (d\<lparr>lk_env := w\<rparr>)"
    and "relay w = (relay (lk_env d))(a := b)" and "now api (d\<lparr>lk_env := w\<rparr>) = now api d"
proof -
  obtain w where "api_write_coil api a b (ad_unit_id d) (lk_env d) = (Inr (Response ()), w)" "good w"
    "relay w = (relay (lk_env d))(a := b)" "api_monotonic api w = api_monotonic api (lk_env d)"
    using assms unfolding ideal_unit_def powered_def by blast
  with assms(2) show ?thesis
    by (intro that [of w])
      (simp_all add: adam_write_coil_def ensure_powered [OF assms] act_simps request_def call_def checked_response_def powered_def now_def)
qed

lemma read_powered:
  assumes "ideal_unit api good relay wait" and "powered good d"
  obtains w where "adam_read_output_state api d =
      (Inr \<lparr>out_test_active = relay (lk_env d) DO_COIL_BASE, out_inhibit_active = relay (lk_env d) (DO_COIL_BASE + 2),
        out_force_transfer_active = relay (lk_env d) (DO_COIL_BASE + 1),
        out_bypass_delay_active = relay (lk_env d) (DO_COIL_BASE + 3)\<rparr>, d\<lparr>lk_env := w\<rparr>)"
    and "powered good (d\<lparr>lk_env := w\<rparr>)" and "relay w = relay (lk_env d)" and "now api (d\<lparr>lk_env := w\<rparr>) = now api d"
proof -
  obtain w where "api_read_bits api Read_Coils DO_COIL_BASE 6 (ad_unit_id d) (lk_env d) =
      (Inr (Response (map (\<lambda>i. relay (lk_env d) (DO_COIL_BASE + int i)) [0..<nat 6])), w)" "good w"
    "relay w = relay (lk_env d)" "api_monotonic api w = api_monotonic api (lk_env d)"
    using assms unfolding ideal_unit_def powered_def by blast
  with assms(2) show ?thesis
    by (intro that [of w])
      (simp_all add: adam_read_output_state_def adam_outputs_from_def adam_read_coils_def adam_read_bits_def ensure_powered [OF assms]
        act_simps request_def call_def checked_response_def powered_def now_def py_take_def py_index_def upt_rec)
qed

section \<open>The two drivers in step\<close>

text \<open>The relays and the driver's record of them carry the given values.\<close>

definition drives :: "('w \<Rightarrow> bool) \<Rightarrow> ('w \<Rightarrow> int \<Rightarrow> bool) \<Rightarrow> (command_output \<Rightarrow> bool) \<Rightarrow> 'w adam \<Rightarrow> bool" where
  "drives good relay on d \<longleftrightarrow> powered good d \<and> ad_hw_watchdog_ok d \<and>
     (\<forall>out. relay (lk_env d) (DO_COIL_BASE + int (do_index_of out)) = on out) \<and>
     distinct (map fst (ad_commanded_do d)) \<and>
     fst ` set (ad_commanded_do d) \<subseteq> range do_index_of \<and>
     (\<forall>out v t. map_of (ad_commanded_do d) (do_index_of out) = Some (v, t) \<longrightarrow> v = on out)"

lemma drives_recordD:
  assumes "drives good relay on d" and "(i, v, t) \<in> set (ad_commanded_do d)"
  obtains out where "i = do_index_of out" and "v = on out"
proof -
  from assms(2) have "i \<in> fst ` set (ad_commanded_do d)" by force
  then obtain out where out: "i = do_index_of out" using assms(1) unfolding drives_def by blast
  have "map_of (ad_commanded_do d) i = Some (v, t)" using assms unfolding drives_def by simp
  with assms(1) out have "v = on out" unfolding drives_def by blast
  with out show ?thesis by (rule that)
qed

lemma do_index_inj [simp]: "do_index_of a = do_index_of b \<longleftrightarrow> a = b"
  by (cases a; cases b) simp_all

definition driven :: "'w modbus_api \<Rightarrow> command_output \<Rightarrow> bool \<Rightarrow> 'w \<Rightarrow> 'w adam \<Rightarrow> 'w adam" where
  "driven api out b w d = d\<lparr>lk_env := w,
     ad_commanded_do := AList.update (do_index_of out) (b, now api d) (ad_commanded_do d)\<rparr>"

lemma drives_driven:
  assumes "drives good relay on d" and "powered good (d\<lparr>lk_env := w\<rparr>)"
    and "relay w = (relay (lk_env d))(DO_COIL_BASE + int (do_index_of out) := b)"
  shows "drives good relay (on(out := b)) (driven api out b w d)"
  using assms unfolding drives_def driven_def
  by (auto simp: powered_def update_conv' distinct_update dom_update split: if_splits)

lemma drive_one:
  assumes "ideal_unit api good relay wait" and "drives good relay on d"
  obtains w where "andthen (adam_write_coil api (DO_COIL_BASE + int (do_index_of out)) b)
      (\<lambda>_. record_commanded api (do_index_of out) b) d = (Inr (), driven api out b w d)"
    and "drives good relay (on(out := b)) (driven api out b w d)" and "now api (driven api out b w d) = now api d"
proof -
  have "powered good d" using assms(2) by (simp add: drives_def)
  from write_powered [OF assms(1) this, of "DO_COIL_BASE + int (do_index_of out)" b] obtain w where
    w: "adam_write_coil api (DO_COIL_BASE + int (do_index_of out)) b d = (Inr (), d\<lparr>lk_env := w\<rparr>)"
    "powered good (d\<lparr>lk_env := w\<rparr>)" "relay w = (relay (lk_env d))(DO_COIL_BASE + int (do_index_of out) := b)"
    "now api (d\<lparr>lk_env := w\<rparr>) = now api d" .
  from w(4) have "now api (driven api out b w d) = now api d" by (simp add: driven_def now_def)
  moreover have "andthen (adam_write_coil api (DO_COIL_BASE + int (do_index_of out)) b)
      (\<lambda>_. record_commanded api (do_index_of out) b) d = (Inr (), driven api out b w d)"
    using w(1,4) by (simp add: act_simps record_commanded_def driven_def)
  ultimately show ?thesis using drives_driven [OF assms(2) w(2,3)] that by blast
qed

text \<open>The mock's outputs, tasks and slots, by pulse.\<close>

abbreviation mock_on :: "mock \<Rightarrow> command_output \<Rightarrow> bool" where
  "mock_on m \<equiv> (\<lambda>out. mock_commanded m out = Some True)"

fun pulsed :: "pulse_output \<Rightarrow> command_output" where
  "pulsed Test_Pulse = Test"
| "pulsed Bypass_Pulse = Bypass_Delay"

fun mock_slot :: "pulse_output \<Rightarrow> mock \<Rightarrow> nat option" where
  "mock_slot Test_Pulse m = mk_test_release_task m"
| "mock_slot Bypass_Pulse m = mk_bypass_release_task m"

definition mock_pending :: "mock \<Rightarrow> nat \<Rightarrow> bool" where
  "mock_pending m k \<longleftrightarrow> k < length (mk_tasks m) \<and> \<not> mt_done (mk_tasks m ! k)"

text \<open>Every pending task is in its output's slot, and an output is on exactly while the task in its slot is pending.\<close>

definition slots_ok :: "mock \<Rightarrow> bool" where
  "slots_ok m \<longleftrightarrow>
     (\<forall>p k. mock_slot p m = Some k \<longrightarrow> k < length (mk_tasks m) \<and> mt_which (mk_tasks m ! k) = p) \<and>
     (\<forall>k. mock_pending m k \<longrightarrow> mock_slot (mt_which (mk_tasks m ! k)) m = Some k)"

definition mock_ok :: "mock \<Rightarrow> bool" where
  "mock_ok m \<longleftrightarrow> slots_ok m \<and> (\<forall>p. mock_on m (pulsed p) \<longleftrightarrow> (\<exists>k. mock_slot p m = Some k \<and> mock_pending m k))"

definition task_matches :: "real \<Rightarrow> mock_task \<Rightarrow> release_task \<Rightarrow> bool" where
  "task_matches t0 mt rt \<longleftrightarrow> rt_do_index rt = do_index_of (pulsed (mt_which mt)) \<and>
     rt_coil rt = DO_COIL_BASE + int (rt_do_index rt) \<and>
     (if mt_done mt then task_done rt else rt_phase rt = Pulsing (t0 + of_int (mt_due_ms mt) / 1000))"

definition tasks_match :: "real \<Rightarrow> mock \<Rightarrow> 'w adam \<Rightarrow> bool" where
  "tasks_match t0 m d \<longleftrightarrow> list_all2 (task_matches t0) (mk_tasks m) (ad_tasks d) \<and>
     (\<forall>p. release_slot (do_index_of (pulsed p)) d = mock_slot p m)"

definition lockstep :: "'w modbus_api \<Rightarrow> ('w \<Rightarrow> bool) \<Rightarrow> ('w \<Rightarrow> int \<Rightarrow> bool) \<Rightarrow> real \<Rightarrow> mock \<Rightarrow> 'w adam \<Rightarrow> bool" where
  "lockstep api good relay t0 m d \<longleftrightarrow> drives good relay (mock_on m) d \<and> tasks_match t0 m d \<and> mock_ok m \<and>
     now api d = t0 + of_int (mk_now_ms m) / 1000"

lemma tasks_match_driven [simp]: "tasks_match t0 m (driven api out b w d) = tasks_match t0 m d"
  by (simp add: tasks_match_def driven_def release_slot_def)

lemma task_matches_done: "task_matches t0 mt rt \<Longrightarrow> task_done rt = mt_done mt"
  by (auto simp: task_matches_def task_done_def split: if_splits)

lemma slot_pending_match:
  assumes "tasks_match t0 m d"
  shows "slot_pending (release_slot (do_index_of (pulsed p)) d) (ad_tasks d) \<longleftrightarrow> (\<exists>k. mock_slot p m = Some k \<and> mock_pending m k)"
proof -
  have "length (mk_tasks m) = length (ad_tasks d)" and "k < length (ad_tasks d) \<Longrightarrow> task_done (ad_tasks d ! k) = mt_done (mk_tasks m ! k)" for k
    using assms by (auto simp: tasks_match_def list_all2_conv_all_nth dest: task_matches_done)
  with assms show ?thesis by (auto simp: tasks_match_def slot_pending_def mock_pending_def split: option.split)
qed

section \<open>Operation by operation\<close>

lemma maintained_lockstep:
  assumes ideal: "ideal_unit api good relay wait" and step: "lockstep api good relay t0 m d"
    and off: "mock_on m' = (mock_on m)(out := b)" "out \<in> {Inhibit, Force_Transfer}"
    and same: "mk_tasks m' = mk_tasks m" "\<And>p. mock_slot p m' = mock_slot p m" "mk_now_ms m' = mk_now_ms m"
  obtains d' where "adam_maintained api (do_index_of out) (Some b) d = (Inr (), d')" and "lockstep api good relay t0 m' d'"
proof -
  from step have dr: "drives good relay (mock_on m) d" by (simp add: lockstep_def)
  obtain w where w: "andthen (adam_write_coil api (DO_COIL_BASE + int (do_index_of out)) b)
      (\<lambda>_. record_commanded api (do_index_of out) b) d = (Inr (), driven api out b w d)"
    "drives good relay ((mock_on m)(out := b)) (driven api out b w d)" "now api (driven api out b w d) = now api d"
    using drive_one [OF ideal dr] .
  have on: "mock_on m' (pulsed p) = mock_on m (pulsed p)" for p
    using fun_cong [OF off(1), of "pulsed p"] off(2) by (cases p) auto
  have "mock_ok m'"
    using step on unfolding lockstep_def mock_ok_def slots_ok_def mock_pending_def same by simp
  moreover have "tasks_match t0 m' (driven api out b w d)"
    unfolding tasks_match_driven using step by (simp add: lockstep_def tasks_match_def same)
  ultimately have "lockstep api good relay t0 m' (driven api out b w d)"
    using w(2,3) step by (simp add: lockstep_def off(1) same)
  with w(1) show ?thesis by (intro that) (simp_all add: adam_maintained_def)
qed

lemma pulsed_inj [simp]: "pulsed p = pulsed q \<longleftrightarrow> p = q"
  by (cases p; cases q) simp_all

text \<open>A pulse: ignored while the output is on, otherwise a new task in its slot.\<close>

lemma mock_pulse_on: "mock_on m (pulsed p) \<Longrightarrow> mock_pulse p ms m = m"
  by (cases p) (simp_all add: mock_pulse_def Let_def)

lemma mock_pulse_starts:
  assumes "\<not> mock_on m (pulsed p)"
  shows "mock_on (mock_pulse p ms m) = (mock_on m)(pulsed p := True)"
    and "mk_tasks (mock_pulse p ms m) =
      mk_tasks m @ [\<lparr>mt_which = p, mt_due_ms = mk_now_ms m + pulse_ms ms, mt_done = False\<rparr>]"
    and "mock_slot q (mock_pulse p ms m) = (if q = p then Some (length (mk_tasks m)) else mock_slot q m)"
    and "mk_now_ms (mock_pulse p ms m) = mk_now_ms m"
proof -
  show "mock_on (mock_pulse p ms m) = (mock_on m)(pulsed p := True)"
  proof
    show "mock_on (mock_pulse p ms m) out = ((mock_on m)(pulsed p := True)) out" for out
      using assms by (cases p; cases out) (simp_all add: mock_pulse_def Let_def)
  qed
qed (use assms in \<open>cases p; cases q; simp add: mock_pulse_def Let_def pulse_ms_def\<close>)+

lemma mock_ok_pulse:
  assumes "mock_ok m" and "\<not> mock_on m (pulsed p)"
  shows "mock_ok (mock_pulse p ms m)"
proof -
  let ?m = "mock_pulse p ms m"
  note new = mock_pulse_starts [OF assms(2), where ms = ms]
  have old: "mock_pending ?m k \<longleftrightarrow> k = length (mk_tasks m) \<or> mock_pending m k" for k
    by (auto simp: mock_pending_def new nth_append less_Suc_eq)
  have other: "mt_which (mk_tasks m ! k) \<noteq> p" if "mock_pending m k" for k
    using assms that unfolding mock_ok_def slots_ok_def by metis
  have nth: "k < length (mk_tasks m) \<Longrightarrow> mk_tasks ?m ! k = mk_tasks m ! k" for k
    by (simp add: new nth_append)
  have "slots_ok ?m"
    unfolding slots_ok_def
  proof (intro conjI allI impI)
    fix q k assume "mock_slot q ?m = Some k"
    with assms(1) nth show "k < length (mk_tasks ?m)" "mt_which (mk_tasks ?m ! k) = q"
      by (auto simp: new mock_ok_def slots_ok_def less_SucI split: if_splits)
  next
    fix k assume "mock_pending ?m k"
    then consider "k = length (mk_tasks m)" | "mock_pending m k" unfolding old by blast
    then show "mock_slot (mt_which (mk_tasks ?m ! k)) ?m = Some k"
    proof cases
      case 2
      with assms(1) nth [of k] other [of k] show ?thesis
        by (simp add: new(3) mock_ok_def slots_ok_def mock_pending_def)
    qed (simp add: new)
  qed
  moreover have "mock_on ?m (pulsed q) \<longleftrightarrow> (\<exists>k. mock_slot q ?m = Some k \<and> mock_pending ?m k)" for q
  proof (cases "q = p")
    case False
    then have "mock_slot q ?m = mock_slot q m" "mock_on ?m (pulsed q) = mock_on m (pulsed q)"
      using fun_cong [OF new(1), of "pulsed q"] by (simp_all add: new(3) del: mock_commanded.simps)
    with assms(1) show ?thesis by (auto simp: old mock_ok_def slots_ok_def)
  qed (use fun_cong [OF new(1), of "pulsed p"] in \<open>simp add: new(3) old del: mock_commanded.simps\<close>)
  ultimately show ?thesis by (simp add: mock_ok_def)
qed

lemma pulse_lockstep:
  assumes ideal: "ideal_unit api good relay wait" and step: "lockstep api good relay t0 m d"
  obtains d' where "adam_pulse api (do_index_of (pulsed p)) ms d = (Inr (), d')"
    and "lockstep api good relay t0 (mock_pulse p ms m) d'"
proof (cases "mock_on m (pulsed p)")
  case True
  with step have "slot_pending (release_slot (do_index_of (pulsed p)) d) (ad_tasks d)"
    by (subst slot_pending_match [of t0 m]) (simp_all add: lockstep_def mock_ok_def)
  then have "adam_pulse api (do_index_of (pulsed p)) ms d = (Inr (), d)"
    by (simp add: adam_pulse_def pulse_guard_def act_simps)
  moreover have "lockstep api good relay t0 (mock_pulse p ms m) d"
    using step True by (simp only: mock_pulse_on)
  ultimately show ?thesis by (rule that)
next
  case False
  note new = mock_pulse_starts [OF False, where ms = ms]
  from step have dr: "drives good relay (mock_on m) d" and match: "tasks_match t0 m d" and ok: "mock_ok m"
    and clock: "now api d = t0 + of_int (mk_now_ms m) / 1000"
    by (simp_all add: lockstep_def)
  have free: "\<not> slot_pending (release_slot (do_index_of (pulsed p)) d) (ad_tasks d)"
    using False ok by (subst slot_pending_match [OF match]) (simp add: mock_ok_def)
  obtain w where w: "andthen (adam_write_coil api (DO_COIL_BASE + int (do_index_of (pulsed p))) True)
      (\<lambda>_. record_commanded api (do_index_of (pulsed p)) True) d = (Inr (), driven api (pulsed p) True w d)"
    "drives good relay ((mock_on m)(pulsed p := True)) (driven api (pulsed p) True w d)"
    "now api (driven api (pulsed p) True w d) = now api d"
    using drive_one [OF ideal dr] .
  let ?d = "snd (schedule_release api (do_index_of (pulsed p)) (pulse_ms ms) (driven api (pulsed p) True w d))"
  have commit: "pulse_commit api i ms = andthen (andthen (adam_write_coil api (DO_COIL_BASE + int i) True)
      (\<lambda>_. record_commanded api i True)) (\<lambda>_. schedule_release api i (pulse_ms ms))" for i
    by (simp add: pulse_commit_def andthen_assoc)
  have "adam_pulse api (do_index_of (pulsed p)) ms d = (Inr (), ?d)"
    using free w(1) by (simp add: adam_pulse_def pulse_guard_def commit andthen_def gets_def schedule_release_def modify_def)
  moreover have "lockstep api good relay t0 (mock_pulse p ms m) ?d"
    unfolding lockstep_def
  proof (intro conjI)
    show "drives good relay (mock_on (mock_pulse p ms m)) ?d"
      using w(2) by (simp only: new) (simp add: drives_def powered_def schedule_release_def modify_def set_release_slot_def)
    show "mock_ok (mock_pulse p ms m)" using ok False by (rule mock_ok_pulse)
    show "now api ?d = t0 + of_int (mk_now_ms (mock_pulse p ms m)) / 1000"
      using w(3) clock by (simp add: new schedule_release_def modify_def set_release_slot_def now_def)
    have len: "length (mk_tasks m) = length (ad_tasks d)"
      using match by (auto simp: tasks_match_def dest: list_all2_lengthD)
    have tasks: "ad_tasks ?d = ad_tasks d @ [\<lparr>rt_coil = DO_COIL_BASE + int (do_index_of (pulsed p)),
        rt_do_index = do_index_of (pulsed p), rt_phase = Pulsing (now api d + of_int (pulse_ms ms) / 1000)\<rparr>]"
      by (cases p) (use w(3) in \<open>simp_all add: schedule_release_def modify_def set_release_slot_def driven_def\<close>)
    show "tasks_match t0 (mock_pulse p ms m) ?d"
      unfolding tasks_match_def
    proof (intro conjI allI)
      show "list_all2 (task_matches t0) (mk_tasks (mock_pulse p ms m)) (ad_tasks ?d)"
        unfolding tasks new using match clock
        by (intro list_all2_appendI) (simp_all add: tasks_match_def task_matches_def add_divide_distrib)
      show "release_slot (do_index_of (pulsed q)) ?d = mock_slot q (mock_pulse p ms m)" for q
        using match len unfolding new tasks_match_def
        by (cases p; cases q) (auto simp: schedule_release_def modify_def set_release_slot_def driven_def release_slot_def
          dest: spec [of _ q])
    qed
  qed
  ultimately show ?thesis by (rule that)
qed

text \<open>Releasing everything: the release tasks are cancelled, then the four outputs dropped.\<close>

lemma release_driven:
  assumes "ideal_unit api good relay wait" and "drives good relay on d"
  obtains w where "release_output api (do_index_of out) d = (Inr (), driven api out False w d)"
    and "drives good relay (on(out := False)) (driven api out False w d)"
    and "now api (driven api out False w d) = now api d"
  using drive_one [OF assms, of out False] unfolding release_output_def .

lemma cancel_match:
  assumes "list_all2 (task_matches t0) ts rs"
  shows "list_all2 (task_matches t0) (mock_cancel slot ts) (cancel_task slot rs)"
  using assms
  by (auto simp: list_all2_conv_all_nth mock_cancel_def cancel_task_def nth_list_update task_matches_def task_done_def
      split: option.split if_splits)

lemma mock_cancel_props:
  "length (mock_cancel slot ts) = length ts"
  "k < length ts \<Longrightarrow> mt_which (mock_cancel slot ts ! k) = mt_which (ts ! k)"
  "k < length ts \<Longrightarrow> mt_done (mock_cancel slot ts ! k) \<longleftrightarrow> slot = Some k \<or> mt_done (ts ! k)"
  by (auto simp: mock_cancel_def nth_list_update split: option.split)

lemma mock_release_all:
  fixes m
  defines "m' \<equiv> snd (mock_release_all_outputs m)"
  shows "mock_on m' = (\<lambda>_. False)" and "mock_slot p m' = mock_slot p m" and "mk_now_ms m' = mk_now_ms m"
    and "mk_tasks m' = mock_cancel (mk_bypass_release_task m) (mock_cancel (mk_test_release_task m) (mk_tasks m))"
    and "fst (mock_release_all_outputs m) = Inr ()"
proof -
  show "mock_on m' = (\<lambda>_. False)"
  proof
    show "mock_on m' out = False" for out
      by (cases out) (simp_all add: m'_def mock_release_all_outputs_def modify_def)
  qed
qed (cases p; simp add: m'_def mock_release_all_outputs_def mock_cancel_all_def modify_def)+

lemma mock_ok_released:
  assumes "slots_ok m"
  shows "mock_ok (snd (mock_release_all_outputs m))"
proof -
  let ?m = "snd (mock_release_all_outputs m)"
  note new = mock_release_all(2-4) [where m = m]
  have none: "\<not> mock_pending ?m k" for k
  proof
    assume "mock_pending ?m k"
    then have k: "k < length (mk_tasks m)" "\<not> mt_done (mk_tasks m ! k)" "mk_test_release_task m \<noteq> Some k"
      "mk_bypass_release_task m \<noteq> Some k"
      by (auto simp: mock_pending_def new mock_cancel_props)
    then have "mock_slot (mt_which (mk_tasks m ! k)) m = Some k"
      using assms by (simp add: slots_ok_def mock_pending_def)
    with k(3,4) show False by (cases "mt_which (mk_tasks m ! k)") simp_all
  qed
  with assms show ?thesis
    using fun_cong [OF mock_release_all(1) [where m = m]]
    by (auto simp: mock_ok_def slots_ok_def new mock_cancel_props simp del: mock_commanded.simps)
qed

lemma release_all_lockstep:
  assumes ideal: "ideal_unit api good relay wait" and dr: "drives good relay on d" and match: "tasks_match t0 m d"
    and ok: "slots_ok m" and clock: "now api d = t0 + of_int (mk_now_ms m) / 1000"
  obtains d' where "adam_release_all_outputs api d = (Inr (), d')"
    and "lockstep api good relay t0 (snd (mock_release_all_outputs m)) d'"
proof -
  let ?m = "snd (mock_release_all_outputs m)"
  define d0 where "d0 = snd (cancel_release_tasks d)"
  have d0: "cancel_release_tasks d = (Inr (), d0)" "drives good relay on d0" "now api d0 = now api d"
    using dr by (simp_all add: d0_def cancel_release_tasks_def modify_def drives_def powered_def now_def)
  have slots: "release_slot i d0 = release_slot i d" for i
    by (simp add: d0_def cancel_release_tasks_def modify_def release_slot_def)
  have "list_all2 (task_matches t0) (mk_tasks ?m) (ad_tasks d0)"
  proof -
    have "release_slot (do_index_of (pulsed p)) d = mock_slot p m" for p
      using match by (simp add: tasks_match_def)
    from this [of Test_Pulse] this [of Bypass_Pulse] match show ?thesis
      by (simp add: d0_def cancel_release_tasks_def modify_def mock_release_all release_slot_def tasks_match_def cancel_match)
  qed
  then have match0: "tasks_match t0 ?m d0"
    using match slots unfolding tasks_match_def mock_release_all(2) by simp
  obtain w1 where r1: "release_output api (do_index_of Test) d0 = (Inr (), driven api Test False w1 d0)"
    "drives good relay (on(Test := False)) (driven api Test False w1 d0)" "now api (driven api Test False w1 d0) = now api d0"
    using release_driven [OF ideal d0(2)] .
  define d1 where "d1 = driven api Test False w1 d0"
  obtain w2 where r2: "release_output api (do_index_of Force_Transfer) d1 = (Inr (), driven api Force_Transfer False w2 d1)"
    "drives good relay (on(Test := False, Force_Transfer := False)) (driven api Force_Transfer False w2 d1)"
    "now api (driven api Force_Transfer False w2 d1) = now api d1"
    using release_driven [OF ideal r1(2) [folded d1_def]] .
  define d2 where "d2 = driven api Force_Transfer False w2 d1"
  obtain w3 where r3: "release_output api (do_index_of Inhibit) d2 = (Inr (), driven api Inhibit False w3 d2)"
    "drives good relay (on(Test := False, Force_Transfer := False, Inhibit := False)) (driven api Inhibit False w3 d2)"
    "now api (driven api Inhibit False w3 d2) = now api d2"
    using release_driven [OF ideal r2(2) [folded d2_def]] .
  define d3 where "d3 = driven api Inhibit False w3 d2"
  obtain w4 where r4: "release_output api (do_index_of Bypass_Delay) d3 = (Inr (), driven api Bypass_Delay False w4 d3)"
    "drives good relay (on(Test := False, Force_Transfer := False, Inhibit := False, Bypass_Delay := False))
      (driven api Bypass_Delay False w4 d3)"
    "now api (driven api Bypass_Delay False w4 d3) = now api d3"
    using release_driven [OF ideal r3(2) [folded d3_def]] .
  let ?d = "driven api Bypass_Delay False w4 d3"
  have "adam_release_all_outputs api d = (Inr (), ?d)"
    using d0(1) r1(1) r2(1) r3(1) r4(1)
    by (simp add: adam_release_all_outputs_def andthen_def d1_def [symmetric] d2_def [symmetric] d3_def [symmetric])
  moreover have "on(Test := False, Force_Transfer := False, Inhibit := False, Bypass_Delay := False) = mock_on ?m"
    unfolding mock_release_all(1)
  proof
    show "(on(Test := False, Force_Transfer := False, Inhibit := False, Bypass_Delay := False)) out = False" for out
      by (cases out) simp_all
  qed
  moreover have "tasks_match t0 ?m ?d" using match0 by (simp add: d1_def d2_def d3_def)
  moreover have "now api ?d = t0 + of_int (mk_now_ms ?m) / 1000"
    using r1(3) r2(3) r3(3) r4(3) d0(3) clock by (simp add: d1_def d2_def d3_def mock_release_all)
  ultimately show ?thesis using r4(2) mock_ok_released [OF ok] that unfolding lockstep_def by metis
qed

text \<open>A release task given the chance to run.\<close>

lemma mock_release_step_due:
  assumes "mock_pending m k" and "mt_due_ms (mk_tasks m ! k) \<le> mk_now_ms m"
  defines "p \<equiv> mt_which (mk_tasks m ! k)" and "m' \<equiv> mock_release_step k m"
  shows "mock_on m' = (mock_on m)(pulsed p := False)" and "mock_slot q m' = mock_slot q m" and "mk_now_ms m' = mk_now_ms m"
    and "mk_tasks m' = (mk_tasks m)[k := (mk_tasks m ! k)\<lparr>mt_done := True\<rparr>]"
proof -
  show "mock_on m' = (mock_on m)(pulsed p := False)"
  proof
    show "mock_on m' out = ((mock_on m)(pulsed p := False)) out" for out
      using assms(1,2) by (cases p; cases out) (simp_all add: p_def m'_def mock_release_step_def mock_pending_def Let_def)
  qed
qed (use assms(1,2) in \<open>cases p; cases q; simp add: p_def m'_def mock_release_step_def mock_pending_def Let_def\<close>)+

lemma mock_ok_step:
  assumes "mock_ok m" and "mock_pending m k" and "mt_due_ms (mk_tasks m ! k) \<le> mk_now_ms m"
  shows "mock_ok (mock_release_step k m)"
proof -
  let ?m = "mock_release_step k m" and ?p = "mt_which (mk_tasks m ! k)"
  note new = mock_release_step_due [OF assms(2,3)]
  have pend: "mock_pending ?m j \<longleftrightarrow> mock_pending m j \<and> j \<noteq> k" for j
    by (cases "j = k") (auto simp: mock_pending_def new)
  have which: "j < length (mk_tasks m) \<Longrightarrow> mt_which (mk_tasks ?m ! j) = mt_which (mk_tasks m ! j)" for j
    by (cases "j = k") (simp_all add: new)
  have slot: "mock_slot ?p m = Some k" using assms(1,2) by (simp add: mock_ok_def slots_ok_def)
  have "mock_on ?m (pulsed q) \<longleftrightarrow> (\<exists>j. mock_slot q ?m = Some j \<and> mock_pending ?m j)" for q
  proof (cases "q = ?p")
    case True
    with slot show ?thesis using fun_cong [OF new(1), of "pulsed q"] by (simp add: new(2) pend del: mock_commanded.simps)
  next
    case False
    then have "mock_slot q m \<noteq> Some k" using assms(1) by (auto simp: mock_ok_def slots_ok_def)
    with False assms(1) show ?thesis
      using fun_cong [OF new(1), of "pulsed q"] by (auto simp: new(2) pend mock_ok_def simp del: mock_commanded.simps)
  qed
  moreover have "slots_ok ?m"
    unfolding slots_ok_def
  proof (intro conjI allI impI)
    fix q j assume "mock_slot q ?m = Some j"
    with assms(1) have "j < length (mk_tasks m)" "mt_which (mk_tasks m ! j) = q"
      unfolding new(2) mock_ok_def slots_ok_def by blast+
    with which show "j < length (mk_tasks ?m)" "mt_which (mk_tasks ?m ! j) = q" by (simp_all add: new(4))
  next
    fix j assume "mock_pending ?m j"
    then have "mock_pending m j" by (simp add: pend)
    moreover from this have "j < length (mk_tasks m)" by (simp add: mock_pending_def)
    ultimately show "mock_slot (mt_which (mk_tasks ?m ! j)) ?m = Some j"
      using assms(1) by (simp add: which new(2) mock_ok_def slots_ok_def)
  qed
  ultimately show ?thesis by (simp add: mock_ok_def)
qed

lemma release_step_lockstep:
  assumes ideal: "ideal_unit api good relay wait" and step: "lockstep api good relay t0 m d"
  obtains d' where "adam_release_step api k d = (Inr (), d')" and "lockstep api good relay t0 (mock_release_step k m) d'"
proof -
  from step have dr: "drives good relay (mock_on m) d" and match: "tasks_match t0 m d" and ok: "mock_ok m"
    and clock: "now api d = t0 + of_int (mk_now_ms m) / 1000"
    by (simp_all add: lockstep_def)
  have len: "length (mk_tasks m) = length (ad_tasks d)"
    using match by (auto simp: tasks_match_def dest: list_all2_lengthD)
  have task: "k < length (ad_tasks d) \<Longrightarrow> task_matches t0 (mk_tasks m ! k) (ad_tasks d ! k)"
    using match by (simp add: tasks_match_def list_all2_conv_all_nth)
  show ?thesis
  proof (cases "mock_pending m k \<and> mt_due_ms (mk_tasks m ! k) \<le> mk_now_ms m")
    case False
    have "mock_release_step k m = m" using False by (auto simp: mock_release_step_def mock_pending_def)
    moreover have "adam_release_step api k d = (Inr (), d)"
    proof (cases "k < length (ad_tasks d)")
      case True
      from task [OF True] False len clock show ?thesis
        by (auto simp: adam_release_step_def act_simps task_matches_def task_done_def mock_pending_def divide_strict_right_mono
          split: if_splits release_phase.splits)
    qed (simp add: adam_release_step_def act_simps)
    ultimately show ?thesis using step that by metis
  next
    case True
    let ?out = "pulsed (mt_which (mk_tasks m ! k))" and ?m = "mock_release_step k m"
    note new = mock_release_step_due [OF conjunct1 [OF True] conjunct2 [OF True]]
    from True len have k: "k < length (ad_tasks d)" "\<not> mt_done (mk_tasks m ! k)" by (simp_all add: mock_pending_def)
    with task have rt: "rt_do_index (ad_tasks d ! k) = do_index_of ?out" "rt_coil (ad_tasks d ! k) = DO_COIL_BASE + int (do_index_of ?out)"
      "rt_phase (ad_tasks d ! k) = Pulsing (t0 + of_int (mt_due_ms (mk_tasks m ! k)) / 1000)"
      by (simp_all add: task_matches_def)
    have due: "\<not> now api d < t0 + of_int (mt_due_ms (mk_tasks m ! k)) / 1000"
      using True clock by (simp add: divide_right_mono)
    let ?rec = "snd (record_commanded api (do_index_of ?out) False d)"
    have "powered good ?rec" using dr by (simp add: drives_def powered_def record_commanded_def modify_def)
    from write_powered [OF ideal this, of "DO_COIL_BASE + int (do_index_of ?out)" False] obtain w where
      w: "adam_write_coil api (DO_COIL_BASE + int (do_index_of ?out)) False ?rec = (Inr (), ?rec\<lparr>lk_env := w\<rparr>)"
      "powered good (?rec\<lparr>lk_env := w\<rparr>)" "relay w = (relay (lk_env ?rec))(DO_COIL_BASE + int (do_index_of ?out) := False)"
      "now api (?rec\<lparr>lk_env := w\<rparr>) = now api ?rec" .
    have rec: "?rec\<lparr>lk_env := w\<rparr> = driven api ?out False w d"
      by (simp add: record_commanded_def modify_def driven_def)
    let ?d = "snd (set_phase k Released (driven api ?out False w d))"
    have tasks: "ad_tasks ?d = (ad_tasks d)[k := (ad_tasks d ! k)\<lparr>rt_phase := Released\<rparr>]"
      by (simp add: set_phase_def modify_def driven_def)
    have "adam_release_step api k d = (Inr (), ?d)"
      using k rt due w(1) rec
      by (simp add: adam_release_step_def release_attempt_def andthen_def catching_def gets_def record_commanded_def modify_def set_phase_def)
    moreover have "lockstep api good relay t0 ?m ?d"
      unfolding lockstep_def
    proof (intro conjI)
      have "drives good relay ((mock_on m)(?out := False)) (driven api ?out False w d)"
        by (rule drives_driven [OF dr])
          (use w(2,3) in \<open>simp_all add: record_commanded_def modify_def powered_def\<close>)
      then show "drives good relay (mock_on ?m) ?d"
        by (simp only: new(1)) (simp add: drives_def powered_def set_phase_def modify_def)
      show "mock_ok ?m" using ok True by (blast intro: mock_ok_step)
      show "now api ?d = t0 + of_int (mk_now_ms ?m) / 1000"
        using w(4) clock unfolding rec by (simp add: new(3) set_phase_def modify_def now_def record_commanded_def)
      have "list_all2 (task_matches t0) (mk_tasks ?m) (ad_tasks ?d)"
        unfolding tasks new(4) using match task [OF k(1)]
        by (intro list_all2_update_cong) (auto simp: tasks_match_def task_matches_def task_done_def)
      moreover have "release_slot i ?d = release_slot i d" for i
        by (simp add: set_phase_def modify_def driven_def release_slot_def)
      ultimately show "tasks_match t0 ?m ?d"
        using match unfolding tasks_match_def new(2) by simp
    qed
    ultimately show ?thesis by (rule that)
  qed
qed

section \<open>No client can tell\<close>

text \<open>An action of the relay driver that returns and does to it what \<open>f\<close> does to the mock.\<close>

definition follows :: "'w modbus_api \<Rightarrow> ('w \<Rightarrow> bool) \<Rightarrow> ('w \<Rightarrow> int \<Rightarrow> bool) \<Rightarrow> real \<Rightarrow> ('w adam, unit) act \<Rightarrow> (mock \<Rightarrow> mock) \<Rightarrow> bool" where
  "follows api good relay t0 act f \<longleftrightarrow> (\<forall>m d. lockstep api good relay t0 m d \<longrightarrow>
     (\<exists>d'. act d = (Inr (), d') \<and> lockstep api good relay t0 (f m) d'))"

lemma follows_ret: "follows api good relay t0 (ret ()) (\<lambda>m. m)"
  by (simp add: follows_def ret_def)

lemma follows_andthen:
  assumes "follows api good relay t0 a f" and "follows api good relay t0 b g"
  shows "follows api good relay t0 (andthen a (\<lambda>_. b)) (\<lambda>m. g (f m))"
  unfolding follows_def
proof (intro allI impI)
  fix m d assume "lockstep api good relay t0 m d"
  with assms(1) obtain d1 where "a d = (Inr (), d1)" "lockstep api good relay t0 (f m) d1" by (auto simp: follows_def)
  moreover from this(2) assms(2) obtain d2 where "b d1 = (Inr (), d2)" "lockstep api good relay t0 (g (f m)) d2"
    by (auto simp: follows_def)
  ultimately show "\<exists>d'. andthen a (\<lambda>_. b) d = (Inr (), d') \<and> lockstep api good relay t0 (g (f m)) d'"
    by (simp add: andthen_def)
qed

lemma when_some_eq: "when_some None g = (\<lambda>s. s)" "when_some (Some x) g = g x"
  by (simp_all add: fun_eq_iff when_some_def)

lemma follows_pulsed:
  assumes "ideal_unit api good relay wait"
  shows "follows api good relay t0 (adam_pulsed api (do_index_of (pulsed p)) v) (when_some v (mock_pulse p))"
proof (cases v)
  case None
  then show ?thesis using follows_ret by (simp add: adam_pulsed_def when_some_eq)
next
  case (Some ms)
  then show ?thesis
    unfolding follows_def adam_pulsed_def using pulse_lockstep [OF assms] by (metis option.simps(5) when_some_eq(2))
qed

lemma follows_maintained:
  assumes "ideal_unit api good relay wait"
  shows "follows api good relay t0 (adam_maintained api DO_INHIBIT v) (when_some v (\<lambda>b. mk_inhibit_active_update (\<lambda>_. b)))"
    and "follows api good relay t0 (adam_maintained api DO_FORCE_TRANSFER v) (when_some v (\<lambda>b. mk_force_transfer_active_update (\<lambda>_. b)))"
proof -
  have slot: "mock_slot p (mk_inhibit_active_update f m) = mock_slot p m"
    "mock_slot p (mk_force_transfer_active_update f m) = mock_slot p m" for p f m
    by (cases p; simp)+
  have on: "mock_on (m\<lparr>mk_inhibit_active := b\<rparr>) = (mock_on m)(Inhibit := b)"
    "mock_on (m\<lparr>mk_force_transfer_active := b\<rparr>) = (mock_on m)(Force_Transfer := b)" for m b
  proof -
    show "mock_on (m\<lparr>mk_inhibit_active := b\<rparr>) = (mock_on m)(Inhibit := b)"
    proof
      show "mock_on (m\<lparr>mk_inhibit_active := b\<rparr>) out = ((mock_on m)(Inhibit := b)) out" for out by (cases out) simp_all
    qed
    show "mock_on (m\<lparr>mk_force_transfer_active := b\<rparr>) = (mock_on m)(Force_Transfer := b)"
    proof
      show "mock_on (m\<lparr>mk_force_transfer_active := b\<rparr>) out = ((mock_on m)(Force_Transfer := b)) out" for out by (cases out) simp_all
    qed
  qed
  have "follows api good relay t0 (adam_maintained api (do_index_of out) (Some b)) f"
    if "\<And>m. mock_on (f m) = (mock_on m)(out := b)" "out \<in> {Inhibit, Force_Transfer}"
      "\<And>m. mk_tasks (f m) = mk_tasks m" "\<And>m p. mock_slot p (f m) = mock_slot p m" "\<And>m. mk_now_ms (f m) = mk_now_ms m" for out b f
    unfolding follows_def using maintained_lockstep [OF assms _ that(1,2) that(3) that(4) that(5)] by metis
  from this [of "mk_inhibit_active_update (\<lambda>_. b)" Inhibit b for b] this [of "mk_force_transfer_active_update (\<lambda>_. b)" Force_Transfer b for b]
  have some: "follows api good relay t0 (adam_maintained api DO_INHIBIT (Some b)) (mk_inhibit_active_update (\<lambda>_. b))"
    "follows api good relay t0 (adam_maintained api DO_FORCE_TRANSFER (Some b)) (mk_force_transfer_active_update (\<lambda>_. b))" for b
    using on slot by (simp_all del: mock_commanded.simps)
  have none: "follows api good relay t0 (adam_maintained api i None) (\<lambda>m. m)" for i
    using follows_ret by (simp add: adam_maintained_def)
  from some none show "follows api good relay t0 (adam_maintained api DO_INHIBIT v) (when_some v (\<lambda>b. mk_inhibit_active_update (\<lambda>_. b)))"
    by (cases v) (simp_all only: when_some_eq)
  from some none show "follows api good relay t0 (adam_maintained api DO_FORCE_TRANSFER v)
      (when_some v (\<lambda>b. mk_force_transfer_active_update (\<lambda>_. b)))"
    by (cases v) (simp_all only: when_some_eq)
qed

lemma follows_drive:
  assumes ideal: "ideal_unit api good relay wait"
  shows "follows api good relay t0 (adam_drive_outputs api t i f b) (\<lambda>m. snd (mock_drive_outputs t i f b m))"
  unfolding follows_def
proof (intro allI impI)
  fix m d assume step: "lockstep api good relay t0 m d"
  then have armed: "ad_hw_watchdog_ok d" by (simp add: lockstep_def drives_def)
  let ?body = "andthen (adam_pulsed api (do_index_of (pulsed Test_Pulse)) t) (\<lambda>_. andthen (adam_maintained api DO_INHIBIT i)
    (\<lambda>_. andthen (adam_maintained api DO_FORCE_TRANSFER f) (\<lambda>_. adam_pulsed api (do_index_of (pulsed Bypass_Pulse)) b)))"
  have body: "adam_drive_outputs api t i f b d = ?body d"
    using armed by (simp add: adam_drive_outputs_def andthen_def gets_def)
  have "follows api good relay t0 ?body (\<lambda>m. snd (mock_drive_outputs t i f b m))"
    unfolding mock_drive_outputs_def modify_def snd_conv
    by (rule follows_andthen [OF follows_pulsed [OF ideal] follows_andthen [OF follows_maintained(1) [OF ideal]
      follows_andthen [OF follows_maintained(2) [OF ideal] follows_pulsed [OF ideal]]]])
  with step show "\<exists>d'. adam_drive_outputs api t i f b d = (Inr (), d') \<and>
      lockstep api good relay t0 (snd (mock_drive_outputs t i f b m)) d'"
    unfolding follows_def body by blast
qed

abbreviation adam_responses :: "'w modbus_api \<Rightarrow> (int \<Rightarrow> 'w \<Rightarrow> 'w) \<Rightarrow> stimulus list \<Rightarrow> 'w adam \<Rightarrow>
    ((exc + unit) \<times> (exc + OutputState \<times> bool \<times> bool)) list" where
  "adam_responses api wait \<equiv> responses (adam_ops api) (adam_release_step api) (adam_wait wait)"

abbreviation mock_responses :: "stimulus list \<Rightarrow> mock \<Rightarrow> ((exc + unit) \<times> (exc + OutputState \<times> bool \<times> bool)) list" where
  "mock_responses \<equiv> responses mock_ops (\<lambda>k. modify (mock_release_step k)) mock_wait"

lemma tasks_match_world: "tasks_match t0 m (d\<lparr>lk_env := w\<rparr>) = tasks_match t0 m d"
  by (simp add: tasks_match_def release_slot_def)

lemma drives_world:
  assumes "lockstep api good relay t0 m d" and "good w" and "relay w = relay (lk_env d)"
  shows "drives good relay (mock_on m) (d\<lparr>lk_env := w\<rparr>)"
  using assms by (simp add: lockstep_def drives_def powered_def)

lemma follows_respond:
  assumes ideal: "ideal_unit api good relay wait"
  shows "follows api good relay t0 (respond (adam_ops api) (adam_release_step api) (adam_wait wait) x)
    (\<lambda>m. snd (respond mock_ops (\<lambda>k. modify (mock_release_step k)) mock_wait x m))"
proof (cases x)
  case (Drive t i f b)
  then show ?thesis using follows_drive [OF ideal] by (simp add: adam_ops_def mock_ops_def)
next
  case Release_All
  have "follows api good relay t0 (adam_release_all_outputs api) (\<lambda>m. snd (mock_release_all_outputs m))"
    unfolding follows_def using release_all_lockstep [OF ideal] by (metis lockstep_def mock_ok_def)
  with Release_All show ?thesis by (simp add: adam_ops_def mock_ops_def)
next
  case (Wake k)
  then show ?thesis using release_step_lockstep [OF ideal] by (simp add: follows_def modify_def) metis
next
  case (Wait ms)
  have "lockstep api good relay t0 (mock_wait ms m) (adam_wait wait ms d)" if step: "lockstep api good relay t0 m d" for m d
  proof -
    have "good (lk_env d)" using step by (simp add: lockstep_def drives_def powered_def)
    with ideal have w: "good (wait ms (lk_env d))" "relay (wait ms (lk_env d)) = relay (lk_env d)"
      "api_monotonic api (wait ms (lk_env d)) = api_monotonic api (lk_env d) + of_int ms / 1000"
      unfolding ideal_unit_def by blast+
    have slot: "mock_slot p (mock_wait ms m) = mock_slot p m" for p by (cases p) (simp_all add: mock_wait_def)
    have tasks: "mk_tasks (mock_wait ms m) = mk_tasks m" by (simp add: mock_wait_def)
    have "mock_commanded (mock_wait ms m) = mock_commanded m"
    proof
      show "mock_commanded (mock_wait ms m) out = mock_commanded m out" for out by (cases out) (simp_all add: mock_wait_def)
    qed
    then have "mock_ok (mock_wait ms m) = mock_ok m" "mock_on (mock_wait ms m) = mock_on m"
      by (simp_all add: mock_ok_def slots_ok_def mock_pending_def slot tasks)
    moreover have "tasks_match t0 (mock_wait ms m) d = tasks_match t0 m d" by (simp add: tasks_match_def slot tasks)
    ultimately show ?thesis
      using step drives_world [OF step w(1,2)] w(3)
      by (simp add: tasks_match_world lockstep_def adam_wait_def now_def mock_wait_def add_divide_distrib del: mock_commanded.simps)
  qed
  with Wait show ?thesis by (simp add: follows_def modify_def)
qed

lemma mock_respond_returns: "fst (respond mock_ops (\<lambda>k. modify (mock_release_step k)) mock_wait x m) = Inr ()"
  by (cases x) (simp_all add: mock_ops_def mock_drive_outputs_def mock_release_all_outputs_def modify_def)

text \<open>Reading back: the same outputs, never an inconsistency.\<close>

lemma observe_lockstep:
  assumes ideal: "ideal_unit api good relay wait" and step: "lockstep api good relay t0 m d"
  obtains out d' where "observe (adam_ops api) d = (Inr out, d')" and "observe mock_ops m = (Inr out, m)"
    and "lockstep api good relay t0 m d'"
proof -
  from step have dr: "drives good relay (mock_on m) d" by (simp add: lockstep_def)
  then have "powered good d" by (simp add: drives_def)
  from read_powered [OF ideal this] obtain w where
    w: "adam_read_output_state api d =
      (Inr \<lparr>out_test_active = relay (lk_env d) DO_COIL_BASE, out_inhibit_active = relay (lk_env d) (DO_COIL_BASE + 2),
        out_force_transfer_active = relay (lk_env d) (DO_COIL_BASE + 1),
        out_bypass_delay_active = relay (lk_env d) (DO_COIL_BASE + 3)\<rparr>, d\<lparr>lk_env := w\<rparr>)"
    "powered good (d\<lparr>lk_env := w\<rparr>)" "relay w = relay (lk_env d)" "now api (d\<lparr>lk_env := w\<rparr>) = now api d" .
  let ?out = "\<lparr>out_test_active = mk_test_active m, out_inhibit_active = mk_inhibit_active m,
    out_force_transfer_active = mk_force_transfer_active m, out_bypass_delay_active = mk_bypass_delay_active m\<rparr>"
  have relays: "relay (lk_env d) (DO_COIL_BASE + int (do_index_of o')) = mock_on m o'" for o'
    using dr by (simp only: drives_def)
  from relays [of Test] relays [of Inhibit] relays [of Force_Transfer] relays [of Bypass_Delay]
  have read: "adam_read_output_state api d = (Inr ?out, d\<lparr>lk_env := w\<rparr>)" using w(1) by simp
  have actual: "actual_for_do ?out (do_index_of o') = Some (mock_on m o')" for o'
    by (cases o') (simp_all add: actual_for_do_def)
  have "actual_for_do ?out i = Some v" if "(i, v, t) \<in> set (ad_commanded_do d)" for i v t
    using drives_recordD [OF dr that] actual by metis
  then have "adam_check_output_consistency api ?out (d\<lparr>lk_env := w\<rparr>)"
    by (auto simp: adam_check_output_consistency_def list_all_iff)
  with read dr have "observe (adam_ops api) d = (Inr (?out, True, True), d\<lparr>lk_env := w\<rparr>)"
    by (simp add: observe_def adam_ops_def andthen_def gets_def drives_def)
  moreover have "observe mock_ops m = (Inr (?out, True, True), m)"
    by (simp add: observe_def mock_ops_def andthen_def gets_def mock_read_output_state_def mock_check_output_consistency_def mock_hw_watchdog_ok_def)
  moreover have "lockstep api good relay t0 m (d\<lparr>lk_env := w\<rparr>)"
    using step drives_world [OF step _ w(3)] w(2,4) by (simp add: lockstep_def powered_def tasks_match_world)
  ultimately show ?thesis by (rule that)
qed

lemma responses_lockstep:
  assumes ideal: "ideal_unit api good relay wait" and "lockstep api good relay t0 m d"
  shows "adam_responses api wait xs d = mock_responses xs m"
  using assms(2)
proof (induction xs arbitrary: m d)
  case (Cons x xs)
  obtain m1 where m1: "respond mock_ops (\<lambda>k. modify (mock_release_step k)) mock_wait x m = (Inr (), m1)"
    using mock_respond_returns by (metis prod.collapse)
  from follows_respond [OF ideal, of t0 x] Cons.prems m1 obtain d1 where
    d1: "respond (adam_ops api) (adam_release_step api) (adam_wait wait) x d = (Inr (), d1)" "lockstep api good relay t0 m1 d1"
    unfolding follows_def by (metis snd_conv)
  obtain out d2 where "observe (adam_ops api) d1 = (Inr out, d2)" "observe mock_ops m1 = (Inr out, m1)" "lockstep api good relay t0 m1 d2"
    using observe_lockstep [OF ideal d1(2)] .
  with m1 d1(1) Cons.IH show ?case by simp
qed simp

lemma connected_link:
  assumes "adam_connect api d0 = (Inr True, d)"
  shows "lk_client d" and "lk_connected d" and "task_view d = task_view d0"
proof -
  have verify: "keeps lk_client (adam_verify_hw_watchdog api)"
    unfolding adam_verify_hw_watchdog_def set_hw_watchdog_status_def Let_def adam_hw_readback_def
      adam_read_holding_register_def adam_read_holding_registers_def
    by (intro hoare keeps_call) simp_all
  have link: "lk_client (snd (open_link api d0))"
    by (simp add: open_link_def act_simps call_def split: prod.split sum.split)
  obtain ok d1 where d1: "open_link api d0 = (Inr ok, d1)"
    using assms by (auto simp: adam_connect_def elim: andthen_returnE)
  with assms have "d = (if ok then snd (adam_verify_hw_watchdog api d1) else d1)"
    by (auto simp: adam_connect_def act_simps split: prod.splits sum.splits if_splits)
  then show "lk_client d" using link d1 keepsD [OF verify, of d1] by simp
  show "lk_connected d"
    using assms by (auto simp: adam_connect_def gets_def elim!: andthen_returnE)
  show "task_view d = task_view d0" using keepsD [OF keeps_view(1) refl, of api d0] assms by simp
qed

text \<open>
  C17: the mock answers like the relay driver.  Take a relay driver freshly built and connected to an ideal unit whose host
  watchdog it found armed, its relays in whatever position a previous process left them.  From the release of all outputs
  with which the service begins, through any commands, releases, wake-ups of the pulse-release tasks and passing of
  time, every call returns on both drivers and every reading of the outputs -- the four outputs, the verdict on
  stuck relays, the fail-safe's state -- is the one the mock gives: pulses begin, are ignored while running, end and are
  cancelled alike.  So what the repository's tests show of the service on the mock, they show of its outputs on the relays.
\<close>

theorem mock_stands_in_for_adam:
  assumes "ideal_unit api good relay wait"
    and "adam_init unit_id debounce_samples assumed_mode di_read required hw w = Inr d0"
    and "adam_connect api d0 = (Inr True, d)" and "good (lk_env d)" and "ad_hw_watchdog_ok d"
  shows "adam_responses api wait (Release_All # xs) d = mock_responses (Release_All # xs) mock_init"
proof -
  note link = connected_link [OF assms(3)]
  have fresh: "ad_commanded_do d = []" "ad_tasks d = []" "ad_test_release_task d = None" "ad_bypass_release_task d = None"
    using link(3) assms(2) by (auto simp: task_view_def adam_init_def split: if_splits)
  have "drives good relay (\<lambda>out. relay (lk_env d) (DO_COIL_BASE + int (do_index_of out))) d"
    using fresh link assms(4,5) by (simp add: drives_def powered_def)
  moreover have "mock_slot p mock_init = None" for p by (cases p) (simp_all add: mock_init_def)
  then have "tasks_match (now api d) mock_init d" "slots_ok mock_init"
    using fresh by (simp_all add: tasks_match_def slots_ok_def mock_init_def mock_pending_def release_slot_def)
  moreover have "now api d = now api d + of_int (mk_now_ms mock_init) / 1000" by (simp add: mock_init_def)
  ultimately obtain d1 where d1: "adam_release_all_outputs api d = (Inr (), d1)"
    "lockstep api good relay (now api d) (snd (mock_release_all_outputs mock_init)) d1"
    using release_all_lockstep [OF assms(1)] by blast
  obtain out d2 where d2: "observe (adam_ops api) d1 = (Inr out, d2)"
    "observe mock_ops (snd (mock_release_all_outputs mock_init)) = (Inr out, snd (mock_release_all_outputs mock_init))"
    "lockstep api good relay (now api d) (snd (mock_release_all_outputs mock_init)) d2"
    using observe_lockstep [OF assms(1) d1(2)] .
  have "respond (adam_ops api) (adam_release_step api) (adam_wait wait) Release_All d = (Inr (), d1)"
    using d1(1) by (simp add: adam_ops_def)
  moreover have "respond mock_ops (\<lambda>k. modify (mock_release_step k)) mock_wait Release_All mock_init =
      (Inr (), snd (mock_release_all_outputs mock_init))"
    by (simp add: mock_ops_def mock_release_all_outputs_def modify_def)
  ultimately show ?thesis using d2 responses_lockstep [OF assms(1) d2(3)] by simp
qed

text \<open>The simulated unit with coils that read back as last written; a Test pulse with a Force-Transfer.\<close>

definition ideal_api :: "unit_sim modbus_api" where
  "ideal_api = sim_api\<lparr>api_read_bits :=
     (\<lambda>r a n s u. (Inr (Response (map (\<lambda>k. map_of (us_coils u) (a + int k) = Some True) [0..<nat n])), u))\<rparr>"

lemma ideal_api_ideal:
  "ideal_unit ideal_api (\<lambda>u. us_alive u \<and> \<not> us_writes_fail u) (\<lambda>u a. map_of (us_coils u) a = Some True)
     (\<lambda>ms u. u\<lparr>us_clock := us_clock u + of_int ms / 1000\<rparr>)"
  by (auto simp: ideal_unit_def ideal_api_def sim_api_def)

lemma mock_stands_in_for_adam_witness:
  "map snd (adam_responses ideal_api (\<lambda>ms u. u\<lparr>us_clock := us_clock u + of_int ms / 1000\<rparr>)
     [Release_All, Drive (Some 700) None (Some True) None, Wait 600, Wake 0, Wait 100, Wake 0] (snd (adam_connect ideal_api (sim_driver True)))) =
   (let reading = (\<lambda>test force. Inr (\<lparr>out_test_active = test, out_inhibit_active = False, out_force_transfer_active = force,
       out_bypass_delay_active = False\<rparr>, True, True))
    in [reading False False, reading True True, reading True True, reading True True, reading True True, reading False True])"
proof -
  have init: "adam_init 1 3 ''auto'' ''coils'' True (Some sim_config) (sim_unit True) = Inr (sim_driver True)"
    by (simp add: sim_driver_eq adam_init_def VALID_ASSUMED_MODES_def DI_READ_FN_def)
  have conn: "adam_connect ideal_api (sim_driver True) =
      (Inr True, (sim_driver True)\<lparr>lk_env := (sim_unit True)\<lparr>us_alive := True\<rparr>, lk_client := True, lk_connected := True,
        ad_hw_watchdog_ok := True, ad_hw_watchdog_detail := Armed 7 6, ad_hw_watchdog_checked := True\<rparr>)"
    by (simp add: ideal_api_def sim_eval)
  show ?thesis
    using mock_stands_in_for_adam [OF ideal_api_ideal init conn, of "[Drive (Some 700) None (Some True) None, Wait 600, Wake 0, Wait 100, Wake 0]"]
    by (simp add: conn sim_unit_def Let_def mock_init_def mock_ops_def observe_def act_simps mock_drive_outputs_def when_some_eq
        mock_release_all_outputs_def mock_cancel_all_def mock_cancel_def mock_pulse_def mock_wait_def mock_release_step_def
        mock_read_output_state_def mock_check_output_consistency_def mock_hw_watchdog_ok_def)
qed

end
