(* ===== verification/Store_History.thy ===== *)
theory Store_History
  imports Store_Correctness
begin

text \<open>
  The register store of \<open>src/src/atspi/state.py\<close> as a view of its history.  The code updates a snapshot in place; here every
  register is described by what has happened since the start -- the samples, the outputs read back, the releases,
  the faults, the writes refused and accepted -- without any state, and \<open>store_refines_history\<close> shows that the
  store publishes exactly that.
\<close>

section \<open>What a history says\<close>

text \<open>The last value an event of the history has assigned.\<close>

definition latest :: "(store_event \<Rightarrow> 'a option) \<Rightarrow> 'a \<Rightarrow> store_event list \<Rightarrow> 'a" where
  "latest f x es = last (x # List.map_filter f es)"

fun sampled :: "(InputSnapshot \<Rightarrow> 'a) \<Rightarrow> store_event \<Rightarrow> 'a option" where
  "sampled f (Ev_Input rl t i) = Some (f i)"
| "sampled f _ = None"

text \<open>A read-back: the last output state, and for a maintained output also the last auto-release.\<close>

fun read_back :: "(OutputState \<Rightarrow> bool) \<Rightarrow> bool \<Rightarrow> store_event \<Rightarrow> bool option" where
  "read_back f maintained (Ev_Output outputs) = Some (f outputs)"
| "read_back f maintained Ev_Release = (if maintained then Some False else None)"
| "read_back f maintained _ = None"

fun input_fault :: "store_event \<Rightarrow> bool option" where
  "input_fault (Ev_Input_Fault b) = Some b"
| "input_fault _ = None"

fun output_fault :: "store_event \<Rightarrow> bool option" where
  "output_fault (Ev_Output_Fault b) = Some b"
| "output_fault _ = None"

text \<open>The samples, and the times of those at which the position made a given move.\<close>

fun sample_of :: "store_event \<Rightarrow> (int \<times> InputSnapshot) option" where
  "sample_of (Ev_Input rl t i) = Some (t, i)"
| "sample_of _ = None"

definition samples :: "store_event list \<Rightarrow> (int \<times> InputSnapshot) list" where
  "samples es = List.map_filter sample_of es"

fun moves :: "(string \<Rightarrow> string \<Rightarrow> bool) \<Rightarrow> string \<Rightarrow> (int \<times> InputSnapshot) list \<Rightarrow> int list" where
  "moves P p [] = []"
| "moves P p ((t, i) # ins) = (if P p (in_position i) then [t] else []) @ moves P (in_position i) ins"

text \<open>Each event with the mode in force when it happens; what a write there does to the mode-reject latch.\<close>

fun in_force :: "string \<Rightarrow> store_event list \<Rightarrow> (string \<times> store_event) list" where
  "in_force mode [] = []"
| "in_force mode (e # es) = (mode, e) # in_force (case sampled in_ats_mode e of None \<Rightarrow> mode | Some m \<Rightarrow> m) es"

definition mode_refuses :: "string \<Rightarrow> int \<Rightarrow> bool" where
  "mode_refuses mode addr \<longleftrightarrow> (case allowed_modes_for_addr addr of None \<Rightarrow> False | Some modes \<Rightarrow> mode \<notin> set modes)"

fun verdict :: "string \<times> store_event \<Rightarrow> bool option" where
  "verdict (mode, Ev_Can_Write addr) = (if mode_refuses mode addr then Some True else None)"
| "verdict (mode, Ev_Write addr val) =
     (if mode_refuses mode addr then Some True else if command_for addr val \<noteq> None then Some False else None)"
| "verdict _ = None"

definition rejecting :: "store_event list \<Rightarrow> bool" where
  "rejecting es = last (False # List.map_filter verdict (in_force ''unknown'' es))"

section \<open>The register map over a history\<close>

text \<open>The moves that count.\<close>

definition onto_generator :: "string \<Rightarrow> string \<Rightarrow> bool" where
  "onto_generator a b \<longleftrightarrow> b = ''generator'' \<and> (a = ''utility'' \<or> a = ''transferring'')"

definition onto_utility :: "string \<Rightarrow> string \<Rightarrow> bool" where
  "onto_utility a b \<longleftrightarrow> b = ''utility'' \<and> (a = ''generator'' \<or> a = ''transferring'')"

text \<open>The transfers of the last 24 hours at the last sample (at \<open>boot_wall\<close> before the first), the persisted ones included.\<close>

definition recent_transfers :: "PersistedState \<Rightarrow> int \<Rightarrow> store_event list \<Rightarrow> int list" where
  "recent_transfers p boot_wall es =
     filter (\<lambda>ts. last (boot_wall # map fst (samples es)) - ROLLING_WINDOW_S \<le> ts)
       (ps_recent_transfer_wallclocks p @ moves onto_generator ''unknown'' (samples es))"

definition history_faults :: "store_event list \<Rightarrow> int" where
  "history_faults es =
     of_bool (latest input_fault False es \<or> rejecting es) OR 2 * of_bool (latest output_fault False es) OR
     (latest (sampled in_fault_bits) 0 es AND (FAULT_MODE_UNKNOWN OR FAULT_CALIBRATION))"

definition history_register :: "int \<Rightarrow> PersistedState \<Rightarrow> real \<Rightarrow> int \<Rightarrow> store_event list \<Rightarrow> int \<Rightarrow> real \<Rightarrow> int \<Rightarrow> int" where
  "history_register unit_id p boot_mono boot_wall es addr now_mono now_wall =
     (let to_gen = moves onto_generator ''unknown'' (samples es);
          to_util = moves onto_utility ''unknown'' (samples es);
          words = (\<lambda>a x. [(a, hi_word x), (a + 1, lo_word x)])
      in case map_of
       ([(0x00, position_to_value (latest (sampled in_position) ''unknown'' es)),
         (0x01, of_bool (latest (sampled in_normal_available) False es)),
         (0x02, of_bool (latest (sampled in_emergency_available) False es)),
         (0x03, of_bool (latest (sampled in_engine_start_calling) False es)),
         (0x04, mode_to_value (latest (sampled in_ats_mode) ''unknown'' es)),
         (0x05, history_faults es)] @
        words 0x10 (last (ps_last_transfer_to_gen_ts p # to_gen)) @
        words 0x12 (last (ps_last_retransfer_to_util_ts p # to_util)) @
        words 0x14 (py_trunc (now_mono - boot_mono)) @ words 0x16 now_wall @
        words 0x20 (ps_transfer_count_lifetime p + int (length to_gen)) @
        words 0x22 (int (length (recent_transfers p boot_wall es))) @
        [(0x30, 1), (0x31, 0), (0x32, 0), (0x33, 1), (0x34, 0), (0x35, unit_id),
         (0x40, of_bool (latest (read_back out_test_active False) False es)),
         (0x41, of_bool (latest (read_back out_inhibit_active True) False es)),
         (0x42, of_bool (latest (read_back out_force_transfer_active True) False es)),
         (0x43, of_bool (latest (read_back out_bypass_delay_active False) False es))]) addr
       of Some x \<Rightarrow> x | None \<Rightarrow> 0)"

section \<open>One more event\<close>

lemma map_filter_snoc [simp]:
  "List.map_filter f (xs @ [x]) = List.map_filter f xs @ (case f x of None \<Rightarrow> [] | Some y \<Rightarrow> [y])"
  by (simp add: List.map_filter_def split: option.split)

lemma latest_simps [simp]:
  "latest f x [] = x"
  "latest f x (es @ [e]) = (case f e of None \<Rightarrow> latest f x es | Some y \<Rightarrow> y)"
  by (simp_all add: latest_def List.map_filter_simps(2) split: option.split)

lemma samples_simps [simp]:
  "samples [] = []"
  "samples (es @ [e]) = samples es @ (case sample_of e of None \<Rightarrow> [] | Some ti \<Rightarrow> [ti])"
  by (simp_all add: samples_def List.map_filter_simps(2))

lemma moves_snoc [simp]:
  "moves P p (ins @ [(t, i)]) = moves P p ins @
     (if P (last (p # map (in_position \<circ> snd) ins)) (in_position i) then [t] else [])"
  by (induction P p ins rule: moves.induct) auto

lemma last_sampled: "last (x # map (f \<circ> snd) (samples es)) = latest (sampled f) x es"
proof (induction es rule: rev_induct)
  case (snoc e es)
  then show ?case by (cases e) auto
qed simp

lemma in_force_snoc [simp]: "in_force m (es @ [e]) = in_force m es @ [(latest (sampled in_ats_mode) m es, e)]"
proof (induction es arbitrary: m)
  case (Cons e' es)
  have "latest (sampled in_ats_mode) m (e' # es) =
      latest (sampled in_ats_mode) (case sampled in_ats_mode e' of None \<Rightarrow> m | Some m' \<Rightarrow> m') es"
    by (simp add: latest_def List.map_filter_simps(1) split: option.split)
  with Cons show ?case by simp
qed simp

lemma rejecting_simps [simp]:
  "rejecting [] = False"
  "rejecting (es @ [e]) = (case verdict (latest (sampled in_ats_mode) ''unknown'' es, e) of None \<Rightarrow> rejecting es | Some b \<Rightarrow> b)"
  by (simp_all add: rejecting_def List.map_filter_simps(2) split: option.split)

lemma store_run_snoc [simp]: "store_run (es @ [e]) s = store_step e (store_run es s)"
  by (simp add: store_run_def)

section \<open>The store follows its history\<close>

definition snapshot_follows :: "PersistedState \<Rightarrow> store_event list \<Rightarrow> StateSnapshot \<Rightarrow> bool" where
  "snapshot_follows p es n \<longleftrightarrow>
     sn_position n = latest (sampled in_position) ''unknown'' es \<and>
     sn_normal_available n = latest (sampled in_normal_available) False es \<and>
     sn_emergency_available n = latest (sampled in_emergency_available) False es \<and>
     sn_engine_start_calling n = latest (sampled in_engine_start_calling) False es \<and>
     sn_ats_mode n = latest (sampled in_ats_mode) ''unknown'' es \<and>
     sn_last_transfer_to_gen_ts n = last (ps_last_transfer_to_gen_ts p # moves onto_generator ''unknown'' (samples es)) \<and>
     sn_last_retransfer_to_util_ts n =
       last (ps_last_retransfer_to_util_ts p # moves onto_utility ''unknown'' (samples es)) \<and>
     sn_transfer_count_lifetime n =
       ps_transfer_count_lifetime p + int (length (moves onto_generator ''unknown'' (samples es))) \<and>
     sn_cmd_test_active n = latest (read_back out_test_active False) False es \<and>
     sn_cmd_inhibit_active n = latest (read_back out_inhibit_active True) False es \<and>
     sn_cmd_force_transfer_active n = latest (read_back out_force_transfer_active True) False es \<and>
     sn_cmd_bypass_delay_active n = latest (read_back out_bypass_delay_active False) False es \<and>
     sn_mode_reject_active n = rejecting es"

definition faults_follow :: "store_event list \<Rightarrow> int \<Rightarrow> bool" where
  "faults_follow es b \<longleftrightarrow> (\<forall>k<4. bit b k \<longleftrightarrow>
     (if k = 0 then latest input_fault False es else if k = 1 then latest output_fault False es
      else bit (latest (sampled in_fault_bits) 0 es) k))"

lemma latch_snap [simp]: "rs_snap (latch_mode_reject b s) = (rs_snap s)\<lparr>sn_mode_reject_active := b\<rparr>"
  by (simp add: latch_mode_reject_def)

lemma code_moves [simp]: "transferred_to_gen = onto_generator" "retransferred_to_util = onto_utility"
  by (auto simp: fun_eq_iff transferred_to_gen_def onto_generator_def retransferred_to_util_def onto_utility_def)

lemma no_both_ways: "onto_generator a b \<Longrightarrow> \<not> onto_utility a b"
  by (simp add: onto_generator_def onto_utility_def)

text \<open>A write does to the store what the verdict on it says.\<close>

lemma refused_command: "allowed_modes_for_addr a = None \<Longrightarrow> command_for a v = None"
  by (auto simp: allowed_modes_for_addr_def command_for_def split: if_splits)

lemma can_write_verdict:
  "snd (can_write a s) = (if mode_refuses (sn_ats_mode (rs_snap s)) a then latch_mode_reject True s else s)"
  by (simp add: can_write_def mode_refuses_def split: option.split)

lemma write_verdict:
  "snd (write_register a v s) = (if mode_refuses (sn_ats_mode (rs_snap s)) a then latch_mode_reject True s
     else if command_for a v \<noteq> None \<and> sn_mode_reject_active (rs_snap s) then latch_mode_reject False s else s)"
  using refused_command [of a v] by (simp add: write_register_def mode_refuses_def split: option.split)

lemma snapshot_follows_step:
  assumes "snapshot_follows p es (rs_snap s)"
  shows "snapshot_follows p (es @ [e]) (rs_snap (store_step e s))"
proof (cases e)
  case (Ev_Input rl t i)
  have pos: "last (''unknown'' # map (in_position \<circ> snd) (samples es)) = sn_position (rs_snap s)"
    unfolding last_sampled using assms by (simp add: snapshot_follows_def)
  show ?thesis
    using assms no_both_ways unfolding Ev_Input
    by (simp add: snapshot_follows_def apply_input_snapshot_def Let_def pos del: last.simps map_map)
      (auto simp: last_append)
next
  case (Ev_Can_Write a)
  with assms show ?thesis by (simp add: snapshot_follows_def can_write_verdict)
next
  case (Ev_Write a v)
  with assms show ?thesis by (simp add: snapshot_follows_def write_verdict)
qed (use assms in \<open>simp_all add: snapshot_follows_def store_writer_defs\<close>)

lemma faults_follow_step:
  assumes "faults_follow es (sn_fault_bits (rs_snap s))"
  shows "faults_follow (es @ [e]) (sn_fault_bits (rs_snap (store_step e s)))"
proof (cases e)
  case (Ev_Can_Write a)
  with assms can_write_snd [of a s] show ?thesis by (auto simp: faults_follow_def)
next
  case (Ev_Write a v)
  with assms write_register_snd [of a v s] show ?thesis by (auto simp: faults_follow_def)
next
  case (Ev_Input_Fault b)
  with assms show ?thesis by (auto simp: faults_follow_def bit_set_input_fault)
next
  case (Ev_Output_Fault b)
  with assms show ?thesis by (auto simp: faults_follow_def bit_set_output_fault)
qed (use assms in \<open>auto simp: faults_follow_def bit_merge_fault_bits store_writer_defs\<close>)

text \<open>The window, while the wall clock does not step back.\<close>

definition steady :: "PersistedState \<Rightarrow> int \<Rightarrow> store_event list \<Rightarrow> bool" where
  "steady p boot_wall es \<longleftrightarrow> sorted (ps_recent_transfer_wallclocks p @ boot_wall # map fst (samples es))"

lemma window_step:
  assumes "steady p boot_wall (es @ [e])"
    and "rs_transfer_timestamps s = recent_transfers p boot_wall es" and "snapshot_follows p es (rs_snap s)"
  shows "rs_transfer_timestamps (store_step e s) = recent_transfers p boot_wall (es @ [e])"
proof (cases "sample_of e")
  case None
  then have "rs_transfer_timestamps (store_step e s) = rs_transfer_timestamps s"
    by (cases e) (simp_all add: can_write_verdict write_verdict store_writer_defs)
  with None assms(2) show ?thesis by (simp add: recent_transfers_def)
next
  case (Some ti)
  then obtain rl t i where e: "e = Ev_Input rl t i" and ti: "ti = (t, i)" by (cases e) auto
  let ?T = "last (boot_wall # map fst (samples es))" and ?gen = "moves onto_generator ''unknown'' (samples es)"
  let ?all = "ps_recent_transfer_wallclocks p @ ?gen"
  have times: "set (moves P q ins) \<subseteq> set (map fst ins)" for P q ins
    by (induction P q ins rule: moves.induct) auto
  have sub: "sorted (moves P q ins)" if "sorted (map fst ins)" for P q ins
    using that times by (induction P q ins rule: moves.induct) fastforce+
  have srt: "sorted (ps_recent_transfer_wallclocks p @ boot_wall # map fst (samples es) @ [t])"
    using assms(1) by (simp add: steady_def e)
  moreover have gen: "sorted ?gen" "set ?gen \<subseteq> set (map fst (samples es))"
    using srt sub times by (simp_all add: sorted_append)
  ultimately have all: "sorted (?all @ [t])" by (fastforce simp: sorted_append)
  have "?T \<in> set (boot_wall # map fst (samples es))" by (rule last_in_set) simp
  with srt have T: "?T \<le> t" by (auto simp: sorted_append simp del: last.simps)
  have pos: "last (''unknown'' # map (in_position \<circ> snd) (samples es)) = sn_position (rs_snap s)"
    unfolding last_sampled using assms(3) by (simp add: snapshot_follows_def)
  let ?new = "if onto_generator (sn_position (rs_snap s)) (in_position i) then [t] else []"
  have "rs_transfer_timestamps (store_step e s) = evict_old_transfers t (filter (\<lambda>ts. ?T - ROLLING_WINDOW_S \<le> ts) ?all @ ?new)"
    using assms(2) by (simp add: e apply_input_snapshot_def Let_def recent_transfers_def)
  also have "\<dots> = filter (\<lambda>ts. t - ROLLING_WINDOW_S \<le> ts) (filter (\<lambda>ts. ?T - ROLLING_WINDOW_S \<le> ts) ?all @ ?new)"
    by (rule evict_sorted) (use all in \<open>auto simp: sorted_append sorted_wrt_filter\<close>)
  also have "\<dots> = filter (\<lambda>ts. t - ROLLING_WINDOW_S \<le> ts) (?all @ ?new)"
  proof -
    have "(?T - ROLLING_WINDOW_S \<le> x \<and> t - ROLLING_WINDOW_S \<le> x) = (t - ROLLING_WINDOW_S \<le> x)" for x
      using T by linarith
    then show ?thesis by (simp del: last.simps)
  qed
  also have "\<dots> = recent_transfers p boot_wall (es @ [e])"
  proof -
    have "last (boot_wall # map fst (samples (es @ [e]))) = t" by (simp add: e)
    then show ?thesis using pos by (simp add: recent_transfers_def e del: map_map last.simps)
  qed
  finally show ?thesis .
qed

text \<open>What the constructor publishes, and what no event changes.\<close>

abbreviation persisted_or_zero :: "PersistedState option \<Rightarrow> PersistedState" where
  "persisted_or_zero loaded \<equiv> (case loaded of None \<Rightarrow> zero_state | Some p \<Rightarrow> p)"

lemma init_follows:
  assumes "store_init unit_id loaded boot_mono boot_wall = Inr s"
  shows "snapshot_follows (persisted_or_zero loaded) [] (rs_snap s)" and "faults_follow [] (sn_fault_bits (rs_snap s))"
    and "rs_transfer_timestamps s = recent_transfers (persisted_or_zero loaded) boot_wall []"
    and "sn_transfer_count_24h (rs_snap s) = int (length (rs_transfer_timestamps s))"
    and "rs_unit_id s = unit_id" "rs_fw_version s = [0, 1, 0]" "rs_icd_version s = (1, 0)" "rs_boot_mono s = boot_mono"
  using assms
  by (auto simp: store_init_def fw_version_VERSION ICD_VERSION_def Let_def snapshot_follows_def default_snapshot_def
      faults_follow_def recent_transfers_def)

lemma store_run_frame:
  "rs_unit_id (store_run es s) = rs_unit_id s" "rs_fw_version (store_run es s) = rs_fw_version s"
  "rs_icd_version (store_run es s) = rs_icd_version s" "rs_boot_mono (store_run es s) = rs_boot_mono s"
  "sn_transfer_count_24h (rs_snap s) = int (length (rs_transfer_timestamps s)) \<Longrightarrow>
    sn_transfer_count_24h (rs_snap (store_run es s)) = int (length (rs_transfer_timestamps (store_run es s)))"
proof (induction es rule: rev_induct)
  case (snoc e es)
  {
    case 1 with snoc show ?case by (cases e) (simp_all add: can_write_verdict write_verdict store_writer_defs)
  next
    case 2 with snoc show ?case by (cases e) (simp_all add: can_write_verdict write_verdict store_writer_defs)
  next
    case 3 with snoc show ?case by (cases e) (simp_all add: can_write_verdict write_verdict store_writer_defs)
  next
    case 4 with snoc show ?case by (cases e) (simp_all add: can_write_verdict write_verdict store_writer_defs)
  next
    case 5 with snoc show ?case by (cases e) (simp_all add: can_write_verdict write_verdict store_writer_defs)
  }
qed simp_all

lemma store_run_follows:
  assumes "snapshot_follows p [] (rs_snap s)" and "faults_follow [] (sn_fault_bits (rs_snap s))"
  shows "snapshot_follows p es (rs_snap (store_run es s))" and "faults_follow es (sn_fault_bits (rs_snap (store_run es s)))"
  using assms
  by (induction es rule: rev_induct)
    (simp_all del: store_step.simps add: snapshot_follows_step faults_follow_step)

lemma store_run_window:
  assumes "snapshot_follows p [] (rs_snap s)" and "rs_transfer_timestamps s = recent_transfers p boot_wall []"
    and "faults_follow [] (sn_fault_bits (rs_snap s))" and "steady p boot_wall es"
  shows "rs_transfer_timestamps (store_run es s) = recent_transfers p boot_wall es"
  using assms(4)
proof (induction es rule: rev_induct)
  case (snoc e es)
  then have "steady p boot_wall es" by (auto simp: steady_def sorted_append)
  with snoc.IH have "rs_transfer_timestamps (store_run es s) = recent_transfers p boot_wall es" .
  from window_step [OF snoc.prems this store_run_follows(1) [OF assms(1,3)]] show ?case by simp
qed (use assms(2) in simp)

lemma fault_summary_history:
  assumes "faults_follow es (sn_fault_bits n)" and "sn_mode_reject_active n = rejecting es"
  shows "fault_summary n = history_faults es"
proof (rule bit_eqI)
  have twelve: "bit (12 :: int) k \<longleftrightarrow> k = 2 \<or> k = 3" for k
  proof -
    have "(12 :: int) = 15 AND NOT 3" by simp
    then show ?thesis by (simp only: bit_simps bit_masks) auto
  qed
  have "FAULT_MODE_UNKNOWN OR FAULT_CALIBRATION = (12 :: int)" by simp
  moreover have "bit (2 * of_bool b :: int) k \<longleftrightarrow> b \<and> k = 1" "bit (of_bool b :: int) k \<longleftrightarrow> b \<and> k = 0" for b k
    by (cases b; simp)+
  ultimately have history: "bit (history_faults es) k \<longleftrightarrow> (latest input_fault False es \<or> rejecting es) \<and> k = 0 \<or>
      latest output_fault False es \<and> k = 1 \<or> bit (latest (sampled in_fault_bits) 0 es) k \<and> (k = 2 \<or> k = 3)" for k
    by (simp only: history_faults_def bit_or_iff bit_and_iff twelve)
  show "bit (fault_summary n) k \<longleftrightarrow> bit (history_faults es) k" for k
  proof (cases "k < 4")
    case True
    then have "bit (sn_fault_bits n) k \<longleftrightarrow> (if k = 0 then latest input_fault False es else if k = 1 then latest output_fault False es
      else bit (latest (sampled in_fault_bits) 0 es) k)" using assms(1) by (simp add: faults_follow_def)
    moreover from True have "k = 0 \<or> k = 1 \<or> k = 2 \<or> k = 3" by linarith
    ultimately show ?thesis unfolding bit_fault_summary history assms(2) by (elim disjE) simp_all
  qed (simp add: bit_fault_summary history)
qed

text \<open>Reading a table.\<close>

lemma table_simps:
  "(case map_of [] a of None \<Rightarrow> 0 | Some x \<Rightarrow> x) = 0"
  "(case map_of ((k, v) # xs) a of None \<Rightarrow> 0 | Some x \<Rightarrow> x) = (if a = k then v else (case map_of xs a of None \<Rightarrow> 0 | Some x \<Rightarrow> x))"
  by simp_all

text \<open>
  C7: the store refines its history.  From the constructor on, with or without a persisted state, every address of the
  register space reads what \<open>history_register\<close> says: positions and sources are the last sample's, read-backs the last
  output state's unless a later auto-release has zeroed a maintained one, fault bits the last reports', with the
  mode-reject latch of the last refused or accepted write, times and counts those of the moves in the sampled positions; all other
  addresses read 0.  Only the 24-hour count needs the wall clock not to step back.
\<close>

theorem store_refines_history:
  assumes "store_init unit_id loaded boot_mono boot_wall = Inr s0"
    and "addr \<in> {ADDR_TRANSFER_COUNT_24H, ADDR_TRANSFER_COUNT_24H + 1} \<Longrightarrow> steady (persisted_or_zero loaded) boot_wall es"
  shows "read_register addr now_mono now_wall (store_run es s0) =
    history_register unit_id (persisted_or_zero loaded) boot_mono boot_wall es addr now_mono now_wall"
proof -
  let ?p = "persisted_or_zero loaded" and ?s = "store_run es s0"
  note start = init_follows [OF assms(1)]
  note follows = store_run_follows [OF start(1,2), of es]
  have 24: "sn_transfer_count_24h (rs_snap ?s) = int (length (recent_transfers ?p boot_wall es))"
    if "addr \<in> {ADDR_TRANSFER_COUNT_24H, ADDR_TRANSFER_COUNT_24H + 1}"
    using store_run_window [OF start(1,3,2) assms(2) [OF that]] store_run_frame(5) [OF start(4)] by simp
  have faults: "fault_summary (rs_snap ?s) = history_faults es"
    using follows by (intro fault_summary_history) (simp_all add: snapshot_follows_def)
  show ?thesis
  proof (cases "addr \<in> {ADDR_TRANSFER_COUNT_24H, ADDR_TRANSFER_COUNT_24H + 1}")
    case True
    then show ?thesis using 24 [OF True]
      by (elim insertE) (simp_all add: read_register_def history_register_def Let_def)
  next
    case False
    then show ?thesis using follows(1)
      unfolding read_register_def history_register_def Let_def append_Cons append_Nil table_simps faults snapshot_follows_def
      by (simp add: store_run_frame start uptime_s_def split del: if_split split_of_bool del: last.simps cong: if_cong)
  qed
qed

text \<open>A transfer, an inhibited output released, a write refused (the mode is not a command mode of Test).\<close>

definition one_outage :: "store_event list" where
  "one_outage = [Ev_Input True 1700000001 (input_at ''utility''), Ev_Output \<lparr>out_test_active = True, out_inhibit_active = True,
     out_force_transfer_active = False, out_bypass_delay_active = False\<rparr>,
     Ev_Input True 1700000002 (input_at ''transferring''), Ev_Input True 1700000003 ((input_at ''generator'')\<lparr>in_ats_mode := ''test''\<rparr>),
     Ev_Can_Write 0x100, Ev_Release]"

lemma store_refines_history_witness:
  "\<exists>s. store_init 1 (Some (zero_state\<lparr>ps_transfer_count_lifetime := 41\<rparr>)) 0 1700000000 = Inr s \<and>
     map (\<lambda>a. read_register a 5 6 (store_run one_outage s)) [0x00, 0x05, 0x21, 0x23, 0x40, 0x41] = [1, 1, 42, 1, 1, 0]"
proof -
  obtain s where s: "store_init 1 (Some (zero_state\<lparr>ps_transfer_count_lifetime := 41\<rparr>)) 0 1700000000 = Inr s"
    by (simp add: store_init_def fw_version_VERSION Let_def)
  have samples: "samples one_outage = [(1700000001, input_at ''utility''), (1700000002, input_at ''transferring''),
      (1700000003, (input_at ''generator'')\<lparr>in_ats_mode := ''test''\<rparr>)]"
    by (simp add: one_outage_def samples_def List.map_filter_simps)
  have steady: "steady (zero_state\<lparr>ps_transfer_count_lifetime := 41\<rparr>) 1700000000 one_outage"
    by (simp add: steady_def samples zero_state_def)
  have read: "read_register a 5 6 (store_run one_outage s) =
      history_register 1 (zero_state\<lparr>ps_transfer_count_lifetime := 41\<rparr>) 0 1700000000 one_outage a 5 6" for a
    using store_refines_history [OF s, of a one_outage 5 6] steady by simp
  have "map (\<lambda>a. history_register 1 (zero_state\<lparr>ps_transfer_count_lifetime := 41\<rparr>) 0 1700000000 one_outage a 5 6)
      [0x00, 0x05, 0x21, 0x23, 0x40, 0x41] = [1, 1, 42, 1, 1, 0]"
    by (simp add: history_register_def Let_def samples_def recent_transfers_def zero_state_def onto_generator_def input_at_def
        position_to_value_def history_faults_def rejecting_def latest_def one_outage_def List.map_filter_simps mode_refuses_def
        allowed_modes_for_addr_def lo_word_def)
  then have "map (\<lambda>a. read_register a 5 6 (store_run one_outage s)) [0x00, 0x05, 0x21, 0x23, 0x40, 0x41] = [1, 1, 42, 1, 1, 0]"
    unfolding read .
  with s show ?thesis by (intro exI [of _ s] conjI)
qed

end
