(* ===== verification/Coroutines.thy ===== *)
theory Coroutines
  imports Prelude
begin

text \<open>
  Coroutines between their awaits.  An action (\<open>Prelude\<close>) runs to its end; a coroutine of the event loop runs to its next
  await, where any other task may run before it goes on.  What it leaves there is its \<open>progress\<close>: its result, or the
  rest of it as a function of the state it will find.  An await of the library's client is two such places: the
  request is on its way (\<open>Requested\<close>: going on performs it and nothing else), and the response is there but the task has
  not yet run (\<open>Responded\<close>).  \<open>complete\<close> is a coroutine nothing else interrupts; \<open>co_rg\<close> and \<open>co_wlp\<close> are what holds
  of one under interference.
\<close>

named_theorems rg_rules \<open>rules for coroutines under interference\<close>

section \<open>Coroutines\<close>

datatype await = Requested | Responded

datatype ('s, 'a) progress = Finished "exc + 'a" | Suspended await "'s \<Rightarrow> ('s, 'a) progress \<times> 's"

type_synonym ('s, 'a) coroutine = "'s \<Rightarrow> ('s, 'a) progress \<times> 's"

text \<open>A stretch without awaits, and an await of what \<open>m\<close> does.\<close>

definition at_once :: "('s, 'a) act \<Rightarrow> ('s, 'a) coroutine" where
  "at_once m = (\<lambda>s. case m s of (r, s') \<Rightarrow> (Finished r, s'))"

definition answered :: "exc + 'a \<Rightarrow> ('s, 'a) coroutine" where
  "answered r = (\<lambda>s. (Finished r, s))"

definition perform :: "('s, 'a) act \<Rightarrow> ('s, 'a) coroutine" where
  "perform m = (\<lambda>s. case m s of (r, s') \<Rightarrow> (Suspended Responded (answered r), s'))"

definition awaits :: "('s, 'a) act \<Rightarrow> ('s, 'a) coroutine" where
  "awaits m = (\<lambda>s. (Suspended Requested (perform m), s))"

text \<open>What the result is given to runs on in the same stretch.\<close>

primrec continue :: "(exc + 'a \<Rightarrow> ('s, 'b) coroutine) \<Rightarrow> ('s, 'a) progress \<Rightarrow> ('s, 'b) coroutine" where
  "continue g (Finished r) = g r"
| "continue g (Suspended a k) = (\<lambda>s. (Suspended a (\<lambda>s. case map_prod (continue g) id (k s) of (c, s') \<Rightarrow> c s'), s))"

definition after :: "('s, 'a) coroutine \<Rightarrow> (exc + 'a \<Rightarrow> ('s, 'b) coroutine) \<Rightarrow> ('s, 'b) coroutine" where
  "after c g = (\<lambda>s. case c s of (out, s') \<Rightarrow> continue g out s')"

definition cthen :: "('s, 'a) coroutine \<Rightarrow> ('a \<Rightarrow> ('s, 'b) coroutine) \<Rightarrow> ('s, 'b) coroutine" where
  "cthen c f = after c (case_sum (\<lambda>e. at_once (raise e)) f)"

definition ccatching :: "('s, 'a) coroutine \<Rightarrow> (exc \<Rightarrow> ('s, 'a) coroutine) \<Rightarrow> ('s, 'a) coroutine" where
  "ccatching c h = after c (case_sum h (\<lambda>x. at_once (ret x)))"

lemma case_map_prod: "(case map_prod f id p of (x, y) \<Rightarrow> g x y) = (case p of (x, y) \<Rightarrow> g (f x) y)"
  by (cases p) simp

lemma continue_suspended: "continue g (Suspended a k) = (\<lambda>s. (Suspended a (after k g), s))"
  by (simp add: after_def case_map_prod)

lemma progress_induct [case_names Finished Suspended]:
  assumes "\<And>r. P (Finished r)" and "\<And>a k. (\<And>s out s'. k s = (out, s') \<Longrightarrow> P out) \<Longrightarrow> P (Suspended a k)"
  shows "P out"
proof (induction out rule: progress.induct)
  case (Suspended a k)
  show ?case by (rule assms(2)) (metis Suspended.IH fsts.intros fst_conv rangeI)
qed (rule assms(1))

text \<open>The same as rules for a coroutine that is given its state: they leave what is suspended alone.\<close>

lemmas co_eval = at_once_def [THEN fun_cong] answered_def [THEN fun_cong] perform_def [THEN fun_cong]
  awaits_def [THEN fun_cong] after_def [THEN fun_cong] cthen_def [THEN fun_cong] ccatching_def [THEN fun_cong]
  continue.simps(1) continue_suspended [THEN fun_cong]

section \<open>Running alone\<close>

primrec finish :: "('s, 'a) progress \<Rightarrow> ('s, 'a) act" where
  "finish (Finished r) = (\<lambda>s. (r, s))"
| "finish (Suspended a k) = (\<lambda>s. case map_prod finish id (k s) of (m, s') \<Rightarrow> m s')"

definition complete :: "('s, 'a) coroutine \<Rightarrow> ('s, 'a) act" where
  "complete c = (\<lambda>s. case c s of (out, s') \<Rightarrow> finish out s')"

lemma finish_suspended: "finish (Suspended a k) = complete k"
  by (rule ext) (simp add: complete_def case_map_prod)

lemma complete_at_once [simp]: "complete (at_once m) = m"
  by (rule ext) (simp add: complete_def at_once_def split: prod.split)

lemma complete_awaits [simp]: "complete (awaits m) = m"
  by (rule ext) (simp add: complete_def awaits_def perform_def answered_def split: prod.split)

lemma complete_step: "c s = (out, s') \<Longrightarrow> complete c s = finish out s'"
  by (simp add: complete_def)

lemma complete_continue: "complete (continue g out) s = (case finish out s of (r, s') \<Rightarrow> complete (g r) s')"
proof (induction out arbitrary: s rule: progress_induct)
  case (Suspended a k)
  obtain out s1 where k: "k s = (out, s1)" by fastforce
  have "complete (continue g (Suspended a k)) s = complete (after k g) s"
    unfolding continue_suspended by (subst complete_step) (rule refl, simp only: finish_suspended)
  also have "\<dots> = complete (continue g out) s1" by (simp add: complete_def after_def k)
  also have "\<dots> = (case complete k s of (r, s') \<Rightarrow> complete (g r) s')"
    by (simp add: Suspended.IH [OF k] complete_step [where c = k, OF k])
  finally show ?case by (simp only: finish_suspended)
qed simp

lemma complete_after: "complete (after c g) s = (case complete c s of (r, s') \<Rightarrow> complete (g r) s')"
proof -
  obtain out s1 where c: "c s = (out, s1)" by fastforce
  then have "complete (after c g) s = complete (continue g out) s1" by (simp add: complete_def after_def)
  then show ?thesis by (simp only: complete_continue complete_step [where c = c, OF c])
qed

lemma complete_cthen [simp]: "complete (cthen c f) = andthen (complete c) (\<lambda>x. complete (f x))"
  by (rule ext) (simp add: cthen_def complete_after andthen_def raise_def split: prod.split sum.split)

lemma complete_ccatching [simp]: "complete (ccatching c h) = catching (complete c) (\<lambda>e. complete (h e))"
  by (rule ext) (simp add: ccatching_def complete_after catching_def ret_def split: prod.split sum.split)

lemma complete_cases [simp]:
  "complete (if b then c else c') = (if b then complete c else complete c')"
  "complete (case opt of None \<Rightarrow> c | Some x \<Rightarrow> f x) = (case opt of None \<Rightarrow> complete c | Some x \<Rightarrow> complete (f x))"
  "complete (case pr of (x, y) \<Rightarrow> g x y) = (case pr of (x, y) \<Rightarrow> complete (g x y))"
  "complete (case sm of Inl x \<Rightarrow> h x | Inr x \<Rightarrow> k x) = (case sm of Inl x \<Rightarrow> complete (h x) | Inr x \<Rightarrow> complete (k x))"
  by (simp_all split: option.split prod.split sum.split)

section \<open>Under interference\<close>

text \<open>
  \<open>rg P G Q out\<close>: whenever the rest of a coroutine goes on in a state with \<open>P\<close>, the stretch is a move of \<open>G\<close> and leaves
  \<open>P\<close>, and what is then left is again such a rest; a value returned satisfies \<open>Q\<close>.
\<close>

primrec rg :: "('s \<Rightarrow> bool) \<Rightarrow> ('s \<Rightarrow> 's \<Rightarrow> bool) \<Rightarrow> ('a \<Rightarrow> bool) \<Rightarrow> ('s, 'a) progress \<Rightarrow> bool" where
  "rg P G Q (Finished r) = (\<forall>x. r = Inr x \<longrightarrow> Q x)"
| "rg P G Q (Suspended a k) =
     (\<forall>s. P s \<longrightarrow> (case map_prod (rg P G Q) id (k s) of (rest, s') \<Rightarrow> rest \<and> P s' \<and> G s s'))"

definition co_rg :: "('s \<Rightarrow> bool) \<Rightarrow> ('s \<Rightarrow> 's \<Rightarrow> bool) \<Rightarrow> ('a \<Rightarrow> bool) \<Rightarrow> ('s, 'a) coroutine \<Rightarrow> bool" where
  "co_rg P G Q c \<longleftrightarrow> (\<forall>s out s'. P s \<longrightarrow> c s = (out, s') \<longrightarrow> rg P G Q out \<and> P s' \<and> G s s')"

lemma rg_suspended: "rg P G Q (Suspended a k) \<longleftrightarrow> co_rg P G Q k"
  by (simp add: co_rg_def case_map_prod) (auto split: prod.splits)

lemma co_rgI:
  assumes "\<And>s out s'. P s \<Longrightarrow> c s = (out, s') \<Longrightarrow> rg P G Q out \<and> P s' \<and> G s s'"
  shows "co_rg P G Q c"
  using assms by (simp add: co_rg_def)

lemma co_rgD: "co_rg P G Q c \<Longrightarrow> P s \<Longrightarrow> c s = (out, s') \<Longrightarrow> rg P G Q out \<and> P s' \<and> G s s'"
  by (simp add: co_rg_def)

lemma co_rg_cases [rg_rules]:
  "(b \<Longrightarrow> co_rg P G Q c) \<Longrightarrow> (\<not> b \<Longrightarrow> co_rg P G Q c') \<Longrightarrow> co_rg P G Q (if b then c else c')"
  "(opt = None \<Longrightarrow> co_rg P G Q c) \<Longrightarrow> (\<And>x. opt = Some x \<Longrightarrow> co_rg P G Q (f x)) \<Longrightarrow>
     co_rg P G Q (case opt of None \<Rightarrow> c | Some x \<Rightarrow> f x)"
  "(\<And>x y. pr = (x, y) \<Longrightarrow> co_rg P G Q (g x y)) \<Longrightarrow> co_rg P G Q (case pr of (x, y) \<Rightarrow> g x y)"
  "(\<And>x. sm = Inl x \<Longrightarrow> co_rg P G Q (h x)) \<Longrightarrow> (\<And>x. sm = Inr x \<Longrightarrow> co_rg P G Q (k x)) \<Longrightarrow>
     co_rg P G Q (case sm of Inl x \<Rightarrow> h x | Inr x \<Rightarrow> k x)"
  by (simp_all split: option.split prod.split sum.split)

text \<open>\<open>wlp R Q out s\<close>: from \<open>s\<close>, with moves of \<open>R\<close> wherever the rest is suspended, a normal return leaves \<open>Q\<close>.\<close>

primrec wlp :: "('s \<Rightarrow> 's \<Rightarrow> bool) \<Rightarrow> ('a \<Rightarrow> 's \<Rightarrow> bool) \<Rightarrow> ('s, 'a) progress \<Rightarrow> 's \<Rightarrow> bool" where
  "wlp R Q (Finished r) = (\<lambda>s. \<forall>x. r = Inr x \<longrightarrow> Q x s)"
| "wlp R Q (Suspended a k) = (\<lambda>s. \<forall>s'. R s s' \<longrightarrow> (case map_prod (wlp R Q) id (k s') of (rest, t) \<Rightarrow> rest t))"

definition co_wlp :: "('s \<Rightarrow> 's \<Rightarrow> bool) \<Rightarrow> ('a \<Rightarrow> 's \<Rightarrow> bool) \<Rightarrow> ('s, 'a) coroutine \<Rightarrow> 's \<Rightarrow> bool" where
  "co_wlp R Q c s \<longleftrightarrow> (\<forall>out s'. c s = (out, s') \<longrightarrow> wlp R Q out s')"

lemma wlp_suspended: "wlp R Q (Suspended a k) s \<longleftrightarrow> (\<forall>s'. R s s' \<longrightarrow> co_wlp R Q k s')"
  by (simp add: co_wlp_def case_map_prod) (auto split: prod.splits)

lemma wlp_mono: "wlp R Q out s \<Longrightarrow> (\<And>x s. Q x s \<Longrightarrow> Q' x s) \<Longrightarrow> wlp R Q' out s"
proof (induction out arbitrary: s rule: progress_induct)
  case (Suspended a k)
  show ?case unfolding wlp_suspended co_wlp_def
    using Suspended.IH Suspended.prems by (metis co_wlp_def wlp_suspended)
qed simp

lemma wlp_conj: "wlp R Q out s \<Longrightarrow> wlp R Q' out s \<Longrightarrow> wlp R (\<lambda>x s. Q x s \<and> Q' x s) out s"
proof (induction out arbitrary: s rule: progress_induct)
  case (Suspended a k)
  show ?case unfolding wlp_suspended co_wlp_def
    using Suspended.IH Suspended.prems by (metis co_wlp_def wlp_suspended)
qed simp

lemma wlp_trivial: "(\<And>x s. Q x s) \<Longrightarrow> wlp R Q out s"
proof (induction out arbitrary: s rule: progress_induct)
  case (Suspended a k)
  then show ?case by (simp only: wlp_suspended co_wlp_def) blast
qed simp

lemma co_wlp_trivial: "(\<And>x s. Q x s) \<Longrightarrow> co_wlp R Q c s"
  by (simp add: co_wlp_def wlp_trivial)

locale interference =
  fixes safe :: "'s \<Rightarrow> bool" and moves :: "'s \<Rightarrow> 's \<Rightarrow> bool"
  assumes moves_refl: "moves s s"
    and moves_trans: "moves s t \<Longrightarrow> moves t u \<Longrightarrow> moves s u"
begin

lemma rg_at_once:
  assumes "\<And>s r s'. safe s \<Longrightarrow> m s = (r, s') \<Longrightarrow> safe s' \<and> moves s s' \<and> (\<forall>x. r = Inr x \<longrightarrow> Q x)"
  shows "co_rg safe moves Q (at_once m)"
  using assms by (fastforce simp: co_rg_def at_once_def split: prod.splits)

lemma rg_here: "rg safe moves Q out \<Longrightarrow> co_rg safe moves Q (\<lambda>s. (out, s))"
  by (simp add: co_rg_def moves_refl)

lemma rg_awaits:
  assumes "\<And>s r s'. safe s \<Longrightarrow> m s = (r, s') \<Longrightarrow> safe s' \<and> moves s s' \<and> (\<forall>x. r = Inr x \<longrightarrow> Q x)"
  shows "co_rg safe moves Q (awaits m)"
proof -
  have "co_rg safe moves Q (perform m)"
    by (rule co_rgI) (use assms in \<open>fastforce simp: perform_def answered_def rg_suspended co_rg_def moves_refl split: prod.splits\<close>)
  then show ?thesis unfolding awaits_def by (intro rg_here) (simp only: rg_suspended)
qed

lemma rg_after:
  assumes "co_rg safe moves Q c"
    and "\<And>s out s'. c s = (out, s') \<Longrightarrow> rg safe moves Q out \<Longrightarrow> co_rg safe moves Q' (continue g out)"
  shows "co_rg safe moves Q' (after c g)"
proof (rule co_rgI)
  fix s out' s' assume s: "safe s" and run: "after c g s = (out', s')"
  obtain out s1 where c: "c s = (out, s1)" by fastforce
  note first = co_rgD [OF assms(1) s c]
  from run c have "continue g out s1 = (out', s')" by (simp add: after_def)
  with first have "rg safe moves Q' out' \<and> safe s' \<and> moves s1 s'"
    using co_rgD [OF assms(2) [OF c]] by blast
  with first show "rg safe moves Q' out' \<and> safe s' \<and> moves s s'" using moves_trans by blast
qed

lemma rg_continue:
  assumes "rg safe moves Q out" and "\<And>r. (\<And>x. r = Inr x \<Longrightarrow> Q x) \<Longrightarrow> co_rg safe moves Q' (g r)"
  shows "co_rg safe moves Q' (continue g out)"
  using assms(1)
proof (induction out rule: progress_induct)
  case (Finished r)
  then show ?case using assms(2) by simp
next
  case (Suspended a k)
  then have "co_rg safe moves Q k" by (simp only: rg_suspended)
  then have "co_rg safe moves Q' (after k g)" by (rule rg_after) (rule Suspended.IH)
  then show ?case unfolding continue_suspended by (intro rg_here) (simp only: rg_suspended)
qed

lemma rg_cthen:
  fixes Q :: "'b \<Rightarrow> bool"
  assumes "co_rg safe moves Q c" and "\<And>x. Q x \<Longrightarrow> co_rg safe moves Q' (f x)"
  shows "co_rg safe moves Q' (cthen c f)"
  unfolding cthen_def
proof (rule rg_after [OF assms(1)], erule rg_continue)
  fix r :: "exc + 'b" assume "\<And>x. r = Inr x \<Longrightarrow> Q x"
  then show "co_rg safe moves Q' (case_sum (\<lambda>e. at_once (raise e)) f r)"
    using assms(2) by (cases r) (auto intro: rg_at_once simp: raise_def moves_refl)
qed

lemma rg_ccatching:
  fixes Q :: "'b \<Rightarrow> bool"
  assumes "co_rg safe moves Q c" and "\<And>e. co_rg safe moves Q (h e)"
  shows "co_rg safe moves Q (ccatching c h)"
  unfolding ccatching_def
proof (rule rg_after [OF assms(1)], erule rg_continue)
  fix r :: "exc + 'b" assume "\<And>x. r = Inr x \<Longrightarrow> Q x"
  then show "co_rg safe moves Q (case_sum h (\<lambda>x. at_once (ret x)) r)"
    using assms(2) by (cases r) (auto intro: rg_at_once simp: ret_def moves_refl)
qed

lemmas rg_sequence [rg_rules] = rg_cthen [where Q = "\<lambda>_. True" and Q' = "\<lambda>_. True"] rg_ccatching [where Q = "\<lambda>_. True"]

text \<open>A postcondition under moves: the coroutine's own stretches are moves too, so what moves keep survives it.\<close>

lemma wlp_moved: "wlp moves Q out s \<Longrightarrow> moves s s' \<Longrightarrow> (\<And>x s s'. Q x s \<Longrightarrow> moves s s' \<Longrightarrow> Q x s') \<Longrightarrow> wlp moves Q out s'"
  by (cases out) (auto simp: case_map_prod intro: moves_trans)

lemma wlp_continue:
  assumes "wlp moves (\<lambda>x s. co_wlp moves Q (g (Inr x)) s) out s" and "\<And>e s. co_wlp moves Q (g (Inl e)) s"
  shows "co_wlp moves Q (continue g out) s"
  using assms(1)
proof (induction out arbitrary: s rule: progress_induct)
  case (Finished r)
  then show ?case using assms(2) by (cases r) auto
next
  case (Suspended a k)
  have "co_wlp moves Q (after k g) s'" if "moves s s'" for s'
  proof -
    obtain out s1 where k: "k s' = (out, s1)" by fastforce
    with Suspended.prems that have "wlp moves (\<lambda>x s. co_wlp moves Q (g (Inr x)) s) out s1"
      by (simp only: wlp_suspended co_wlp_def)
    from Suspended.IH [OF k this] show ?thesis by (simp add: co_wlp_def after_def k)
  qed
  then have "wlp moves Q (Suspended a (after k g)) s" by (simp only: wlp_suspended) blast
  then show ?case unfolding continue_suspended co_wlp_def by blast
qed

lemma wlp_cthen:
  assumes "co_wlp moves (\<lambda>x s. co_wlp moves Q (f x) s) c s"
  shows "co_wlp moves Q (cthen c f) s"
proof -
  obtain out s1 where c: "c s = (out, s1)" by fastforce
  have "co_wlp moves Q (continue (case_sum (\<lambda>e. at_once (raise e)) f) out) s1"
    by (rule wlp_continue) (use assms c in \<open>simp_all add: co_wlp_def at_once_def raise_def\<close>)
  then show ?thesis by (simp add: co_wlp_def cthen_def after_def c)
qed

lemma wlp_rg:
  assumes "rg (\<lambda>_. True) moves (\<lambda>_. True) out" and "P s" and "\<And>s s'. P s \<Longrightarrow> moves s s' \<Longrightarrow> P s'"
  shows "wlp moves (\<lambda>_. P) out s"
  using assms(1,2)
proof (induction out arbitrary: s rule: progress_induct)
  case (Suspended a k)
  have "wlp moves (\<lambda>_. P) out t" if "moves s s'" "k s' = (out, t)" for s' out t
  proof -
    from Suspended.prems(1) have "co_rg (\<lambda>_. True) moves (\<lambda>_. True) k" by (simp only: rg_suspended)
    from co_rgD [OF this _ that(2)] have out: "rg (\<lambda>_. True) moves (\<lambda>_. True) out" and "moves s' t" by simp_all
    with that(1) Suspended.prems(2) assms(3) have "P t" by blast
    with Suspended.IH [OF that(2) out] show ?thesis .
  qed
  then show ?case by (simp only: wlp_suspended co_wlp_def) blast
qed simp

lemma wlp_frame:
  assumes "co_rg (\<lambda>_. True) moves (\<lambda>_. True) c" and "P s" and "\<And>s s'. P s \<Longrightarrow> moves s s' \<Longrightarrow> P s'"
  shows "co_wlp moves (\<lambda>_. P) c s"
  unfolding co_wlp_def
proof (intro allI impI)
  fix out s' assume "c s = (out, s')"
  from co_rgD [OF assms(1) _ this] have "rg (\<lambda>_. True) moves (\<lambda>_. True) out" and "moves s s'" by simp_all
  with assms(2,3) show "wlp moves (\<lambda>_. P) out s'" by (blast intro: wlp_rg)
qed

text \<open>A sequence whose first part establishes what its second part only keeps, and one whose second part does.\<close>

lemma wlp_first:
  assumes "co_wlp moves (\<lambda>_. P) c s" and "\<And>x. co_rg (\<lambda>_. True) moves (\<lambda>_. True) (f x)"
    and "\<And>s s'. P s \<Longrightarrow> moves s s' \<Longrightarrow> P s'"
  shows "co_wlp moves (\<lambda>_. P) (cthen c f) s"
proof (rule wlp_cthen)
  show "co_wlp moves (\<lambda>x. co_wlp moves (\<lambda>_. P) (f x)) c s"
  proof (unfold co_wlp_def [of _ _ c], intro allI impI)
    fix out s' assume "c s = (out, s')"
    with assms(1) have "wlp moves (\<lambda>_. P) out s'" by (simp add: co_wlp_def)
    then show "wlp moves (\<lambda>x. co_wlp moves (\<lambda>_. P) (f x)) out s'"
      by (rule wlp_mono) (rule wlp_frame [OF assms(2) _ assms(3)])
  qed
qed

lemma wlp_second:
  assumes "\<And>x s. co_wlp moves Q (f x) s"
  shows "co_wlp moves Q (cthen c f) s"
  by (rule wlp_cthen) (simp add: assms co_wlp_trivial)

end

section \<open>How often a coroutine goes on\<close>

primrec ends_within :: "nat \<Rightarrow> ('s, 'a) progress \<Rightarrow> bool" where
  "ends_within 0 out = (case out of Finished r \<Rightarrow> True | Suspended a rest \<Rightarrow> False)"
| "ends_within (Suc n) out = (case out of Finished r \<Rightarrow> True | Suspended a rest \<Rightarrow> \<forall>s. ends_within n (fst (rest s)))"

definition co_ends :: "nat \<Rightarrow> ('s, 'a) coroutine \<Rightarrow> bool" where
  "co_ends n c \<longleftrightarrow> (\<forall>s. ends_within n (fst (c s)))"

named_theorems ends_rules \<open>how often a coroutine goes on\<close>

lemma ends_finished [simp]: "ends_within n (Finished r)"
  by (cases n) simp_all

lemma ends_mono: "ends_within m out \<Longrightarrow> m \<le> n \<Longrightarrow> ends_within n out"
proof (induction m arbitrary: n out)
  case (Suc m)
  then obtain k where "n = Suc k" "m \<le> k" by (cases n) auto
  with Suc show ?case by (auto split: progress.splits)
qed (auto split: progress.splits)

lemma co_ends_mono: "co_ends m c \<Longrightarrow> m \<le> n \<Longrightarrow> co_ends n c"
  by (auto simp: co_ends_def intro: ends_mono)

lemma ends_continue:
  assumes "ends_within m out" and "\<And>r. co_ends n (g r)"
  shows "ends_within (m + n) (fst (continue g out s))"
  using assms(1)
proof (induction m arbitrary: out s)
  case 0
  then obtain r where "out = Finished r" by (cases out) auto
  then show ?case using assms(2) by (simp add: co_ends_def)
next
  case (Suc m)
  show ?case
  proof (cases out)
    case (Finished r)
    then have "ends_within n (fst (continue g out s))" using assms(2) by (simp add: co_ends_def)
    then show ?thesis by (rule ends_mono) simp
  next
    case (Suspended a rest)
    then have "ends_within m (fst (rest s'))" for s' using Suc.prems by simp
    from Suc.IH [OF this] show ?thesis
      unfolding Suspended continue_suspended by (simp add: after_def case_prod_beta)
  qed
qed

lemma ends_pieces [ends_rules]:
  "co_ends 0 (at_once m)" "co_ends 2 (awaits m)"
  by (simp_all add: co_ends_def at_once_def awaits_def perform_def answered_def numeral_2_eq_2 split: prod.split)

lemma ends_after:
  assumes "co_ends m c" and "\<And>r. co_ends n (g r)"
  shows "co_ends (m + n) (after c g)"
  using assms(1) ends_continue [where g = g, OF _ assms(2)] by (simp add: co_ends_def after_def case_prod_beta)

lemma ends_sequence [ends_rules]:
  assumes "co_ends m c"
  shows "(\<And>x. co_ends n (f x)) \<Longrightarrow> co_ends (m + n) (cthen c f)"
    and "(\<And>e. co_ends n (h e)) \<Longrightarrow> co_ends (m + n) (ccatching c h)"
  unfolding cthen_def ccatching_def
  by (rule ends_after [OF assms], auto split: sum.split intro: co_ends_mono [OF ends_pieces(1)])+

lemma ends_cases [ends_rules]:
  "co_ends n c \<Longrightarrow> co_ends n c' \<Longrightarrow> co_ends n (if b then c else c')"
  "co_ends n c \<Longrightarrow> (\<And>x. co_ends n (f x)) \<Longrightarrow> co_ends n (case opt of None \<Rightarrow> c | Some x \<Rightarrow> f x)"
  "(\<And>x y. co_ends n (g x y)) \<Longrightarrow> co_ends n (case pr of (x, y) \<Rightarrow> g x y)"
  by (simp_all split: option.split prod.split)

end
