(* ===== verification/Adam_Coroutines.thy ===== *)
theory Adam_Coroutines
  imports Adam_Pulses Coroutines
begin

text \<open>
  \<open>src/src/atspi/io_adam.py\<close> await by await.  The coroutines of \<open>Adam\<close> are actions there, run to their end; here each has its
  awaits -- connecting, each register read of the self-check, each read of bits and write of a coil -- as places where any
  other task may run, and everything between two awaits is one stretch.  Run alone each is the action of \<open>Adam\<close>
  (\<open>undisturbed_calls_are_actions\<close>).
\<close>

section \<open>The link\<close>

definition co_request :: "('w \<Rightarrow> (lib_exc + 'a response) \<times> 'w) \<Rightarrow> ('w adam, 'a) coroutine" where
  "co_request f =
     cthen
       (ccatching (awaits (call f))
         (\<lambda>e. at_once (if is_link_failure e then andthen mark_down (\<lambda>_. raise OSError) else raise e)))
       (\<lambda>rr. at_once (checked_response rr))"

definition co_open_link :: "'w modbus_api \<Rightarrow> ('w adam, bool) coroutine" where
  "co_open_link api =
     cthen (at_once (andthen (gets lk_client) (\<lambda>present.
       if present then ret () else
         modify (\<lambda>d. d\<lparr>lk_env := api_new api (lk_env d), lk_client := True\<rparr>)))) (\<lambda>_.
     cthen (ccatching (awaits (call (api_connect api))) (\<lambda>_. at_once (ret False))) (\<lambda>ok.
     at_once (andthen (modify (lk_connected_update (\<lambda>_. ok))) (\<lambda>_. ret ok))))"

definition co_read_holding_registers :: "'w modbus_api \<Rightarrow> int \<Rightarrow> int \<Rightarrow> ('w adam, int list) coroutine" where
  "co_read_holding_registers api address cnt =
     cthen (at_once (gets (\<lambda>d. (lk_client d, ad_unit_id d)))) (\<lambda>(present, slave).
     if \<not> present then at_once (raise OSError)
     else
       cthen (ccatching (awaits (call (api_read_holding api address cnt slave)))
                (\<lambda>e. at_once (if is_link_failure e then raise OSError else raise e))) (\<lambda>rr.
       at_once (andthen (checked_response rr) (\<lambda>registers. ret (py_take cnt registers)))))"

definition co_read_holding_register :: "'w modbus_api \<Rightarrow> int \<Rightarrow> ('w adam, int) coroutine" where
  "co_read_holding_register api address =
     cthen (co_read_holding_registers api address 1) (\<lambda>rs. at_once (lift_result (py_index rs 0)))"

definition co_hw_readback ::
    "'w modbus_api \<Rightarrow> HwWatchdogConfig \<Rightarrow> int \<Rightarrow> int \<Rightarrow> int \<Rightarrow> ('w adam, exc + int \<times> int \<times> int list) coroutine" where
  "co_hw_readback api cfg enable_reg timeout_reg safety_base =
     ccatching
       (cthen (co_read_holding_register api enable_reg) (\<lambda>enable_raw.
        cthen (co_read_holding_register api timeout_reg) (\<lambda>timeout_raw.
        cthen (co_read_holding_registers api safety_base (safety_value_count cfg)) (\<lambda>safety_raw.
        at_once (ret (Inr (enable_raw, timeout_raw, safety_raw)))))))
       (\<lambda>e. at_once (if is_OSError e then ret (Inl e) else raise e))"

text \<open>What \<open>_verify_hw_watchdog\<close> does with the values read.\<close>

definition hw_decide :: "HwWatchdogConfig \<Rightarrow> exc + int \<times> int \<times> int list \<Rightarrow> ('w adam, unit) act" where
  "hw_decide cfg r =
     (case r of
        Inl e \<Rightarrow> set_hw_watchdog_status False (Registers_Unreadable e)
      | Inr (enable_raw, timeout_raw, safety_raw) \<Rightarrow>
          (let problems = hw_problems cfg enable_raw timeout_raw safety_raw in
           if problems \<noteq> [] then set_hw_watchdog_status False (Problems problems)
           else set_hw_watchdog_status True
                  (Armed (of_int timeout_raw * timeout_scale_s cfg) (safety_value_count cfg))))"

definition co_verify_hw_watchdog :: "'w modbus_api \<Rightarrow> ('w adam, unit) coroutine" where
  "co_verify_hw_watchdog api =
     cthen (at_once (gets (\<lambda>d. (ad_require_hw_watchdog d, ad_hw_watchdog d)))) (\<lambda>(required, config).
     if \<not> required then at_once (set_hw_watchdog_status True Readback_Waived)
     else (case config of
         None \<Rightarrow> at_once (set_hw_watchdog_status False Registers_Not_Configured)
       | Some cfg \<Rightarrow>
           (case (enable_register cfg, timeout_register cfg, safety_value_register_base cfg) of
              (Some enable_reg, Some timeout_reg, Some base) \<Rightarrow>
                cthen (co_hw_readback api cfg enable_reg timeout_reg base) (\<lambda>r. at_once (hw_decide cfg r))
            | _ \<Rightarrow> at_once (set_hw_watchdog_status False Registers_Not_Configured))))"

definition co_connect :: "'w modbus_api \<Rightarrow> ('w adam, bool) coroutine" where
  "co_connect api =
     cthen (co_open_link api) (\<lambda>ok.
     cthen (if ok then co_verify_hw_watchdog api else at_once (ret ())) (\<lambda>_.
     at_once (gets lk_connected)))"

definition co_ensure_connected :: "'w modbus_api \<Rightarrow> ('w adam, unit) coroutine" where
  "co_ensure_connected api =
     cthen (at_once (gets (\<lambda>d. (lk_connected d, lk_client d, api_connected api (lk_env d))))) (\<lambda>(up, present, alive).
     if up \<and> present \<and> alive then at_once (ret ())
     else
       cthen (at_once (if \<not> up \<and> present
                then andthen (catching (call (api_close api)) (\<lambda>_. ret ()))
                       (\<lambda>_. modify (lk_client_update (\<lambda>_. False)))
                else ret ())) (\<lambda>_.
       cthen (co_connect api) (\<lambda>_.
       at_once (andthen (gets lk_connected) (\<lambda>up. if up then ret () else raise ConnectionError)))))"

text \<open>
  An attribute of \<open>self._client\<close> after \<open>_ensure_connected\<close>: \<open>close\<close> may have run during its awaits and left \<open>None\<close>.
\<close>

definition client_present :: "('w adam, unit) act" where
  "client_present = andthen (gets lk_client) (\<lambda>present. if present then ret () else raise AttributeError)"

definition co_read_bits :: "'w modbus_api \<Rightarrow> bit_reader \<Rightarrow> int \<Rightarrow> int \<Rightarrow> ('w adam, bool list) coroutine" where
  "co_read_bits api reader address cnt =
     cthen (co_ensure_connected api) (\<lambda>_.
     cthen (at_once (andthen client_present (\<lambda>_. gets ad_unit_id))) (\<lambda>slave.
     cthen (co_request (api_read_bits api reader address cnt slave)) (\<lambda>bits.
     at_once (ret (py_take cnt bits)))))"

definition co_read_di_bits :: "'w modbus_api \<Rightarrow> int \<Rightarrow> ('w adam, bool list) coroutine" where
  "co_read_di_bits api cnt =
     cthen (at_once (gets ad_di_read)) (\<lambda>name.
     case DI_READ_FN name of
       None \<Rightarrow> at_once (raise KeyError)
     | Some reader \<Rightarrow> co_read_bits api reader DI_COIL_BASE cnt)"

definition co_write_coil :: "'w modbus_api \<Rightarrow> int \<Rightarrow> bool \<Rightarrow> ('w adam, unit) coroutine" where
  "co_write_coil api address val =
     cthen (co_ensure_connected api) (\<lambda>_.
     cthen (at_once (andthen client_present (\<lambda>_. gets ad_unit_id))) (\<lambda>slave.
     co_request (api_write_coil api address val slave)))"

section \<open>The driver's methods\<close>

definition co_read_inputs :: "'w modbus_api \<Rightarrow> ('w adam, InputSnapshot) coroutine" where
  "co_read_inputs api = cthen (co_read_di_bits api 6) (\<lambda>raw. at_once (adam_inputs_from api raw))"

definition co_read_output_state :: "'w modbus_api \<Rightarrow> ('w adam, OutputState) coroutine" where
  "co_read_output_state api =
     cthen (co_read_bits api Read_Coils DO_COIL_BASE 6) (\<lambda>bits. at_once (adam_outputs_from bits))"

definition co_pulsed :: "'w modbus_api \<Rightarrow> nat \<Rightarrow> int option \<Rightarrow> ('w adam, unit) coroutine" where
  "co_pulsed api do_index ms =
     (case ms of
        None \<Rightarrow> at_once (ret ())
      | Some duration_ms \<Rightarrow>
          cthen (at_once (pulse_guard do_index)) (\<lambda>go.
          if go
          then cthen (co_write_coil api (DO_COIL_BASE + int do_index) True) (\<lambda>_.
               at_once (andthen (record_commanded api do_index True) (\<lambda>_.
                 schedule_release api do_index (pulse_ms duration_ms))))
          else at_once (ret ())))"

definition co_maintained :: "'w modbus_api \<Rightarrow> nat \<Rightarrow> bool option \<Rightarrow> ('w adam, unit) coroutine" where
  "co_maintained api do_index v =
     (case v of
        None \<Rightarrow> at_once (ret ())
      | Some b \<Rightarrow>
          cthen (co_write_coil api (DO_COIL_BASE + int do_index) b) (\<lambda>_. at_once (record_commanded api do_index b)))"

definition co_drive_outputs :: "'w modbus_api \<Rightarrow> int option \<Rightarrow> bool option \<Rightarrow> bool option \<Rightarrow> int option \<Rightarrow>
    ('w adam, unit) coroutine" where
  "co_drive_outputs api test_pulse_ms inhibit force_transfer bypass_delay_pulse_ms =
     cthen (at_once (gets ad_hw_watchdog_ok)) (\<lambda>ok.
     if \<not> ok \<and> (test_pulse_ms \<noteq> None \<or> inhibit = Some True \<or> force_transfer = Some True \<or>
                bypass_delay_pulse_ms \<noteq> None)
     then at_once (raise HwWatchdogNotArmedError)
     else
       cthen (co_pulsed api DO_TEST test_pulse_ms) (\<lambda>_.
       cthen (co_maintained api DO_INHIBIT inhibit) (\<lambda>_.
       cthen (co_maintained api DO_FORCE_TRANSFER force_transfer) (\<lambda>_.
       co_pulsed api DO_BYPASS_DELAY bypass_delay_pulse_ms))))"

definition co_release_output :: "'w modbus_api \<Rightarrow> nat \<Rightarrow> ('w adam, unit) coroutine" where
  "co_release_output api do_index =
     cthen (co_write_coil api (DO_COIL_BASE + int do_index) False) (\<lambda>_.
     at_once (record_commanded api do_index False))"

definition co_release_all_outputs :: "'w modbus_api \<Rightarrow> ('w adam, unit) coroutine" where
  "co_release_all_outputs api =
     cthen (at_once cancel_release_tasks) (\<lambda>_.
     cthen (co_release_output api DO_TEST) (\<lambda>_.
     cthen (co_release_output api DO_FORCE_TRANSFER) (\<lambda>_.
     cthen (co_release_output api DO_INHIBIT) (\<lambda>_.
     co_release_output api DO_BYPASS_DELAY))))"

definition co_release_attempt :: "'w modbus_api \<Rightarrow> nat \<Rightarrow> int \<Rightarrow> ('w adam, unit) coroutine" where
  "co_release_attempt api k coil =
     ccatching
       (cthen (co_write_coil api coil False) (\<lambda>_. at_once (set_phase k Released)))
       (\<lambda>e. at_once (if is_OSError e
            then andthen (gets (now api)) (\<lambda>t. set_phase k (Retrying (t + PULSE_RELEASE_RETRY_S)))
            else set_phase k Died))"

definition co_release_step :: "'w modbus_api \<Rightarrow> nat \<Rightarrow> ('w adam, unit) coroutine" where
  "co_release_step api k =
     cthen (at_once (gets id)) (\<lambda>d.
     if k \<ge> length (ad_tasks d) then at_once (ret ())
     else (case rt_phase (ad_tasks d ! k) of
         Pulsing due \<Rightarrow>
           if now api d < due then at_once (ret ())
           else cthen (at_once (record_commanded api (rt_do_index (ad_tasks d ! k)) False))
                  (\<lambda>_. co_release_attempt api k (rt_coil (ad_tasks d ! k)))
       | Retrying due \<Rightarrow>
           if now api d < due then at_once (ret ()) else co_release_attempt api k (rt_coil (ad_tasks d ! k))
       | _ \<Rightarrow> at_once (ret ())))"

section \<open>Run alone\<close>

lemma complete_link [simp]:
  "complete (co_request f) = request f"
  "complete (co_open_link api) = open_link api"
  "complete (co_read_holding_registers api a c) = adam_read_holding_registers api a c"
  by (simp_all add: co_request_def request_def co_open_link_def open_link_def andthen_assoc
      co_read_holding_registers_def adam_read_holding_registers_def if_distrib [of "\<lambda>m. andthen m _"] cong: if_cong)

lemma complete_readback [simp]:
  "complete (co_read_holding_register api a) = adam_read_holding_register api a"
  "complete (co_hw_readback api cfg e t b) = adam_hw_readback api cfg e t b"
  by (simp_all add: co_read_holding_register_def adam_read_holding_register_def co_hw_readback_def adam_hw_readback_def)

lemma complete_verify [simp]: "complete (co_verify_hw_watchdog api) = adam_verify_hw_watchdog api"
  by (simp add: co_verify_hw_watchdog_def adam_verify_hw_watchdog_def hw_decide_def cong: option.case_cong if_cong)

lemma complete_connect [simp]:
  "complete (co_connect api) = adam_connect api"
  "complete (co_ensure_connected api) = adam_ensure_connected api"
  by (simp_all add: co_connect_def adam_connect_def co_ensure_connected_def adam_ensure_connected_def ensure_connected_def
      cong: if_cong)

text \<open>Nothing but \<open>close\<close> and \<open>_ensure_connected\<close>'s own reset unsets the client, so alone the client is there.\<close>

lemma ensure_present: "adam_ensure_connected api d = (Inr (), d') \<Longrightarrow> lk_client d'"
proof -
  assume run: "adam_ensure_connected api d = (Inr (), d')"
  have verify: "keeps lk_client (adam_verify_hw_watchdog api)"
    unfolding adam_verify_hw_watchdog_def set_hw_watchdog_status_def adam_hw_readback_def adam_read_holding_register_def
      adam_read_holding_registers_def Let_def
    by (intro hoare keeps_call) simp_all
  have "lk_client (snd (open_link api d))" for d :: "'a adam"
    by (simp add: open_link_def act_simps call_def split: prod.split sum.split)
  then have "lk_client (snd (adam_connect api d))" for d
    using keepsD [OF verify] by (auto simp: adam_connect_def act_simps split: prod.splits sum.splits) (metis snd_conv)+
  with run show ?thesis
    by (auto simp: adam_ensure_connected_def ensure_connected_def act_simps split: prod.splits sum.splits if_splits) (metis snd_conv)+
qed

lemma ensure_then_present [simp]:
  "andthen (adam_ensure_connected api) (\<lambda>_. andthen client_present m) = andthen (adam_ensure_connected api) m"
proof (rule ext)
  fix d
  show "andthen (adam_ensure_connected api) (\<lambda>_. andthen client_present m) d = andthen (adam_ensure_connected api) m d"
    using ensure_present [of api d]
    by (cases "adam_ensure_connected api" d rule: act_cases) (simp_all add: andthen_def client_present_def gets_def ret_def)
qed

lemma complete_access [simp]:
  "complete (co_read_bits api rd a c) = adam_read_bits api rd a c"
  "complete (co_write_coil api a b) = adam_write_coil api a b"
  by (simp_all add: co_read_bits_def adam_read_bits_def co_write_coil_def adam_write_coil_def andthen_assoc)

lemma complete_outputs [simp]:
  "complete (co_pulsed api i ms) = adam_pulsed api i ms"
  "complete (co_maintained api i v) = adam_maintained api i v"
  "complete (co_release_output api i) = release_output api i"
  "complete (co_release_attempt api k coil) = release_attempt api k coil"
  by (simp_all add: co_pulsed_def adam_pulsed_def adam_pulse_def pulse_commit_def co_maintained_def adam_maintained_def
      co_release_output_def release_output_def co_release_attempt_def release_attempt_def cong: if_cong option.case_cong)

text \<open>
  C16: the two readings of the driver agree.  Each method, and each pass of a release task, cut at its awaits and then run with nothing
  else in between, has the results and effects of the uncut action that the drivers' contract and the service are stated over.
\<close>

theorem undisturbed_calls_are_actions:
  "complete (co_connect api) = adam_connect api \<and>
   complete (co_read_inputs api) = adam_read_inputs api \<and>
   complete (co_read_output_state api) = adam_read_output_state api \<and>
   complete (co_drive_outputs api t i f b) = adam_drive_outputs api t i f b \<and>
   complete (co_release_all_outputs api) = adam_release_all_outputs api \<and>
   complete (co_release_step api k) = adam_release_step api k"
proof (intro conjI)
  show "complete (co_read_inputs api) = adam_read_inputs api"
    by (simp add: co_read_inputs_def adam_read_inputs_def co_read_di_bits_def adam_read_di_bits_def cong: option.case_cong)
  show "complete (co_read_output_state api) = adam_read_output_state api"
    by (simp add: co_read_output_state_def adam_read_output_state_def adam_read_coils_def)
  show "complete (co_drive_outputs api t i f b) = adam_drive_outputs api t i f b"
    by (simp add: co_drive_outputs_def adam_drive_outputs_def cong: if_cong)
  show "complete (co_release_all_outputs api) = adam_release_all_outputs api"
    by (simp add: co_release_all_outputs_def adam_release_all_outputs_def)
  show "complete (co_release_step api k) = adam_release_step api k"
    by (simp add: co_release_step_def adam_release_step_def release_phase.case_distrib [of complete]
        cong: if_cong release_phase.case_cong)
qed simp

end
