(* ===== verification/Adam_Event_Loop.thy ===== *)
theory Adam_Event_Loop
  imports Adam_Coroutines
begin

text \<open>
  The event loop over the relay driver: any number of calls of its methods and passes of its release tasks in flight, each
  suspended at an await, and any of them going on next.
\<close>

section \<open>The loop\<close>

text \<open>A call in flight, \<open>None\<close> once its task is cancelled; calls are numbered in the order they were made.\<close>

record 'w event_loop =
  el_driver :: "'w adam"
  el_calls :: "(adam_op \<times> ('w adam, unit) progress option) list"

fun op_coroutine :: "'w modbus_api \<Rightarrow> adam_op \<Rightarrow> ('w adam, unit) coroutine" where
  "op_coroutine api Op_Connect = cthen (co_connect api) (\<lambda>_. at_once (ret ()))"
| "op_coroutine api Op_Close = at_once (adam_close api)"
| "op_coroutine api Op_Read_Inputs = cthen (co_read_inputs api) (\<lambda>_. at_once (ret ()))"
| "op_coroutine api Op_Read_Outputs = cthen (co_read_output_state api) (\<lambda>_. at_once (ret ()))"
| "op_coroutine api (Op_Drive t i f b) = co_drive_outputs api t i f b"
| "op_coroutine api Op_Release_All = co_release_all_outputs api"
| "op_coroutine api (Op_Task k) = co_release_step api k"

fun in_flight :: "('s, 'a) progress option \<Rightarrow> bool" where
  "in_flight (Some (Suspended a rest)) = True"
| "in_flight _ = False"

text \<open>A release task is one coroutine: it has one pass in flight at most, and none once it is cancelled.\<close>

definition may_start :: "adam_op \<Rightarrow> 'w event_loop \<Rightarrow> bool" where
  "may_start op s = (case op of
     Op_Task k \<Rightarrow> list_all (\<lambda>(o', out). o' = Op_Task k \<longrightarrow> \<not> in_flight out) (el_calls s) | _ \<Rightarrow> True)"

definition may_resume :: "adam_op \<Rightarrow> 'w adam \<Rightarrow> bool" where
  "may_resume op d = (case op of Op_Task k \<Rightarrow> task_pending d k | _ \<Rightarrow> True)"

text \<open>
  A call is started, goes on, or is cancelled at an await -- before its request went out or after: the unit may still act on a
  request nobody waits for --, and the world moves as \<open>env\<close> allows.
\<close>

datatype loop_event = Start adam_op | Resume nat | Cancel nat | Cancel_Sent nat | World

inductive loop_step :: "'w modbus_api \<Rightarrow> ('w \<Rightarrow> 'w \<Rightarrow> bool) \<Rightarrow> loop_event \<Rightarrow> 'w event_loop \<Rightarrow> 'w event_loop \<Rightarrow> bool"
  for api env where
  Start: "may_start op s \<Longrightarrow> op_coroutine api op (el_driver s) = (out, d) \<Longrightarrow>
    loop_step api env (Start op) s (s\<lparr>el_driver := d, el_calls := el_calls s @ [(op, Some out)]\<rparr>)"
| Resume: "k < length (el_calls s) \<Longrightarrow> el_calls s ! k = (op, Some (Suspended a rest)) \<Longrightarrow> may_resume op (el_driver s) \<Longrightarrow>
    rest (el_driver s) = (out, d) \<Longrightarrow>
    loop_step api env (Resume k) s (s\<lparr>el_driver := d, el_calls := (el_calls s)[k := (op, Some out)]\<rparr>)"
| Cancel: "k < length (el_calls s) \<Longrightarrow> el_calls s ! k = (op, Some (Suspended a rest)) \<Longrightarrow>
    loop_step api env (Cancel k) s (s\<lparr>el_calls := (el_calls s)[k := (op, None)]\<rparr>)"
| Cancel_Sent: "k < length (el_calls s) \<Longrightarrow> el_calls s ! k = (op, Some (Suspended Requested rest)) \<Longrightarrow>
    rest (el_driver s) = (out, d) \<Longrightarrow>
    loop_step api env (Cancel_Sent k) s (s\<lparr>el_driver := d, el_calls := (el_calls s)[k := (op, None)]\<rparr>)"
| World: "env (lk_env (el_driver s)) w \<Longrightarrow>
    loop_step api env World s (s\<lparr>el_driver := (el_driver s)\<lparr>lk_env := w\<rparr>\<rparr>)"

inductive loop_run :: "'w modbus_api \<Rightarrow> ('w \<Rightarrow> 'w \<Rightarrow> bool) \<Rightarrow> loop_event list \<Rightarrow> 'w event_loop \<Rightarrow> 'w event_loop \<Rightarrow> bool"
  for api env where
  Idle: "loop_run api env [] s s"
| Next: "loop_step api env e s s' \<Longrightarrow> loop_run api env es s' s'' \<Longrightarrow> loop_run api env (e # es) s s''"

text \<open>The calls' own steps as a function.\<close>

fun loop_exec :: "'w modbus_api \<Rightarrow> loop_event \<Rightarrow> 'w event_loop \<Rightarrow> 'w event_loop option" where
  "loop_exec api (Start op) s =
     (if may_start op s
      then case op_coroutine api op (el_driver s) of
        (out, d) \<Rightarrow> Some (s\<lparr>el_driver := d, el_calls := el_calls s @ [(op, Some out)]\<rparr>)
      else None)"
| "loop_exec api (Resume k) s =
     (if k < length (el_calls s)
      then case el_calls s ! k of
        (op, Some (Suspended a rest)) \<Rightarrow>
          if may_resume op (el_driver s)
          then case rest (el_driver s) of
            (out, d) \<Rightarrow> Some (s\<lparr>el_driver := d, el_calls := (el_calls s)[k := (op, Some out)]\<rparr>)
          else None
      | _ \<Rightarrow> None
      else None)"
| "loop_exec api _ s = None"

fun loop_play :: "'w modbus_api \<Rightarrow> loop_event list \<Rightarrow> 'w event_loop \<Rightarrow> 'w event_loop option" where
  "loop_play api [] s = Some s"
| "loop_play api (e # es) s = (case loop_exec api e s of None \<Rightarrow> None | Some s' \<Rightarrow> loop_play api es s')"

lemma loop_exec_step: "loop_exec api e s = Some s' \<Longrightarrow> loop_step api env e s s'"
  by (cases e) (auto split: prod.splits if_splits option.splits progress.splits intro: loop_step.intros)

lemma loop_play_run: "loop_play api es s = Some s' \<Longrightarrow> loop_run api env es s s'"
  by (induction es arbitrary: s) (auto split: option.splits intro: loop_run.intros loop_exec_step)

inductive_simps loop_step_simps:
  "loop_step api env (Start op) s s'"
  "loop_step api env (Resume k) s s'"
inductive_simps loop_run_simps: "loop_run api env [] s s''" "loop_run api env (e # es) s s''"

lemma loop_run_append:
  "loop_run api env es s s' \<Longrightarrow> loop_run api env es' s' s'' \<Longrightarrow> loop_run api env (es @ es') s s''"
  by (induction rule: loop_run.induct) (auto intro: loop_run.intros)

definition quiet_loop :: "'w adam \<Rightarrow> 'w event_loop" where
  "quiet_loop d = \<lparr>el_driver = d, el_calls = []\<rparr>"

lemmas co_driver_eval =
  co_request_def [THEN fun_cong] co_open_link_def [THEN fun_cong] co_read_holding_registers_def [THEN fun_cong]
  co_read_holding_register_def [THEN fun_cong] co_hw_readback_def [THEN fun_cong] co_verify_hw_watchdog_def [THEN fun_cong]
  co_connect_def [THEN fun_cong] co_ensure_connected_def [THEN fun_cong] co_read_bits_def [THEN fun_cong]
  co_write_coil_def [THEN fun_cong] co_pulsed_def [THEN fun_cong] co_maintained_def [THEN fun_cong]
  co_drive_outputs_def [THEN fun_cong] co_release_output_def [THEN fun_cong] co_release_all_outputs_def [THEN fun_cong]

lemmas act_eval = ret_def [THEN fun_cong] raise_def [THEN fun_cong] andthen_def [THEN fun_cong] catching_def [THEN fun_cong]
  gets_def [THEN fun_cong] modify_def [THEN fun_cong] lift_result_def [THEN fun_cong] call_def [THEN fun_cong]
  client_present_def [THEN fun_cong] mark_down_def [THEN fun_cong] checked_response_def [THEN fun_cong]
  set_hw_watchdog_status_def [THEN fun_cong] hw_decide_def [THEN fun_cong] record_commanded_def [THEN fun_cong]
  cancel_release_tasks_def [THEN fun_cong] schedule_release_def [THEN fun_cong] pulse_guard_def [THEN fun_cong]

end
