(* ===== verification/Adam_Interference.thy ===== *)
theory Adam_Interference
  imports Adam_Event_Loop
begin

text \<open>
  What holds of the relay driver however its calls interleave: the interface is the locale \<open>driver_interference\<close>, an invariant
  that others keep and a relation all moves belong to, with what the library's calls must do for it; its lemmas carry both
  through every coroutine and every run of the loop.
\<close>

section \<open>Interference on the link\<close>

definition kept :: "('s \<Rightarrow> bool) \<Rightarrow> ('s \<Rightarrow> 's \<Rightarrow> bool) \<Rightarrow> ('s \<Rightarrow> 's) \<Rightarrow> bool" where
  "kept safe moves f \<longleftrightarrow> (\<forall>s. safe s \<longrightarrow> safe (f s) \<and> moves s (f s))"

abbreviation (input) anything :: "'a \<Rightarrow> bool" where "anything \<equiv> \<lambda>_. True"

locale link_interference = interference safe moves
  for safe :: "'w adam \<Rightarrow> bool" and moves :: "'w adam \<Rightarrow> 'w adam \<Rightarrow> bool" +
  fixes api :: "'w modbus_api"
  assumes new_kept: "kept safe moves (\<lambda>d. d\<lparr>lk_env := api_new api (lk_env d), lk_client := True\<rparr>)"
    and connect_kept: "kept safe moves (\<lambda>d. d\<lparr>lk_env := snd (api_connect api (lk_env d))\<rparr>)"
    and close_kept: "kept safe moves (\<lambda>d. d\<lparr>lk_env := snd (api_close api (lk_env d))\<rparr>)"
    and flags_kept: "kept safe moves (lk_client_update (\<lambda>_. b))" "kept safe moves (lk_connected_update (\<lambda>_. b))"
    and bits_kept: "kept safe moves (\<lambda>d. d\<lparr>lk_env := snd (api_read_bits api rd a c s (lk_env d))\<rparr>)"
    and holding_kept: "kept safe moves (\<lambda>d. d\<lparr>lk_env := snd (api_read_holding api a c s (lk_env d))\<rparr>)"
begin

text \<open>An action all of whose pieces are kept.\<close>

definition tame :: "('w adam, 'a) act \<Rightarrow> bool" where
  "tame m \<longleftrightarrow> kept safe moves (\<lambda>s. snd (m s))"

lemma tame_pure [rg_rules]:
  "tame (ret x)" "tame (raise e)" "tame (gets f)" "tame (lift_result r)" "tame (checked_response rr)"
  by (auto simp: tame_def kept_def act_simps checked_response_def moves_refl split: response.split)

lemma tame_modify [rg_rules]: "kept safe moves f \<Longrightarrow> tame (modify f)"
  by (simp add: tame_def kept_def modify_def)

lemma tame_andthen [rg_rules]:
  assumes "tame m" and "\<And>x. tame (f x)"
  shows "tame (andthen m f)"
  unfolding tame_def kept_def
proof (intro allI impI)
  fix s assume s: "safe s"
  have first: "safe (snd (m s))" "moves s (snd (m s))" using assms(1) s by (simp_all add: tame_def kept_def)
  have second: "safe (snd (f x (snd (m s))))" "moves (snd (m s)) (snd (f x (snd (m s))))" for x
    using assms(2) first(1) by (simp_all add: tame_def kept_def)
  show "safe (snd (andthen m f s)) \<and> moves s (snd (andthen m f s))"
    using first second moves_trans by (cases "m s" rule: prod.exhaust) (auto simp: andthen_def split: sum.split)
qed

lemma tame_catching [rg_rules]:
  assumes "tame m" and "\<And>e. tame (h e)"
  shows "tame (catching m h)"
  unfolding tame_def kept_def
proof (intro allI impI)
  fix s assume s: "safe s"
  have first: "safe (snd (m s))" "moves s (snd (m s))" using assms(1) s by (simp_all add: tame_def kept_def)
  have second: "safe (snd (h e (snd (m s))))" "moves (snd (m s)) (snd (h e (snd (m s))))" for e
    using assms(2) first(1) by (simp_all add: tame_def kept_def)
  show "safe (snd (catching m h s)) \<and> moves s (snd (catching m h s))"
    using first second moves_trans by (cases "m s" rule: prod.exhaust) (auto simp: catching_def split: sum.split)
qed

lemma tame_cases [rg_rules]:
  "(b \<Longrightarrow> tame m) \<Longrightarrow> (\<not> b \<Longrightarrow> tame m') \<Longrightarrow> tame (if b then m else m')"
  "(\<And>x y. tame (g x y)) \<Longrightarrow> tame (case pr of (x, y) \<Rightarrow> g x y)"
  "(\<And>x. tame (h x)) \<Longrightarrow> (\<And>x. tame (k x)) \<Longrightarrow> tame (case sm of Inl x \<Rightarrow> h x | Inr x \<Rightarrow> k x)"
  by (simp_all split: prod.split sum.split)

lemma tame_call:
  assumes "kept safe moves (\<lambda>d. d\<lparr>lk_env := snd (f (lk_env d))\<rparr>)"
  shows "tame (call f)"
  using assms by (simp add: tame_def kept_def call_def case_prod_beta)

lemma rg_steady [rg_rules]:
  assumes "tame m"
  shows "co_rg safe moves anything (at_once m)" "co_rg safe moves anything (awaits m)"
  using assms by (auto intro!: rg_at_once rg_awaits simp: tame_def kept_def)

lemma rg_holding:
  "co_rg safe moves anything (co_read_holding_registers api a c)"
  "co_rg safe moves anything (co_read_holding_register api a)"
  "co_rg safe moves anything (co_hw_readback api cfg e t b)"
proof -
  show regs: "co_rg safe moves anything (co_read_holding_registers api a c)" for a c
    unfolding co_read_holding_registers_def by (intro rg_rules tame_call holding_kept)
  show reg: "co_rg safe moves anything (co_read_holding_register api a)" for a
    unfolding co_read_holding_register_def by (intro rg_rules regs)
  show "co_rg safe moves anything (co_hw_readback api cfg e t b)"
    unfolding co_hw_readback_def by (intro rg_rules regs reg)
qed

lemma rg_verify:
  assumes "\<And>ok det. kept safe moves (\<lambda>d. d\<lparr>ad_hw_watchdog_ok := ok, ad_hw_watchdog_detail := det, ad_hw_watchdog_checked := True\<rparr>)"
  shows "co_rg safe moves anything (co_verify_hw_watchdog api)"
proof -
  have status: "tame (set_hw_watchdog_status ok det)" for ok det
    unfolding set_hw_watchdog_status_def by (intro rg_rules assms)
  have "tame (hw_decide cfg r)" for cfg r
    unfolding hw_decide_def Let_def by (intro rg_rules status)
  with status show ?thesis
    unfolding co_verify_hw_watchdog_def by (auto split: option.split intro!: rg_rules rg_holding)
qed

lemma tame_link:
  "tame (call (api_close api))" "tame (call (api_connect api))" "tame (call (api_read_bits api rd a c s))"
  "tame mark_down" "tame client_present"
  unfolding mark_down_def client_present_def
  by (intro rg_rules tame_call close_kept connect_kept bits_kept flags_kept)+

lemma tame_close_link: "tame (close_link api)"
  unfolding close_link_def by (intro rg_rules tame_link flags_kept)

lemma rg_request:
  assumes "kept safe moves (\<lambda>d. d\<lparr>lk_env := snd (f (lk_env d))\<rparr>)"
  shows "co_rg safe moves anything (co_request f)"
  unfolding co_request_def by (intro rg_rules tame_call assms tame_link)

lemma rg_link:
  assumes "co_rg safe moves anything (co_verify_hw_watchdog api)"
  shows "co_rg safe moves anything (co_connect api)"
    and "co_rg safe moves anything (co_ensure_connected api)"
    and "co_rg safe moves anything (co_read_bits api rd a c)"
    and "co_rg safe moves anything (co_read_di_bits api c)"
    and "(\<And>s. kept safe moves (\<lambda>d. d\<lparr>lk_env := snd (api_write_coil api a b s (lk_env d))\<rparr>)) \<Longrightarrow>
      co_rg safe moves anything (co_write_coil api a b)"
proof -
  have op: "co_rg safe moves anything (co_open_link api)"
    unfolding co_open_link_def by (intro rg_rules tame_link new_kept flags_kept)
  show connect: "co_rg safe moves anything (co_connect api)"
    unfolding co_connect_def by (intro rg_rules op assms)
  show ensure: "co_rg safe moves anything (co_ensure_connected api)"
    unfolding co_ensure_connected_def by (intro rg_rules connect tame_link flags_kept)
  show bits: "co_rg safe moves anything (co_read_bits api rd a c)" for rd a c
    unfolding co_read_bits_def by (intro rg_rules ensure tame_link rg_request bits_kept)
  show "co_rg safe moves anything (co_read_di_bits api c)"
    unfolding co_read_di_bits_def by (intro rg_rules bits)
  show "co_rg safe moves anything (co_write_coil api a b)"
    if "\<And>s. kept safe moves (\<lambda>d. d\<lparr>lk_env := snd (api_write_coil api a b s (lk_env d))\<rparr>)"
    unfolding co_write_coil_def by (intro rg_rules ensure tame_link rg_request that)
qed

end

section \<open>Interference in the loop\<close>

text \<open>
  \<open>covered\<close> are the operations whose coroutines keep to the interface.  While nothing else goes on, all moves are moves of
  the relation; and the coroutines in flight of covered operations stay so whatever else goes on.
\<close>

definition only :: "(adam_op \<Rightarrow> bool) \<Rightarrow> 'w event_loop \<Rightarrow> bool" where
  "only covered s \<longleftrightarrow> (\<forall>(op, out) \<in> set (el_calls s). in_flight out \<longrightarrow> covered op)"

definition starts_only :: "(adam_op \<Rightarrow> bool) \<Rightarrow> loop_event \<Rightarrow> bool" where
  "starts_only covered e = (case e of Start op \<Rightarrow> covered op | _ \<Rightarrow> True)"

lemma set_list_update: "x \<in> set (xs[k := y]) \<Longrightarrow> x = y \<or> x \<in> set xs"
  using set_update_subset_insert by fastforce

lemma only_step:
  assumes "loop_step api env e s s'" and "only covered s" and "starts_only covered e"
  shows "only covered s'"
  using assms
proof (cases rule: loop_step.cases)
  case (Resume k op a rest out d)
  have "covered op" using assms(2) Resume(3,4) nth_mem by (fastforce simp: only_def)
  with Resume assms(2) show ?thesis by (auto simp: only_def dest!: set_list_update)
qed (auto simp: only_def starts_only_def dest!: set_list_update)

locale loop_interference = interference safe moves
  for safe :: "'w adam \<Rightarrow> bool" and moves :: "'w adam \<Rightarrow> 'w adam \<Rightarrow> bool" +
  fixes api :: "'w modbus_api" and env :: "'w \<Rightarrow> 'w \<Rightarrow> bool" and covered :: "adam_op \<Rightarrow> bool"
  assumes covered_rg: "covered op \<Longrightarrow> co_rg safe moves (\<lambda>_. True) (op_coroutine api op)"
    and env_kept: "safe d \<Longrightarrow> env (lk_env d) w \<Longrightarrow> safe (d\<lparr>lk_env := w\<rparr>) \<and> moves d (d\<lparr>lk_env := w\<rparr>)"
begin

definition well_behaved :: "'w event_loop \<Rightarrow> bool" where
  "well_behaved s \<longleftrightarrow> (\<forall>(op, out) \<in> set (el_calls s). covered op \<longrightarrow>
     (case out of None \<Rightarrow> True | Some rest \<Rightarrow> rg safe moves (\<lambda>_. True) rest))"

lemma well_behaved_rest:
  assumes "well_behaved s" and "k < length (el_calls s)" and "el_calls s ! k = (op, Some (Suspended a rest))" and "covered op"
  shows "co_rg safe moves (\<lambda>_. True) rest"
proof -
  have "(op, Some (Suspended a rest)) \<in> set (el_calls s)" using assms(2,3) by (metis nth_mem)
  with assms(1,4) have "rg safe moves (\<lambda>_. True) (Suspended a rest)" by (fastforce simp: well_behaved_def simp del: rg.simps)
  then show ?thesis by (simp only: rg_suspended)
qed

lemma step_well_behaved:
  assumes "loop_step api env e s s'" and "well_behaved s" and "safe (el_driver s)"
  shows "well_behaved s'"
  using assms(1)
proof (cases rule: loop_step.cases)
  case (Start op out d)
  then show ?thesis using assms(2) co_rgD [OF covered_rg assms(3) Start(4)] by (auto simp: well_behaved_def)
next
  case (Resume k op a rest out d)
  with assms(2) co_rgD [OF well_behaved_rest [OF assms(2) Resume(3,4)] assms(3) Resume(6)]
  show ?thesis by (auto simp: well_behaved_def dest!: set_list_update)
qed (use assms(2) in \<open>auto simp: well_behaved_def dest!: set_list_update\<close>)

lemma step_moves:
  assumes "loop_step api env e s s'" and "well_behaved s" and "safe (el_driver s)"
    and "only covered s" and "starts_only covered e"
  shows "safe (el_driver s') \<and> moves (el_driver s) (el_driver s')"
proof -
  have flying: "covered op" if "k < length (el_calls s)" "el_calls s ! k = (op, Some (Suspended a rest))" for k op a rest
    using assms(4) that nth_mem [OF that(1)] by (fastforce simp: only_def)
  show ?thesis
    using assms(1)
  proof (cases rule: loop_step.cases)
    case (Start op out d)
    then have "covered op" using assms(5) by (simp add: starts_only_def)
    from co_rgD [OF covered_rg [OF this] assms(3) Start(4)] Start show ?thesis by simp
  next
    case (Resume k op a rest out d)
    from co_rgD [OF well_behaved_rest [OF assms(2) Resume(3,4) flying [OF Resume(3,4)]] assms(3) Resume(6)] Resume
    show ?thesis by simp
  next
    case (Cancel k op a rest)
    then show ?thesis using assms(3) moves_refl by simp
  next
    case (Cancel_Sent k op rest out d)
    from co_rgD [OF well_behaved_rest [OF assms(2) Cancel_Sent(3,4) flying [OF Cancel_Sent(3,4)]] assms(3) Cancel_Sent(5)] Cancel_Sent
    show ?thesis by simp
  next
    case (World w)
    then show ?thesis using env_kept [OF assms(3)] by simp
  qed
qed

lemma run_moves:
  assumes "loop_run api env es s s'" and "well_behaved s" and "safe (el_driver s)" and "only covered s"
    and "list_all (starts_only covered) es"
  shows "safe (el_driver s') \<and> moves (el_driver s) (el_driver s') \<and> well_behaved s' \<and> only covered s'"
  using assms
proof (induction rule: loop_run.induct)
  case (Next e s s1 es s2)
  then have e: "starts_only covered e" and es: "list_all (starts_only covered) es" by simp_all
  note step = step_moves [OF Next.hyps(1) Next.prems(1-3) e]
  from Next.IH [OF step_well_behaved [OF Next.hyps(1) Next.prems(1,2)] _ only_step [OF Next.hyps(1) Next.prems(3) e] es]
    step moves_trans
  show ?case by blast
qed (simp add: moves_refl)

text \<open>A call's own postcondition, while only covered operations go on.\<close>

definition will_leave :: "nat \<Rightarrow> ('w adam \<Rightarrow> bool) \<Rightarrow> 'w event_loop \<Rightarrow> bool" where
  "will_leave n Q s \<longleftrightarrow> n < length (el_calls s) \<and>
     (case snd (el_calls s ! n) of None \<Rightarrow> True | Some out \<Rightarrow> wlp moves (\<lambda>_. Q) out (el_driver s))"

lemma step_will_leave:
  assumes "loop_step api env e s s'" and "will_leave n Q s" and moved: "moves (el_driver s) (el_driver s')"
    and "\<And>d d'. Q d \<Longrightarrow> moves d d' \<Longrightarrow> Q d'"
  shows "will_leave n Q s'"
proof -
  have n: "n < length (el_calls s)" using assms(2) by (simp add: will_leave_def)
  have others: "will_leave n Q s'" if "snd (el_calls s' ! n) = snd (el_calls s ! n)" "length (el_calls s) \<le> length (el_calls s')"
    using assms(2) that moved wlp_moved [OF _ moved, where Q = "\<lambda>_. Q"] assms(4)
    by (auto simp: will_leave_def split: option.splits)
  show ?thesis
    using assms(1)
  proof (cases rule: loop_step.cases)
    case (Resume k op a rest out d)
    show ?thesis
    proof (cases "k = n")
      case True
      with assms(2) Resume have "wlp moves (\<lambda>_. Q) (Suspended a rest) (el_driver s)"
        by (simp add: will_leave_def del: wlp.simps)
      with Resume(6) have "wlp moves (\<lambda>_. Q) out d"
        using moves_refl by (simp only: wlp_suspended co_wlp_def) blast
      with True Resume show ?thesis by (simp add: will_leave_def)
    next
      case False
      with Resume show ?thesis by (intro others) simp_all
    qed
  next
    case (Cancel k op a rest)
    show ?thesis by (cases "k = n") (use Cancel n others in \<open>auto simp: will_leave_def\<close>)
  next
    case (Cancel_Sent k op rest out d)
    show ?thesis by (cases "k = n") (use Cancel_Sent n others in \<open>auto simp: will_leave_def\<close>)
  qed (use n others in \<open>simp_all add: nth_append\<close>)
qed

lemma run_will_leave:
  assumes "loop_run api env es s s'" and "well_behaved s" and "safe (el_driver s)" and "only covered s"
    and "list_all (starts_only covered) es" and "will_leave n Q s" and "\<And>d d'. Q d \<Longrightarrow> moves d d' \<Longrightarrow> Q d'"
  shows "will_leave n Q s'"
  using assms(1-6)
proof (induction rule: loop_run.induct)
  case (Next e s s1 es s2)
  then have e: "starts_only covered e" and es: "list_all (starts_only covered) es" by simp_all
  note step = step_moves [OF Next.hyps(1) Next.prems(1-3) e]
  show ?case
    by (rule Next.IH [OF step_well_behaved [OF Next.hyps(1) Next.prems(1,2)] _ only_step [OF Next.hyps(1) Next.prems(3) e] es])
      (use step step_will_leave [OF Next.hyps(1) Next.prems(5)] assms(7) in blast)+
qed

end

section \<open>Interference on the driver\<close>

text \<open>What an operation asserts: of the driver's calls only \<open>drive_outputs\<close> can.\<close>

fun asserting :: "adam_op \<Rightarrow> bool" where
  "asserting (Op_Drive t i f b) = asserts_output t i f b"
| "asserting _ = False"

locale driver_interference = link_interference safe moves api
  for safe :: "'w adam \<Rightarrow> bool" and moves :: "'w adam \<Rightarrow> 'w adam \<Rightarrow> bool" and api :: "'w modbus_api" +
  fixes env :: "'w \<Rightarrow> 'w \<Rightarrow> bool"
  assumes verify_kept: "co_rg safe moves (\<lambda>_. True) (co_verify_hw_watchdog api)"
    and off_kept: "kept safe moves (\<lambda>d. d\<lparr>lk_env := snd (api_write_coil api a False s (lk_env d))\<rparr>)"
    and record_off_kept: "kept safe moves (\<lambda>d. snd (record_commanded api i False d))"
    and tasks_kept: "kept safe moves (\<lambda>d. d\<lparr>ad_tasks := ts d\<rparr>)"
    and latch_kept: "kept safe moves (ad_load_disconnect_seen_mono_update (\<lambda>_. t))"
    and debounce_kept: "kept safe moves (ad_debounce_update (\<lambda>_. db))"
    and world_kept: "safe d \<Longrightarrow> env (lk_env d) w \<Longrightarrow> safe (d\<lparr>lk_env := w\<rparr>) \<and> moves d (d\<lparr>lk_env := w\<rparr>)"
begin

lemma tame_own:
  "tame (record_commanded api i False)" "tame cancel_release_tasks" "tame (set_phase k p)"
  "tame (adam_inputs_from api raw)" "tame (adam_outputs_from bits)" "tame (adam_close api)"
proof -
  show cancel: "tame cancel_release_tasks"
    unfolding cancel_release_tasks_def by (intro rg_rules tasks_kept)
  show "tame (record_commanded api i False)" by (simp add: tame_def record_off_kept)
  show "tame (set_phase k p)" unfolding set_phase_def by (intro rg_rules tasks_kept)
  show "tame (adam_inputs_from api raw)"
    unfolding adam_inputs_from_def adam_latch_inputs_def by (intro rg_rules latch_kept debounce_kept)
  show "tame (adam_outputs_from bits)" unfolding adam_outputs_from_def by (intro rg_rules)
  show "tame (adam_close api)" unfolding adam_close_def by (intro rg_rules cancel tame_close_link)
qed

lemmas rg_driver_link = rg_link [OF verify_kept]

lemma rg_write_off: "co_rg safe moves (\<lambda>_. True) (co_write_coil api a False)"
  by (rule rg_driver_link(5)) (rule off_kept)

lemma rg_release_output: "co_rg safe moves (\<lambda>_. True) (co_release_output api i)"
  unfolding co_release_output_def by (intro rg_rules rg_write_off tame_own)

lemma rg_maintained: "v \<noteq> Some True \<Longrightarrow> co_rg safe moves (\<lambda>_. True) (co_maintained api i v)"
  unfolding co_maintained_def
  by (cases v) (auto intro!: rg_rules rg_write_off tame_own)

lemma rg_drive_quiet:
  assumes "\<not> asserts_output t i f b"
  shows "co_rg safe moves (\<lambda>_. True) (co_drive_outputs api t i f b)"
proof -
  have "co_rg safe moves (\<lambda>_. True) (co_pulsed api j None)" for j
    unfolding co_pulsed_def option.case by (intro rg_rules)
  then show ?thesis
    using assms unfolding co_drive_outputs_def asserts_output_def by (intro rg_rules rg_maintained) simp_all
qed

lemma rg_release_step: "co_rg safe moves (\<lambda>_. True) (co_release_step api k)"
proof -
  have "co_rg safe moves (\<lambda>_. True) (co_release_attempt api j coil)" for j coil
    unfolding co_release_attempt_def by (intro rg_rules rg_write_off tame_own)
  then show ?thesis
    unfolding co_release_step_def
    by (intro rg_rules) (auto split: release_phase.split intro!: rg_rules tame_own)
qed

lemma rg_op: "\<not> asserting op \<Longrightarrow> co_rg safe moves (\<lambda>_. True) (op_coroutine api op)"
proof (cases op)
  case Op_Read_Inputs
  then show ?thesis
    by (auto simp: co_read_inputs_def intro!: rg_rules rg_driver_link tame_own)
next
  case Op_Read_Outputs
  then show ?thesis
    by (auto simp: co_read_output_state_def intro!: rg_rules rg_driver_link tame_own)
next
  case Op_Release_All
  then show ?thesis
    by (auto simp: co_release_all_outputs_def intro!: rg_rules rg_release_output tame_own)
qed (auto intro!: rg_rules rg_driver_link tame_own rg_drive_quiet rg_release_step)

end

sublocale driver_interference \<subseteq> quiet: loop_interference safe moves api env "\<lambda>op. \<not> asserting op"
  by unfold_locales (use rg_op world_kept in simp_all)

end
