(* ===== verification/Adam_Concurrency.thy ===== *)
theory Adam_Concurrency
  imports Adam_Interference
begin

text \<open>
  The relay driver under the event loop: what its atomic reading (\<open>Adam_Correctness\<close>) promises and still holds when its calls
  interleave at every await, and what does not.
\<close>

section \<open>Releases\<close>

text \<open>No output whose last recorded command is OFF gets another one.\<close>

definition lets_go :: "'w adam \<Rightarrow> 'w adam \<Rightarrow> bool" where
  "lets_go d d' \<longleftrightarrow> (\<forall>out. adam_commanded d out = Some False \<longrightarrow> adam_commanded d' out = Some False)"

lemma lets_go_view: "task_view d = task_view d' \<Longrightarrow> lets_go d d'"
  using last_commanded_view by (metis adam_commanded_def lets_go_def)

lemma kept_view: "(\<And>d. task_view (f d) = task_view d) \<Longrightarrow> kept (\<lambda>_. True) lets_go f"
  unfolding kept_def by (metis lets_go_view)

lemma kept_same: "(\<And>d. ad_commanded_do (f d) = ad_commanded_do d) \<Longrightarrow> kept (\<lambda>_. True) lets_go f"
  by (simp add: kept_def lets_go_def adam_commanded_def last_commanded_def)

lemma releases_link: "link_interference (\<lambda>_. True) lets_go api"
  by unfold_locales (auto simp: lets_go_def intro!: kept_same)

text \<open>Whatever the unit does and wherever the clock goes.\<close>

interpretation releases: driver_interference "\<lambda>_. True" lets_go api env for api env
proof (rule driver_interference.intro [OF releases_link], unfold_locales)
  show "co_rg (\<lambda>_. True) lets_go (\<lambda>_. True) (co_verify_hw_watchdog api)"
    by (rule link_interference.rg_verify [OF releases_link]) (rule kept_same, simp)
  show "kept (\<lambda>_. True) lets_go (\<lambda>d. snd (record_commanded api i False d))" for i
    by (auto simp: kept_def lets_go_def adam_commanded_def record_commanded_eq)
qed (auto simp: lets_go_def adam_commanded_def last_commanded_def intro!: kept_same)

fun lets_off :: "adam_op \<Rightarrow> command_output \<Rightarrow> bool" where
  "lets_off Op_Release_All out = True"
| "lets_off (Op_Drive t i f b) out = (out = Inhibit \<and> i = Some False \<or> out = Force_Transfer \<and> f = Some False)"
| "lets_off _ out = False"

abbreviation released :: "command_output \<Rightarrow> 'w adam \<Rightarrow> bool" where
  "released out d \<equiv> adam_commanded d out = Some False"

lemma released_stable: "released out d \<Longrightarrow> lets_go d d' \<Longrightarrow> released out d'"
  by (simp add: lets_go_def)

lemma writes_off_released:
  assumes "i = do_index_of out"
  shows "co_wlp lets_go (\<lambda>_. released out) (co_release_output api i) d"
    and "co_wlp lets_go (\<lambda>_. released out) (co_maintained api i (Some False)) d"
proof -
  have off: "co_wlp lets_go (\<lambda>_. released out) (at_once (record_commanded api i False)) d" for d
    using record_commanded_eq(1) [of api i False d]
    by (auto simp: co_wlp_def at_once_def adam_commanded_def assms split: prod.splits)
  show "co_wlp lets_go (\<lambda>_. released out) (co_release_output api i) d"
    unfolding co_release_output_def by (rule releases.wlp_second) (rule off)
  show "co_wlp lets_go (\<lambda>_. released out) (co_maintained api i (Some False)) d"
    unfolding co_maintained_def option.case by (rule releases.wlp_second) (rule off)
qed

text \<open>A call that lets an output off leaves it off when it returns, with nothing asserting in between.\<close>

lemma call_lets_off:
  assumes "lets_off op out" and "\<not> asserting op"
  shows "co_wlp lets_go (\<lambda>_. released out) (op_coroutine api op) d"
proof -
  note first = releases.wlp_first [where P = "released out", OF _ _ released_stable]
  note quiet = rg_rules releases.rg_release_output releases.rg_maintained
  consider "op = Op_Release_All" | t i f b where "op = Op_Drive t i f b" "t = None" "b = None" "i \<noteq> Some True" "f \<noteq> Some True"
    using assms by (cases op) (auto simp: asserts_output_def)
  then show ?thesis
  proof cases
    case 1
    let ?rest = "cthen (co_release_output api DO_TEST) (\<lambda>_. cthen (co_release_output api DO_FORCE_TRANSFER) (\<lambda>_.
      cthen (co_release_output api DO_INHIBIT) (\<lambda>_. co_release_output api DO_BYPASS_DELAY)))"
    have "co_wlp lets_go (\<lambda>_. released out) ?rest d" for d
    proof (cases out)
      case Test
      then show ?thesis by (intro first writes_off_released quiet) simp_all
    next
      case Force_Transfer
      then show ?thesis by (intro releases.wlp_second [OF first] writes_off_released quiet) simp_all
    next
      case Inhibit
      then show ?thesis by (intro releases.wlp_second [OF releases.wlp_second [OF first]] writes_off_released quiet) simp_all
    next
      case Bypass_Delay
      then show ?thesis
        by (intro releases.wlp_second [OF releases.wlp_second [OF releases.wlp_second]] writes_off_released) simp_all
    qed
    then show ?thesis
      unfolding 1 op_coroutine.simps co_release_all_outputs_def by (rule releases.wlp_second)
  next
    case 2
    have pulsed: "co_rg (\<lambda>_. True) lets_go (\<lambda>_. True) (co_pulsed api j None)" for j
      unfolding co_pulsed_def option.case by (intro rg_rules)
    let ?rest = "cthen (co_maintained api DO_INHIBIT i) (\<lambda>_. cthen (co_maintained api DO_FORCE_TRANSFER f) (\<lambda>_.
      co_pulsed api DO_BYPASS_DELAY None))"
    have rest: "co_wlp lets_go (\<lambda>_. released out) ?rest d" for d
    proof (cases out)
      case Inhibit
      with assms 2 show ?thesis by (intro first) (auto intro!: writes_off_released quiet pulsed)
    next
      case Force_Transfer
      with assms 2 show ?thesis by (intro releases.wlp_second [OF first]) (auto intro!: writes_off_released pulsed)
    qed (use assms 2 in simp_all)
    show ?thesis
      unfolding 2 op_coroutine.simps co_drive_outputs_def
    proof (rule releases.wlp_second)
      fix ok d
      have "co_wlp lets_go (\<lambda>_. released out) (cthen (co_pulsed api DO_TEST None) (\<lambda>_. ?rest)) d"
        by (rule releases.wlp_second) (rule rest)
      then show "co_wlp lets_go (\<lambda>_. released out) (if \<not> ok \<and> (None \<noteq> (None :: int option) \<or> i = Some True \<or>
          f = Some True \<or> None \<noteq> (None :: int option)) then at_once (raise HwWatchdogNotArmedError)
          else cthen (co_pulsed api DO_TEST None) (\<lambda>_. ?rest)) d"
        using 2 by simp
    qed
  qed
qed

lemma run_well_behaved:
  assumes "loop_run api env es s s'" and "releases.quiet.well_behaved s"
  shows "releases.quiet.well_behaved s'"
  using assms by (induction rule: loop_run.induct) (auto intro: releases.quiet.step_well_behaved)

lemma quiet_well_behaved: "releases.quiet.well_behaved (quiet_loop d)"
  by (simp add: releases.quiet.well_behaved_def quiet_loop_def)

text \<open>
  C4: a release holds however it is interleaved.  Take the loop at any moment at which no call that asserts an output is in flight,
  and start \<open>release_all_outputs\<close>, or a \<open>drive_outputs\<close> that lets outputs off.  If it returns, then the outputs it lets off are
  commanded off, whatever reads, reconnects, other releases and release tasks went on between its awaits, whichever calls
  were cancelled, and whatever the unit and the network did -- as long as no asserting call was started.
\<close>

theorem release_holds_under_interference:
  assumes "loop_run api env es0 (quiet_loop d) s" and "only (\<lambda>op. \<not> asserting op) s"
    and "loop_run api env (Start op # es) s s'" and "list_all (starts_only (\<lambda>op. \<not> asserting op)) (Start op # es)"
    and "lets_off op out" and "snd (el_calls s' ! length (el_calls s)) = Some (Finished (Inr ()))"
  shows "adam_commanded (el_driver s') out = Some False"
proof -
  have wb: "releases.quiet.well_behaved s" by (rule run_well_behaved [OF assms(1) quiet_well_behaved])
  have op: "\<not> asserting op" using assms(4) by (simp add: starts_only_def)
  from assms(3) obtain s1 where start: "loop_step api env (Start op) s s1" and rest: "loop_run api env es s1 s'"
    by (simp add: loop_run_simps) blast
  let ?left = "loop_interference.will_leave lets_go (length (el_calls s)) (released out)"
  have "?left s1"
    using start call_lets_off [OF assms(5) op, of api "el_driver s"]
    by (auto simp: loop_step_simps releases.quiet.will_leave_def co_wlp_def)
  then have "?left s'"
    using releases.quiet.run_will_leave [OF rest releases.quiet.step_well_behaved [OF start wb] _
        only_step [OF start assms(2)]] assms(4) released_stable by simp blast
  with assms(6) show ?thesis by (simp add: releases.quiet.will_leave_def)
qed

section \<open>The last call to return\<close>

text \<open>
  The calls that end with a coil write of ON: their record of it is made in the stretch in which they return, so it holds then
  whatever went on during their awaits.
\<close>

fun ends_asserting :: "adam_op \<Rightarrow> command_output \<Rightarrow> bool" where
  "ends_asserting (Op_Drive t i f b) out \<longleftrightarrow>
     b = None \<and> (out = Force_Transfer \<and> f = Some True \<or> out = Inhibit \<and> i = Some True \<and> f = None)"
| "ends_asserting _ out \<longleftrightarrow> False"

lemma anything_goes: "interference (\<lambda>_ _. True)"
  by unfold_locales simp_all

lemma call_ends_asserting:
  assumes "ends_asserting op out"
  shows "co_wlp (\<lambda>_ _. True) (\<lambda>_ d. adam_commanded d out = Some True) (op_coroutine api op) d"
proof -
  let ?Q = "\<lambda>_ d. adam_commanded d out = Some True"
  note second = interference.wlp_second [OF anything_goes] and seq = interference.wlp_cthen [OF anything_goes]
  from assms obtain t i f where op: "op = Op_Drive t i f None"
      "out = Force_Transfer \<and> f = Some True \<or> out = Inhibit \<and> i = Some True \<and> f = None"
    by (cases op) auto
  have on: "co_wlp (\<lambda>_ _. True) ?Q (co_maintained api (do_index_of out) (Some True)) d" for d
    unfolding co_maintained_def option.case
  proof (rule second)
    show "co_wlp (\<lambda>_ _. True) ?Q (at_once (record_commanded api (do_index_of out) True)) d" for d
      using record_commanded_eq(1) [of api "do_index_of out" True d]
      by (auto simp: co_wlp_def at_once_def adam_commanded_def split: prod.splits)
  qed
  have pause: "co_wlp (\<lambda>_ _. True) (\<lambda>_. co_wlp (\<lambda>_ _. True) ?Q c) (co_maintained api (do_index_of out) (Some True)) d"
    if "\<And>d. ?Q () d \<Longrightarrow> co_wlp (\<lambda>_ _. True) ?Q c d" for c :: "('a adam, unit) coroutine" and d
    unfolding co_wlp_def [of _ _ "co_maintained _ _ _"]
    by (auto intro!: wlp_mono [where Q = ?Q] that on [unfolded co_wlp_def, rule_format])
  have still: "co_wlp (\<lambda>_ _. True) ?Q (at_once (ret ())) d" if "?Q () d" for d
    using that by (simp add: co_wlp_def at_once_def ret_def)
  have rest: "co_wlp (\<lambda>_ _. True) ?Q (cthen (co_maintained api DO_INHIBIT i) (\<lambda>_.
      cthen (co_maintained api DO_FORCE_TRANSFER f) (\<lambda>_. co_pulsed api DO_BYPASS_DELAY None))) d" for d
    using op(2)
  proof
    assume "out = Force_Transfer \<and> f = Some True"
    then show ?thesis
      using pause [OF still] by (intro second seq) (auto simp: co_pulsed_def)
  next
    assume out: "out = Inhibit \<and> i = Some True \<and> f = None"
    have "co_wlp (\<lambda>_ _. True) ?Q (cthen (co_maintained api DO_FORCE_TRANSFER None) (\<lambda>_. co_pulsed api DO_BYPASS_DELAY None)) d"
      if "?Q () d" for d
      using that by (simp add: co_maintained_def co_pulsed_def co_wlp_def cthen_def after_def at_once_def ret_def)
    with out show ?thesis using pause by (intro seq) auto
  qed
  show ?thesis
    unfolding op op_coroutine.simps co_drive_outputs_def
  proof (rule second)
    fix ok d
    have "co_wlp (\<lambda>_ _. True) ?Q (cthen (co_pulsed api DO_TEST t) (\<lambda>_. cthen (co_maintained api DO_INHIBIT i) (\<lambda>_.
      cthen (co_maintained api DO_FORCE_TRANSFER f) (\<lambda>_. co_pulsed api DO_BYPASS_DELAY None)))) d"
      by (rule second) (rule rest)
    then show "co_wlp (\<lambda>_ _. True) ?Q (if \<not> ok \<and> (t \<noteq> None \<or> i = Some True \<or> f = Some True \<or> None \<noteq> (None :: int option))
        then at_once (raise HwWatchdogNotArmedError)
        else cthen (co_pulsed api DO_TEST t) (\<lambda>_. cthen (co_maintained api DO_INHIBIT i) (\<lambda>_.
          cthen (co_maintained api DO_FORCE_TRANSFER f) (\<lambda>_. co_pulsed api DO_BYPASS_DELAY None)))) d"
      by (simp add: co_wlp_def at_once_def raise_def)
  qed
qed

text \<open>What is left of call \<open>n\<close>, wherever it is suspended, returns with \<open>Q\<close>.\<close>

definition bound_for :: "nat \<Rightarrow> ('w adam \<Rightarrow> bool) \<Rightarrow> 'w event_loop \<Rightarrow> bool" where
  "bound_for n Q s \<longleftrightarrow> n < length (el_calls s) \<and>
     (\<forall>a k d. snd (el_calls s ! n) = Some (Suspended a k) \<longrightarrow> co_wlp (\<lambda>_ _. True) (\<lambda>_. Q) k d)"

lemma bound_for_suspended:
  "wlp (\<lambda>_ _. True) (\<lambda>_. Q) (Suspended a k) s \<Longrightarrow> co_wlp (\<lambda>_ _. True) (\<lambda>_. Q) k d"
  by (simp only: wlp_suspended)

lemma bound_for_step:
  assumes "loop_step api env e s s'" and "bound_for n Q s"
  shows "bound_for n Q s'"
  using assms(1)
proof (cases rule: loop_step.cases)
  case (Resume k op a rest out d)
  show ?thesis
  proof (cases "k = n")
    case True
    with assms(2) Resume have "wlp (\<lambda>_ _. True) (\<lambda>_. Q) out d" by (fastforce simp: bound_for_def co_wlp_def)
    with True Resume bound_for_suspended show ?thesis by (fastforce simp: bound_for_def simp del: wlp.simps)
  qed (use Resume assms(2) in \<open>simp add: bound_for_def\<close>)
next
  case (Cancel k op a rest)
  then show ?thesis using assms(2) by (cases "k = n") (auto simp: bound_for_def)
next
  case (Cancel_Sent k op rest out d)
  then show ?thesis using assms(2) by (cases "k = n") (auto simp: bound_for_def)
qed (use assms(2) in \<open>auto simp: bound_for_def nth_append\<close>)

lemma bound_for_run: "loop_run api env es s s' \<Longrightarrow> bound_for n Q s \<Longrightarrow> bound_for n Q s'"
  by (induction rule: loop_run.induct) (auto intro: bound_for_step)

text \<open>Events by which no call goes on.\<close>

fun winds_up :: "loop_event \<Rightarrow> bool" where
  "winds_up (Start op) = (op = Op_Close)"
| "winds_up (Cancel k) = True"
| "winds_up World = True"
| "winds_up _ = False"

lemma close_commanded: "adam_commanded (snd (adam_close api d)) = adam_commanded d"
  using adam.close_frame .

lemma winds_up_commanded:
  assumes "loop_run api env es s s'" and "list_all winds_up es"
  shows "adam_commanded (el_driver s') = adam_commanded (el_driver s)"
  using assms
proof (induction rule: loop_run.induct)
  case (Next e s s1 es s2)
  from Next.hyps(1) Next.prems have "adam_commanded (el_driver s1) = adam_commanded (el_driver s)"
    by (cases rule: loop_step.cases)
      (auto simp: at_once_def adam_commanded_def last_commanded_def fun_eq_iff split: prod.splits
        dest!: arg_cong [where f = snd] intro: close_commanded [THEN fun_cong, unfolded adam_commanded_def last_commanded_def])
  with Next show ?case by simp
qed simp

text \<open>
  C35: the last of the driver's calls to return has the last word, and at the shutdown it need not be the release.  \<open>_amain\<close>
  cancels the tasks it made itself; a dispatch task already inside \<open>drive_outputs\<close> is not among them.  So let a call that asserts
  Force-Transfer or Inhibit be started at any moment, and let anything go on during its awaits -- a \<open>release_all_outputs\<close> from its
  start to its return included.  If the call then goes on and returns, its output is commanded on, and still is once the driver has been
  closed, if no other call goes on.
\<close>

theorem shutdown_release_overtaken:
  assumes "ends_asserting op out" and "loop_run api env (Start op # es) s0 s"
    and "loop_step api env (Resume (length (el_calls s0))) s s1"
    and "snd (el_calls s1 ! length (el_calls s0)) = Some (Finished (Inr ()))"
    and "loop_run api env late s1 s'" and "list_all winds_up late"
  shows "adam_commanded (el_driver s') out = Some True"
proof -
  let ?n = "length (el_calls s0)" and ?Q = "\<lambda>d. adam_commanded d out = Some True"
  from assms(2) obtain sa where start: "loop_step api env (Start op) s0 sa" and rest: "loop_run api env es sa s"
    by (simp add: loop_run_simps) blast
  have "bound_for ?n ?Q sa"
    using start call_ends_asserting [OF assms(1), of api "el_driver s0"] bound_for_suspended
    by (fastforce simp: loop_step_simps bound_for_def co_wlp_def simp del: wlp.simps)
  with rest have bound: "bound_for ?n ?Q s" by (rule bound_for_run)
  have "?Q (el_driver s1)"
    using assms(3,4) bound by (fastforce simp: loop_step_simps bound_for_def co_wlp_def)
  with winds_up_commanded [OF assms(5,6)] show ?thesis by simp
qed

section \<open>Fail closed\<close>

text \<open>The values of the self-check are read in the unit as it is when the request is performed.\<close>

lemma closed_link:
  assumes "only_asserts_break api I"
  shows "link_interference (unasserted I slave config) (\<lambda>_ _. True) api"
  by unfold_locales (use unasserted_link_keeps [OF assms, of slave config] in \<open>auto simp: kept_def dest: link_keepsD\<close>)

lemma closed_holding:
  assumes "only_asserts_break api I"
  shows "co_rg (unasserted I slave config) (\<lambda>_ _. True) (reads_back api I slave a c) (co_read_holding_registers api a c)"
    and "co_rg (unasserted I slave config) (\<lambda>_ _. True) (\<lambda>v. \<exists>vs. reads_back api I slave a 1 (v # vs))
      (co_read_holding_register api a)"
proof -
  note L = closed_link [OF assms, of slave config]
  note rg = link_interference.axioms(1) [OF L]
  note then_rule = interference.rg_cthen [OF rg] and catch_rule = interference.rg_ccatching [OF rg]
    and once = interference.rg_at_once [OF rg] and await = interference.rg_awaits [OF rg]
  have keep: "unasserted I slave config s'"
    if "unasserted I slave config s" "call (api_read_holding api a c slave) s = (r, s')" for s s' r a c
  proof -
    have "keeps (unasserted I slave config) (call (api_read_holding api a c slave))"
      by (intro keeps_call link_keepsD(7) [OF unasserted_link_keeps [OF assms]])
    from keepsD [OF this that(1)] that(2) show ?thesis by simp
  qed
  show regs: "co_rg (unasserted I slave config) (\<lambda>_ _. True) (reads_back api I slave a c) (co_read_holding_registers api a c)" for a c
    unfolding co_read_holding_registers_def
  proof (rule then_rule [where Q = "\<lambda>(present, sl). sl = slave"])
    show "co_rg (unasserted I slave config) (\<lambda>_ _. True) (\<lambda>(present, sl). sl = slave) (at_once (gets (\<lambda>d. (lk_client d, ad_unit_id d))))"
      by (rule once) (auto simp: gets_def unasserted_def)
    fix x :: "bool \<times> int" assume "case x of (present, sl) \<Rightarrow> sl = slave"
    then obtain present where x: "x = (present, slave)" by (cases x) simp
    let ?Q = "\<lambda>rr. \<exists>w. I w \<and> fst (api_read_holding api a c slave w) = Inr rr"
    have "co_rg (unasserted I slave config) (\<lambda>_ _. True) (reads_back api I slave a c)
        (cthen (ccatching (awaits (call (api_read_holding api a c slave)))
          (\<lambda>e. at_once (if is_link_failure e then raise OSError else raise e)))
          (\<lambda>rr. at_once (andthen (checked_response rr) (\<lambda>registers. ret (py_take c registers)))))"
    proof (rule then_rule [where Q = ?Q], rule catch_rule)
      show "co_rg (unasserted I slave config) (\<lambda>_ _. True) ?Q (awaits (call (api_read_holding api a c slave)))"
        by (rule await) (auto simp: keep, auto simp: call_def unasserted_def split: prod.splits)
    next
      fix e show "co_rg (unasserted I slave config) (\<lambda>_ _. True) ?Q (at_once (if is_link_failure e then raise OSError else raise e))"
        by (rule once) (auto simp: raise_def split: if_splits)
    next
      fix rr assume "?Q rr"
      then show "co_rg (unasserted I slave config) (\<lambda>_ _. True) (reads_back api I slave a c)
          (at_once (andthen (checked_response rr) (\<lambda>registers. ret (py_take c registers))))"
        by (intro once) (auto simp: act_simps checked_response_def reads_back_def split: response.splits)
    qed
    then show "co_rg (unasserted I slave config) (\<lambda>_ _. True) (reads_back api I slave a c)
       (case x of (present, slave) \<Rightarrow> if \<not> present then at_once (raise OSError) else
        cthen (ccatching (awaits (call (api_read_holding api a c slave)))
          (\<lambda>e. at_once (if is_link_failure e then raise OSError else raise e)))
          (\<lambda>rr. at_once (andthen (checked_response rr) (\<lambda>registers. ret (py_take c registers)))))"
      by (auto simp: x raise_def intro!: once)
  qed
  show "co_rg (unasserted I slave config) (\<lambda>_ _. True) (\<lambda>v. \<exists>vs. reads_back api I slave a 1 (v # vs))
      (co_read_holding_register api a)"
    unfolding co_read_holding_register_def
  proof (rule then_rule [OF regs])
    fix rs assume "reads_back api I slave a 1 rs"
    then show "co_rg (unasserted I slave config) (\<lambda>_ _. True) (\<lambda>v. \<exists>vs. reads_back api I slave a 1 (v # vs))
        (at_once (lift_result (py_index rs 0)))"
      by (intro once) (cases rs; auto simp: act_simps py_index_def)
  qed
qed

lemma closed_readback:
  assumes "only_asserts_break api I"
  shows "co_rg (unasserted I slave config) (\<lambda>_ _. True)
    (\<lambda>r. \<forall>ev tv sv. r = Inr (ev, tv, sv) \<longrightarrow> (\<exists>vs. reads_back api I slave e 1 (ev # vs)) \<and>
       (\<exists>vs. reads_back api I slave t 1 (tv # vs)) \<and> reads_back api I slave b (safety_value_count cfg) sv)
    (co_hw_readback api cfg e t b)"
proof -
  note rg = link_interference.axioms(1) [OF closed_link [OF assms, of slave config]]
  note hold = closed_holding [OF assms, of slave config]
  show ?thesis
    unfolding co_hw_readback_def
    apply (rule interference.rg_ccatching [OF rg])
     apply (rule interference.rg_cthen [OF rg hold(2)])
     apply (rule interference.rg_cthen [OF rg hold(2)])
     apply (rule interference.rg_cthen [OF rg hold(1)])
     apply (rule interference.rg_at_once [OF rg], clarsimp simp: ret_def, blast)
    apply (rule interference.rg_at_once [OF rg], auto simp: ret_def raise_def split: if_splits)
    done
qed

lemma closed_verify:
  fixes api :: "'w modbus_api"
  assumes closed: "only_asserts_break api I" and never: "never_armed api I slave config"
  shows "co_rg (unasserted I slave config) (\<lambda>_ _. True) (\<lambda>_. True) (co_verify_hw_watchdog api)"
proof -
  note rg = link_interference.axioms(1) [OF closed_link [OF closed, of slave config]]
  note once = interference.rg_at_once [OF rg]
  have down: "co_rg (unasserted I slave config) (\<lambda>_ _. True) (\<lambda>_. True) (at_once (set_hw_watchdog_status False det))" for det
    by (rule once) (auto simp: set_hw_watchdog_status_def modify_def unasserted_def)
  show ?thesis
    unfolding co_verify_hw_watchdog_def
  proof (rule interference.rg_cthen [OF rg, where Q = "\<lambda>(required, c). required \<and> c = config"])
    show "co_rg (unasserted I slave config) (\<lambda>_ _. True) (\<lambda>(required, c). required \<and> c = config)
        (at_once (gets (\<lambda>d. (ad_require_hw_watchdog d, ad_hw_watchdog d))))"
      by (rule once) (auto simp: gets_def unasserted_def)
    fix x :: "bool \<times> HwWatchdogConfig option" assume "case x of (required, c) \<Rightarrow> required \<and> c = config"
    then have x: "x = (True, config)" by (cases x) simp
    have "co_rg (unasserted I slave config) (\<lambda>_ _. True) (\<lambda>_. True)
        (cthen (co_hw_readback api cfg e t b) (\<lambda>r. at_once (hw_decide cfg r)))"
      if "config = Some cfg" "enable_register cfg = Some e" "timeout_register cfg = Some t" "safety_value_register_base cfg = Some b"
      for cfg e t b
    proof (rule interference.rg_cthen [OF rg closed_readback [OF closed]])
      fix r :: "exc + int \<times> int \<times> int list" assume r: "\<forall>ev tv sv. r = Inr (ev, tv, sv) \<longrightarrow> (\<exists>vs. reads_back api I slave e 1 (ev # vs)) \<and>
         (\<exists>vs. reads_back api I slave t 1 (tv # vs)) \<and> reads_back api I slave b (safety_value_count cfg) sv"
      have "hw_problems cfg ev tv sv \<noteq> []" if "r = Inr (ev, tv, sv)" for ev tv sv
        using never that r \<open>config = Some cfg\<close> \<open>enable_register cfg = Some e\<close> \<open>timeout_register cfg = Some t\<close>
          \<open>safety_value_register_base cfg = Some b\<close> unfolding never_armed_def by metis
      then have "\<exists>det. hw_decide cfg r = (set_hw_watchdog_status False det :: ('w adam, unit) act)"
        by (cases r) (auto simp: hw_decide_def Let_def)
      then show "co_rg (unasserted I slave config) (\<lambda>_ _. True) (\<lambda>_. True) (at_once (hw_decide cfg r))"
        using down by auto
    qed
    then show "co_rg (unasserted I slave config) (\<lambda>_ _. True) (\<lambda>_. True)
       (case x of (required, config) \<Rightarrow> if \<not> required then at_once (set_hw_watchdog_status True Readback_Waived)
        else (case config of None \<Rightarrow> at_once (set_hw_watchdog_status False Registers_Not_Configured)
          | Some cfg \<Rightarrow> (case (enable_register cfg, timeout_register cfg, safety_value_register_base cfg) of
              (Some enable_reg, Some timeout_reg, Some base) \<Rightarrow>
                cthen (co_hw_readback api cfg enable_reg timeout_reg base) (\<lambda>r. at_once (hw_decide cfg r))
            | _ \<Rightarrow> at_once (set_hw_watchdog_status False Registers_Not_Configured))))"
      unfolding x using down by (auto split: option.split)
  qed
qed

lemma closed_interference:
  assumes "only_asserts_break api I" and "never_armed api I slave config"
  shows "driver_interference (unasserted I slave config) (\<lambda>_ _. True) api (\<lambda>w w'. I w \<longrightarrow> I w')"
proof (rule driver_interference.intro [OF closed_link [OF assms(1)]], unfold_locales)
  show "co_rg (unasserted I slave config) (\<lambda>_ _. True) (\<lambda>_. True) (co_verify_hw_watchdog api)"
    by (rule closed_verify [OF assms])
  show "kept (unasserted I slave config) (\<lambda>_ _. True) (\<lambda>d. d\<lparr>lk_env := snd (api_write_coil api a False s (lk_env d))\<rparr>)" for a s
    using assms(1) by (simp add: kept_def unasserted_def only_asserts_break_def)
qed (auto simp: kept_def unasserted_def record_commanded_def modify_def)

text \<open>An asserting call finds the fail-safe unverified at its start, whatever is in flight.\<close>

lemma closed_loop:
  assumes "only_asserts_break api I" and "never_armed api I slave config"
  shows "loop_interference (unasserted I slave config) (\<lambda>_ _. True) api (\<lambda>w w'. I w \<longrightarrow> I w') (\<lambda>_. True)"
proof -
  note D = closed_interference [OF assms]
  note rg = link_interference.axioms(1) [OF closed_link [OF assms(1), of slave config]]
  have drive: "co_rg (unasserted I slave config) (\<lambda>_ _. True) (\<lambda>_. True) (co_drive_outputs api t i f b)"
    if "asserts_output t i f b" for t i f b
    unfolding co_drive_outputs_def
  proof (rule interference.rg_cthen [OF rg, where Q = "\<lambda>ok. \<not> ok"])
    show "co_rg (unasserted I slave config) (\<lambda>_ _. True) (\<lambda>ok. \<not> ok) (at_once (gets ad_hw_watchdog_ok))"
      by (rule interference.rg_at_once [OF rg]) (auto simp: gets_def unasserted_def)
  qed (use that in \<open>auto simp: asserts_output_def raise_def intro!: interference.rg_at_once [OF rg]\<close>)
  have "co_rg (unasserted I slave config) (\<lambda>_ _. True) (\<lambda>_. True) (op_coroutine api op)" for op
    by (cases "asserting op") (use drive driver_interference.rg_op [OF D] in \<open>auto elim: asserting.elims\<close>)
  then show ?thesis
    by (intro loop_interference.intro rg loop_interference_axioms.intro) (auto simp: unasserted_def)
qed

text \<open>
  C1: the relay driver fails closed under every interleaving.  It is built with the hardware self-check required (the default), over a
  unit whose host-watchdog registers never read back as armed -- unreadable, unconfigured, or holding any other values, read at
  any three moments.  Then however its calls and release tasks interleave at their awaits, are cancelled or are left unanswered, whatever
  else happens to the unit, and with any reconnects in between, no command output is asserted: what only an asserting
  coil write could break still holds of the unit.
\<close>

theorem adam_fails_closed_interleaved:
  assumes "adam_init slave debounce mode di_read True config w = Inr d" and "I w"
    and "only_asserts_break api I" and "never_armed api I slave config"
    and "loop_run api (\<lambda>w w'. I w \<longrightarrow> I w') es (quiet_loop d) s"
  shows "I (lk_env (el_driver s)) \<and> \<not> ad_hw_watchdog_ok (el_driver s)"
proof -
  note L = closed_loop [OF assms(3,4)]
  have "unasserted I slave config (el_driver (quiet_loop d))"
    using assms(1,2) by (auto simp: adam_init_def unasserted_def quiet_loop_def split: if_splits)
  moreover have "loop_interference.well_behaved (unasserted I slave config) (\<lambda>_ _. True) (\<lambda>_. True) (quiet_loop d)"
    by (simp add: loop_interference.well_behaved_def [OF L] quiet_loop_def)
  moreover have "only (\<lambda>_. True) (quiet_loop d)" "list_all (starts_only (\<lambda>_. True)) es"
    by (simp_all add: only_def starts_only_def list_all_iff split: loop_event.split)
  ultimately have "unasserted I slave config (el_driver s)"
    using loop_interference.run_moves [OF L assms(5)] by blast
  then show ?thesis by (simp add: unasserted_def)
qed

section \<open>Calls end\<close>

text \<open>Each await takes two resumptions: the request, and the response.\<close>

lemma ends_request: "co_ends 2 (co_request f)"
  unfolding co_request_def by (rule co_ends_mono, (rule ends_rules)+, simp)

lemma ends_now: "co_ends n (at_once m)"
  by (rule co_ends_mono [OF ends_pieces(1)]) simp

lemma ends_first: "(\<And>x. co_ends n (f x)) \<Longrightarrow> co_ends n (cthen (at_once m) f)"
  using ends_sequence(1) [OF ends_pieces(1), of n f m] by simp

lemma ends_holding: "co_ends 2 (co_read_holding_registers api a c)" "co_ends 2 (co_read_holding_register api a)"
proof -
  have read: "co_ends 2 (cthen (ccatching (awaits (call f)) (\<lambda>e. at_once (h e))) (\<lambda>rr. at_once (g rr)))"
    for f :: "'a \<Rightarrow> (lib_exc + 'b) \<times> 'a" and h and g :: "'b \<Rightarrow> ('a adam, 'c) act"
    by (rule co_ends_mono, (rule ends_rules)+, simp)
  show *: "co_ends 2 (co_read_holding_registers api a c)" for a c
    unfolding co_read_holding_registers_def by (auto intro!: ends_first read ends_now)
  show "co_ends 2 (co_read_holding_register api a)"
    unfolding co_read_holding_register_def by (rule co_ends_mono, (rule ends_rules *)+, simp)
qed

lemma ends_verify: "co_ends 6 (co_verify_hw_watchdog api)"
proof -
  have "co_ends 6 (cthen (co_hw_readback api cfg e t b) (\<lambda>r. at_once (hw_decide cfg r)))" for cfg e t b
    unfolding co_hw_readback_def by (rule co_ends_mono, (rule ends_rules ends_holding)+, simp)
  then show ?thesis
    unfolding co_verify_hw_watchdog_def by (auto intro!: ends_first ends_now split: option.split)
qed

lemma ends_connect: "co_ends 8 (co_connect api)" "co_ends 8 (co_ensure_connected api)"
proof -
  have link: "co_ends 2 (co_open_link api)"
    unfolding co_open_link_def by (rule ends_first, rule co_ends_mono, (rule ends_rules)+, simp)
  have checked: "co_ends 6 (cthen (if ok then co_verify_hw_watchdog api else at_once (ret ())) (\<lambda>_. at_once (gets lk_connected)))" for ok
    by (rule co_ends_mono, rule ends_rules, rule ends_cases, rule ends_verify, rule ends_now, rule ends_rules, simp)
  have "co_ends (2 + 6) (co_connect api)"
    unfolding co_connect_def by (rule ends_sequence(1) [OF link checked])
  then show *: "co_ends 8 (co_connect api)" by simp
  have "co_ends 8 (cthen (co_connect api) (\<lambda>_. at_once m))" for m :: "('a adam, unit) act"
    by (rule co_ends_mono, (rule ends_rules *)+, simp)
  then show "co_ends 8 (co_ensure_connected api)"
    unfolding co_ensure_connected_def by (auto intro!: ends_first ends_now)
qed

lemma ends_access: "co_ends 10 (co_read_bits api rd a c)" "co_ends 10 (co_write_coil api a b)"
  unfolding co_read_bits_def co_write_coil_def
  by (rule co_ends_mono, (rule ends_rules ends_connect ends_request)+, simp)+

lemma ends_output: "co_ends 10 (co_pulsed api i ms)" "co_ends 10 (co_maintained api i v)" "co_ends 10 (co_release_output api i)"
proof -
  have wrote: "co_ends 10 (cthen (co_write_coil api a b) (\<lambda>_. at_once m))" for a b and m :: "('a adam, unit) act"
    by (rule co_ends_mono, (rule ends_rules ends_access)+, simp)
  show "co_ends 10 (co_pulsed api i ms)" "co_ends 10 (co_maintained api i v)" "co_ends 10 (co_release_output api i)"
    unfolding co_pulsed_def co_maintained_def co_release_output_def
    by (auto intro!: ends_first ends_now wrote split: option.split)
qed

text \<open>The resumptions of each call: at most four writes, each of which may reconnect and read the self-check's registers.\<close>

fun most_resumes :: "adam_op \<Rightarrow> nat" where
  "most_resumes Op_Connect = 8"
| "most_resumes Op_Close = 0"
| "most_resumes (Op_Drive t i f b) = 40"
| "most_resumes Op_Release_All = 40"
| "most_resumes _ = 10"

lemma ends_op: "co_ends (most_resumes op) (op_coroutine api op)"
proof (cases op)
  case (Op_Drive t i f b)
  have "co_ends 40 (cthen (co_pulsed api DO_TEST t) (\<lambda>_. cthen (co_maintained api DO_INHIBIT i) (\<lambda>_.
       cthen (co_maintained api DO_FORCE_TRANSFER f) (\<lambda>_. co_pulsed api DO_BYPASS_DELAY b))))"
    by (rule co_ends_mono, (rule ends_rules ends_output)+, simp)
  then show ?thesis unfolding Op_Drive by (auto simp: co_drive_outputs_def intro!: ends_first ends_now)
next
  case Op_Release_All
  have "co_ends 40 (cthen (co_release_output api DO_TEST) (\<lambda>_. cthen (co_release_output api DO_FORCE_TRANSFER) (\<lambda>_.
       cthen (co_release_output api DO_INHIBIT) (\<lambda>_. co_release_output api DO_BYPASS_DELAY))))"
    by (rule co_ends_mono, (rule ends_rules ends_output)+, simp)
  then show ?thesis unfolding Op_Release_All by (auto simp: co_release_all_outputs_def intro!: ends_first)
next
  case (Op_Task k)
  have "co_ends 10 (co_release_attempt api j coil)" for j coil
    unfolding co_release_attempt_def by (rule co_ends_mono, (rule ends_rules ends_access)+, simp)
  then show ?thesis
    unfolding Op_Task by (auto simp: co_release_step_def split: release_phase.split intro!: ends_first ends_now)
next
  case Op_Connect
  have "co_ends 8 (cthen (co_connect api) (\<lambda>_. at_once (ret ())))"
    by (rule co_ends_mono, (rule ends_rules ends_connect)+, simp)
  then show ?thesis unfolding Op_Connect by simp
next
  case Op_Read_Inputs
  have "co_ends 10 (co_read_di_bits api 6)"
    unfolding co_read_di_bits_def by (auto intro!: ends_first ends_now ends_access split: option.split)
  then have "co_ends 10 (cthen (co_read_inputs api) (\<lambda>_. at_once (ret ())))"
    unfolding co_read_inputs_def by - (rule co_ends_mono, (rule ends_rules | assumption)+, simp)
  then show ?thesis unfolding Op_Read_Inputs by simp
next
  case Op_Read_Outputs
  have "co_ends 10 (cthen (co_read_output_state api) (\<lambda>_. at_once (ret ())))"
    unfolding co_read_output_state_def by (rule co_ends_mono, (rule ends_rules ends_access)+, simp)
  then show ?thesis unfolding Op_Read_Outputs by simp
qed (simp add: ends_now)

text \<open>What is left of a call as the loop goes on.\<close>

definition resumes_left :: "nat \<Rightarrow> nat \<Rightarrow> 'w event_loop \<Rightarrow> bool" where
  "resumes_left m n s \<longleftrightarrow> n < length (el_calls s) \<and>
     (case snd (el_calls s ! n) of None \<Rightarrow> True | Some out \<Rightarrow> ends_within m out)"

lemma step_resumes_left:
  assumes "loop_step api env e s s'" and "resumes_left m n s"
  shows "resumes_left (if e = Resume n then m - 1 else m) n s'"
  using assms(1)
proof (cases rule: loop_step.cases)
  case (Resume k op a rest out d)
  show ?thesis
  proof (cases "k = n")
    case True
    have "ends_within m (Suspended a rest)" using True assms(2) Resume by (simp add: resumes_left_def)
    then obtain m' where "m = Suc m'" "ends_within m' (fst (rest (el_driver s)))" by (cases m) auto
    with True Resume show ?thesis by (simp add: resumes_left_def)
  next
    case False
    with assms(2) Resume show ?thesis by (simp add: resumes_left_def)
  qed
next
  case (Cancel k op a rest)
  then show ?thesis using assms(2) by (cases "k = n") (auto simp: resumes_left_def)
next
  case (Cancel_Sent k op rest out d)
  then show ?thesis using assms(2) by (cases "k = n") (auto simp: resumes_left_def)
qed (use assms(2) in \<open>auto simp: resumes_left_def nth_append\<close>)

lemma run_resumes_left:
  "loop_run api env es s s' \<Longrightarrow> resumes_left m n s \<Longrightarrow> resumes_left (m - count_list es (Resume n)) n s'"
proof (induction arbitrary: m rule: loop_run.induct)
  case (Next e s s1 es s2)
  from Next.IH [OF step_resumes_left [OF Next.hyps(1) Next.prems]] show ?case by (auto split: if_splits)
qed simp

text \<open>
  C20: every call ends.  However the calls interleave and whatever the unit answers, a call of the driver that is still in flight
  has gone on fewer than 40 times (8 for connecting, 10 for a read or a pass of a release task): no sequence of failures, reconnects
  and changes under its awaits keeps one going.
\<close>

theorem driver_calls_end:
  assumes "loop_run api env (Start op # es) s s'"
    and "in_flight (snd (el_calls s' ! length (el_calls s)))"
  shows "count_list es (Resume (length (el_calls s))) < most_resumes op"
proof -
  let ?n = "length (el_calls s)"
  from assms(1) obtain s1 where start: "loop_step api env (Start op) s s1" and rest: "loop_run api env es s1 s'"
    by (simp add: loop_run_simps) blast
  have "resumes_left (most_resumes op) ?n s1"
    using start ends_op [of op api] by (auto simp: loop_step_simps resumes_left_def co_ends_def) (metis fst_conv)
  from run_resumes_left [OF rest this] assms(2) show ?thesis
    by (cases "snd (el_calls s' ! ?n)" rule: in_flight.cases; cases "most_resumes op - count_list es (Resume ?n)")
      (auto simp: resumes_left_def)
qed

end
