(* ===== verification/Adam_Races.thy ===== *)
theory Adam_Races
  imports Adam_Concurrency
begin

text \<open>
  Concrete runs of the event loop over the simulated unit: instances of the theorems of \<open>Adam_Concurrency\<close>, and two pulses
  whose coil writes overlap.
\<close>

section \<open>Evaluation\<close>

lemma sim_api_eval:
  "api_new sim_api u = u" "api_connect sim_api u = (Inr True, u\<lparr>us_alive := True\<rparr>)"
  "api_connected sim_api u = us_alive u" "api_close sim_api u = (Inr (), u\<lparr>us_alive := False\<rparr>)"
  "api_write_coil sim_api a v slave u =
     (if us_writes_fail u then (Inl LibTimeout, u) else (Inr (Response ()), u\<lparr>us_coils := (a, v) # us_coils u\<rparr>))"
  "api_read_holding sim_api a n slave u = (Inr (Response (sim_registers u a n)), u)"
  "api_monotonic sim_api u = us_clock u"
  by (simp_all add: sim_api_def)

lemma sim_registers_eval:
  "sim_registers u 0 1 = (if us_mute u then [] else [if us_armed u then 1 else 0])"
  "sim_registers u 1 1 = (if us_mute u then [] else [70])"
  "sim_registers u 2 6 = (if us_mute u then [] else [0, 0, 0, 0, 0, 0])"
  by (simp_all add: sim_registers_def upt_rec)

lemma sim_config_eval:
  "enable_register sim_config = Some 0" "timeout_register sim_config = Some 1"
  "safety_value_register_base sim_config = Some 2" "safety_value_count sim_config = 6"
  "timeout_scale_s sim_config = 1 / 10"
  "hw_problems sim_config 1 70 [0, 0, 0, 0, 0, 0] = []"
  by (simp_all add: sim_config_def default_hw_watchdog_config_def hw_problems_def)

lemma sim_armed_eq:
  "sim_armed =
     \<lparr>lk_env = \<lparr>us_alive = True, us_armed = True, us_writes_fail = False, us_mute = False, us_coils = [], us_clock = 0\<rparr>,
      lk_client = True, lk_connected = True, ad_unit_id = 1,
      ad_assumed_mode = ''auto'', ad_di_read = ''coils'', ad_require_hw_watchdog = True,
      ad_hw_watchdog = Some sim_config, ad_hw_watchdog_ok = True,
      ad_hw_watchdog_detail = Armed 7 6, ad_hw_watchdog_checked = True,
      ad_test_release_task = None, ad_bypass_release_task = None, ad_load_disconnect_seen_mono = None,
      ad_debounce = debouncer_init 3, ad_commanded_do = [], ad_tasks = []\<rparr>"
  by (simp only: sim_armed_def sim_connect) (simp add: sim_driver_eq sim_unit_def)

lemmas loop_eval = loop_play.simps loop_exec.simps may_start_def may_resume_def op_coroutine.simps quiet_loop_def
  co_driver_eval co_eval act_eval sim_armed_eq sim_api_eval sim_registers_eval sim_config_eval
  now_def cancel_task_def py_take_def py_index_def release_slot_def slot_pending_def set_release_slot_def pulse_ms_def
  in_flight.simps

lemma played: "\<exists>s'. loop_play api es s = Some s' \<and> P s' \<Longrightarrow> \<exists>s'. loop_run api env es s s' \<and> P s'"
  using loop_play_run by metis

section \<open>A command overtakes the release of the shutdown\<close>

text \<open>
  A driver whose connection has dropped without its noticing.  The dispatch of a Force-Transfer command reconnects; while it reads
  the self-check's registers the shutdown's release of everything runs, from its start to its return.
\<close>

definition unlinked :: "unit_sim adam" where
  "unlinked = sim_armed\<lparr>lk_env := sim_unit True\<rparr>"

definition overtaking :: "loop_event list" where
  "overtaking =
     [Resume 0, Resume 0, Start Op_Release_All, Resume 1, Resume 1, Resume 1, Resume 1, Resume 1, Resume 1, Resume 1, Resume 1,
      Resume 0, Resume 0, Resume 0, Resume 0, Resume 0, Resume 0, Resume 0]"

lemma overtaking_plays:
  "\<exists>s s1. loop_play sim_api (Start (Op_Drive None None (Some True) None) # overtaking) (quiet_loop unlinked) = Some s \<and>
     loop_exec sim_api (Resume 0) s = Some s1 \<and> snd (el_calls s1 ! 1) = Some (Finished (Inr ())) \<and>
     snd (el_calls s1 ! 0) = Some (Finished (Inr ()))"
  unfolding overtaking_def unlinked_def
  by (simp add: loop_eval sim_unit_def del: continue.simps(2))

lemma shutdown_release_overtaken_witness:
  "\<exists>s. loop_run sim_api (\<lambda>_ _. True) (Start (Op_Drive None None (Some True) None) # overtaking @ [Resume 0, Start Op_Close])
       (quiet_loop unlinked) s \<and>
     adam_commanded (el_driver s) Force_Transfer = Some True"
proof -
  let ?op = "Op_Drive None None (Some True) None"
  obtain s s1 where play: "loop_play sim_api (Start ?op # overtaking) (quiet_loop unlinked) = Some s"
      "loop_exec sim_api (Resume 0) s = Some s1" "snd (el_calls s1 ! 0) = Some (Finished (Inr ()))"
    using overtaking_plays by blast
  have run: "loop_run sim_api (\<lambda>_ _. True) (Start ?op # overtaking) (quiet_loop unlinked) s"
    and step: "loop_step sim_api (\<lambda>_ _. True) (Resume 0) s s1"
    using play loop_play_run loop_exec_step by blast+
  obtain out d where "op_coroutine sim_api Op_Close (el_driver s1) = (out, d)" by fastforce
  from loop_step.Start [OF _ this] obtain s2 where close: "loop_run sim_api (\<lambda>_ _. True) [Start Op_Close] s1 s2"
    by (fastforce simp: may_start_def intro: loop_run.intros)
  have "loop_run sim_api (\<lambda>_ _. True) (Start ?op # overtaking @ [Resume 0, Start Op_Close]) (quiet_loop unlinked) s2"
    using loop_run_append [OF run loop_run.Next [OF step close]] by simp
  with shutdown_release_overtaken [of ?op Force_Transfer, OF _ run _ _ close] step play(3) show ?thesis
    by (auto simp: quiet_loop_def)
qed

section \<open>Two pulses of one output\<close>

text \<open>Both calls pass the guard before either has scheduled its release, and a release of everything follows.\<close>

definition stacking :: "loop_event list" where
  "stacking =
     [Start (Op_Drive (Some 700) None None None), Start (Op_Drive (Some 700) None None None),
      Resume 0, Resume 1, Resume 0, Resume 1,
      Start Op_Release_All, Resume 2, Resume 2, Resume 2, Resume 2, Resume 2, Resume 2, Resume 2, Resume 2]"

theorem overlapping_pulses_stack:
  "\<exists>s. loop_run sim_api env stacking (quiet_loop sim_armed) s \<and>
     snd (el_calls s ! 2) = Some (Finished (Inr ())) \<and>
     map rt_do_index (ad_tasks (el_driver s)) = [DO_TEST, DO_TEST] \<and>
     task_pending (el_driver s) 0 \<and> ad_test_release_task (el_driver s) = Some 1"
proof -
  have "\<exists>s. loop_play sim_api stacking (quiet_loop sim_armed) = Some s \<and>
     snd (el_calls s ! 2) = Some (Finished (Inr ())) \<and>
     map rt_do_index (ad_tasks (el_driver s)) = [DO_TEST, DO_TEST] \<and>
     task_pending (el_driver s) 0 \<and> ad_test_release_task (el_driver s) = Some 1"
    unfolding stacking_def
    by (simp add: loop_eval task_pending_def task_done_def del: continue.simps(2))
  then show ?thesis by (rule played)
qed

section \<open>Instances\<close>

text \<open>A release of everything whose writes alternate with a reconnect and its self-check.\<close>

definition releasing :: "loop_event list" where
  "releasing =
     [Start Op_Release_All, Start Op_Connect, Resume 0, Resume 1, Resume 0, Resume 1, Resume 0, Resume 1, Resume 0,
      Resume 1, Resume 0, Resume 1, Resume 0, Resume 1, Resume 0, Resume 0]"

lemma releasing_plays:
  "\<exists>s. loop_play sim_api releasing (quiet_loop sim_armed) = Some s \<and> snd (el_calls s ! 0) = Some (Finished (Inr ()))"
  unfolding releasing_def by (simp add: loop_eval del: continue.simps(2))

lemma release_holds_under_interference_witness:
  "\<exists>s. loop_run sim_api (\<lambda>_ _. True) releasing (quiet_loop sim_armed) s \<and>
     (\<forall>out. adam_commanded (el_driver s) out = Some False)"
proof -
  obtain s where run: "loop_run sim_api (\<lambda>_ _. True) releasing (quiet_loop sim_armed) s"
    and returned: "snd (el_calls s ! 0) = Some (Finished (Inr ()))"
    using played [OF releasing_plays] by blast
  obtain es where es: "releasing = Start Op_Release_All # es" by (simp add: releasing_def)
  have starts: "list_all (starts_only (\<lambda>op. \<not> asserting op)) releasing" by (simp add: releasing_def starts_only_def)
  have "adam_commanded (el_driver s) out = Some False" for out
    using release_holds_under_interference [OF loop_run.Idle _ run [unfolded es] starts [unfolded es], of out] returned
    by (simp add: only_def quiet_loop_def)
  with run show ?thesis by blast
qed

text \<open>A Force-Transfer command while the connection to a unit without its host watchdog is being checked.\<close>

definition refusing :: "loop_event list" where
  "refusing = [Start Op_Connect, Resume 0, Resume 0, Start (Op_Drive None None (Some True) None), Resume 0, Resume 0, Resume 0, Resume 0,
     Resume 0, Resume 0, Start (Op_Drive None None (Some True) None)]"

lemma unarmed_eval: "hw_problems sim_config 0 70 [0, 0, 0, 0, 0, 0] = [Not_Enabled 0]"
  by (simp add: sim_config_def default_hw_watchdog_config_def hw_problems_def)

lemma refusing_plays:
  "\<exists>s. loop_play sim_api refusing (quiet_loop (sim_driver False)) = Some s \<and>
     map snd (el_calls s) = [Some (Finished (Inr ())), Some (Finished (Inl HwWatchdogNotArmedError)),
       Some (Finished (Inl HwWatchdogNotArmedError))]"
  unfolding refusing_def
  by (simp add: loop_eval sim_driver_eq sim_unit_def unarmed_eval del: continue.simps(2))

lemma adam_fails_closed_interleaved_witness:
  "\<exists>s. loop_run sim_api (\<lambda>w w'. all_off w \<longrightarrow> all_off w') refusing (quiet_loop (sim_driver False)) s \<and>
     all_off (lk_env (el_driver s)) \<and> \<not> ad_hw_watchdog_ok (el_driver s)"
proof -
  obtain s where "loop_play sim_api refusing (quiet_loop (sim_driver False)) = Some s"
    using refusing_plays by blast
  then have run: "loop_run sim_api (\<lambda>w w'. all_off w \<longrightarrow> all_off w') refusing (quiet_loop (sim_driver False)) s"
    by (rule loop_play_run)
  have init: "adam_init 1 3 ''auto'' ''coils'' True (Some sim_config) (sim_unit False) = Inr (sim_driver False)"
    by (simp add: adam_init_def sim_driver_eq VALID_ASSUMED_MODES_def DI_READ_FN_def)
  have "all_off (sim_unit False)" by (simp add: all_off_def sim_unit_def)
  from adam_fails_closed_interleaved [OF init this sim_only_asserts_break sim_never_armed run] run show ?thesis by blast
qed

text \<open>A release of everything in the middle of its second write.\<close>

lemma half_released:
  "\<exists>s. loop_play sim_api [Start Op_Release_All, Resume 0, Resume 0, Resume 0] (quiet_loop sim_armed) = Some s \<and>
     in_flight (snd (el_calls s ! 0))"
  by (simp add: loop_eval del: continue.simps(2))

lemma driver_calls_end_witness:
  "\<exists>s. loop_run sim_api (\<lambda>_ _. True) [Start Op_Release_All, Resume 0, Resume 0, Resume 0] (quiet_loop sim_armed) s \<and>
     in_flight (snd (el_calls s ! 0)) \<and> count_list [Resume 0, Resume 0, Resume 0] (Resume 0) < 40"
proof -
  obtain s where s: "loop_run sim_api (\<lambda>_ _. True) [Start Op_Release_All, Resume 0, Resume 0, Resume 0] (quiet_loop sim_armed) s"
      "in_flight (snd (el_calls s ! 0))"
    using played [OF half_released] by blast
  with driver_calls_end [OF s(1)] show ?thesis by (auto simp: quiet_loop_def)
qed

end
